(* ===== verification/Core_Prelude.thy ===== *)
theory Core_Prelude
  imports Complex_Main
begin

text \<open>
  Shared vocabulary of the development: Python exceptions as a datatype, the two ways a modelled
  routine can return (a plain result, or a result together with the object state it leaves behind,
  which is also the state a caught exception leaves behind), the string normalisations the sources
  apply to codes, and the generic list lemmas the components share.
\<close>

named_theorems ledger_simps \<open>exact behaviour of ledger arithmetic on storable amounts\<close>

section \<open>Exceptions as values\<close>

text \<open>
  \<open>precision_violation\<close> and the first constructor of \<open>py_error\<close> are
  \<open>DecimalPrecisionViolation\<close> and \<open>DecimalPrecisionError\<close> of
  \<open>domain/financial/precision.py\<close> (field name, violation, policy name). \<open>DecimalSignal\<close> is a
  trapped signal of Python's \<open>decimal\<close> module (\<open>DivisionByZero\<close>, \<open>InvalidOperation\<close>).
\<close>

datatype precision_violation = NON_FINITE | EXCESS_SCALE | MAGNITUDE_OVERFLOW

datatype py_error =
    DecimalPrecisionError string precision_violation string
  | ZeroDivisionError string
  | DecimalSignal
  | ValueError string
  | LotRestatementError string
  | UnsupportedDayCountError string
  | CorruptLotDisposalReceiptError string
  | CashPositionEconomicsError string string rat
  | PositionHandlerMissingError string string string string
  | PositionHistoryInvariantError string
  | TypeError string
  | IndexError
  | KeyError string

text \<open>The position errors carry the facts of their messages: type, field and amount; portfolio,
  transaction, type and declared effect. \<open>DecimalPrecisionError\<close>, \<open>LotRestatementError\<close>,
  \<open>UnsupportedDayCountError\<close>, the receipt error and the position errors subclass \<open>ValueError\<close>, so an
  \<open>except ValueError\<close> clause catches exactly these.\<close>

fun is_value_error :: "py_error \<Rightarrow> bool" where
  "is_value_error (DecimalPrecisionError _ _ _) = True"
| "is_value_error (ValueError _) = True"
| "is_value_error (LotRestatementError _) = True"
| "is_value_error (UnsupportedDayCountError _) = True"
| "is_value_error (CorruptLotDisposalReceiptError _) = True"
| "is_value_error (CashPositionEconomicsError _ _ _) = True"
| "is_value_error (PositionHandlerMissingError _ _ _ _) = True"
| "is_value_error (PositionHistoryInvariantError _) = True"
| "is_value_error _ = False"

type_synonym 'a res = "py_error + 'a"

text \<open>A stateful routine returns its outcome and the state it leaves, also when it raises.\<close>

type_synonym ('a, 's) outcome = "'a res \<times> 's"

definition rbind :: "'a res \<Rightarrow> ('a \<Rightarrow> 'b res) \<Rightarrow> 'b res" where
  "rbind m f = (case m of Inl e \<Rightarrow> Inl e | Inr x \<Rightarrow> f x)"

lemma rbind_Inl [simp]: "rbind (Inl e) f = Inl e"
  by (simp add: rbind_def)

lemma rbind_Inr [simp]: "rbind (Inr x) f = f x"
  by (simp add: rbind_def)

lemma rbind_eq_Inr: "rbind m f = Inr y \<longleftrightarrow> (\<exists>x. m = Inr x \<and> f x = Inr y)"
  by (cases m) auto

lemma rbind_InrE:
  assumes "rbind m f = Inr y"
  obtains x where "m = Inr x" and "f x = Inr y"
  using assms by (auto simp: rbind_eq_Inr)

lemma rbind_eq_Inl: "rbind m f = Inl e \<longleftrightarrow> m = Inl e \<or> (\<exists>x. m = Inr x \<and> f x = Inl e)"
  by (cases m) auto

lemma rbind_cong [fundef_cong]:
  assumes "m = m'" and "\<And>x. m' = Inr x \<Longrightarrow> f x = g x"
  shows "rbind m f = rbind m' g"
  using assms by (cases m') auto

text \<open>Sequencing of stateful routines: an exception keeps the state reached so far.\<close>

definition obind ::
  "('a, 's) outcome \<Rightarrow> ('a \<Rightarrow> 's \<Rightarrow> ('b, 's) outcome) \<Rightarrow> ('b, 's) outcome" where
  "obind m f = (case m of (Inl e, s) \<Rightarrow> (Inl e, s) | (Inr x, s) \<Rightarrow> f x s)"

lemma obind_Inl [simp]: "obind (Inl e, s) f = (Inl e, s)"
  by (simp add: obind_def)

lemma obind_Inr [simp]: "obind (Inr x, s) f = f x s"
  by (simp add: obind_def)

lemma obind_eq_Inr: "obind m f = (Inr y, t) \<longleftrightarrow> (\<exists>x s. m = (Inr x, s) \<and> f x s = (Inr y, t))"
  by (cases m; cases "fst m") auto

lemma obind_InrE:
  assumes "obind m f = (Inr y, t)"
  obtains x s where "m = (Inr x, s)" and "f x s = (Inr y, t)"
  using assms by (auto simp: obind_eq_Inr)

lemma obind_cong [fundef_cong]:
  assumes "m = m'" and "\<And>x s. m' = (Inr x, s) \<Longrightarrow> f x s = g x s"
  shows "obind m f = obind m' g"
  using assms by (cases m'; cases "fst m'") auto

text \<open>\<open>require b e\<close> is the source's \<open>if not b: raise e\<close>.\<close>

definition require :: "bool \<Rightarrow> py_error \<Rightarrow> unit res" where
  "require b e = (if b then Inr () else Inl e)"

lemma require_eq_Inr [simp]: "require b e = Inr u \<longleftrightarrow> b"
  by (simp add: require_def)

lemma require_True [simp]: "require True e = Inr ()"
  by (simp add: require_def)

lemma require_False [simp]: "require False e = Inl e"
  by (simp add: require_def)

text \<open>A comprehension whose element expression may raise: evaluated left to right.\<close>

fun rmap :: "('a \<Rightarrow> 'b res) \<Rightarrow> 'a list \<Rightarrow> 'b list res" where
  "rmap f [] = Inr []"
| "rmap f (x # xs) = rbind (f x) (\<lambda>y. rbind (rmap f xs) (\<lambda>ys. Inr (y # ys)))"

lemma rmap_Inr_length: "rmap f xs = Inr ys \<Longrightarrow> length ys = length xs"
  by (induction xs arbitrary: ys) (auto simp: rbind_eq_Inr)

lemma rmap_Inr_list_all2: "rmap f xs = Inr ys \<Longrightarrow> list_all2 (\<lambda>x y. f x = Inr y) xs ys"
  by (induction xs arbitrary: ys) (auto simp: rbind_eq_Inr)

lemma rmap_cong [fundef_cong]:
  assumes "xs = ys" and "\<And>x. x \<in> set ys \<Longrightarrow> f x = g x"
  shows "rmap f xs = rmap g ys"
  using assms(2) unfolding assms(1) by (induction ys) auto

lemma rmap_total:
  assumes "\<And>x. x \<in> set xs \<Longrightarrow> f x = Inr (g x)"
  shows "rmap f xs = Inr (map g xs)"
  using assms by (induction xs) auto

lemma rmap_nthI:
  "length ys = length xs \<Longrightarrow> (\<And>i. i < length xs \<Longrightarrow> f (xs ! i) = Inr (ys ! i)) \<Longrightarrow> rmap f xs = Inr ys"
proof (induction xs arbitrary: ys)
  case (Cons x xs)
  obtain y zs where ys: "ys = y # zs" using Cons.prems(1) by (cases ys) auto
  have "f x = Inr y" using Cons.prems(2) [of 0] ys by simp
  moreover have "f (xs ! i) = Inr (zs ! i)" if "i < length xs" for i
    using Cons.prems(2) [of "Suc i"] ys that by simp
  ultimately show ?case using Cons.IH [of zs] Cons.prems(1) ys by simp
qed simp

section \<open>Dictionaries\<close>

text \<open>A \<open>dict\<close> as an association list in insertion order: assigning to a present key keeps its place.\<close>

fun dict_set :: "'k \<Rightarrow> 'v \<Rightarrow> ('k \<times> 'v) list \<Rightarrow> ('k \<times> 'v) list" where
  "dict_set k v [] = [(k, v)]"
| "dict_set k v ((k', v') # d) = (if k' = k then (k, v) # d else (k', v') # dict_set k v d)"

definition dict_pop :: "'k \<Rightarrow> ('k \<times> 'v) list \<Rightarrow> ('k \<times> 'v) list" where
  "dict_pop k d = filter (\<lambda>p. fst p \<noteq> k) d"

lemma map_of_dict_set [simp]: "map_of (dict_set k v d) = (map_of d)(k \<mapsto> v)"
  by (induction d) auto

lemma map_of_dict_pop [simp]: "map_of (dict_pop k d) = (map_of d)(k := None)"
  by (induction d) (auto simp: dict_pop_def)

lemma keys_dict_set: "set (map fst (dict_set k v d)) = insert k (set (map fst d))"
  by (induction k v d rule: dict_set.induct) (simp_all add: insert_commute)

lemma distinct_dict_set: "distinct (map fst d) \<Longrightarrow> distinct (map fst (dict_set k v d))"
  by (induction k v d rule: dict_set.induct) (auto simp: keys_dict_set simp del: set_map)

lemma set_dict_set_subset: "set (dict_set k v d) \<subseteq> insert (k, v) (set d)"
  by (induction k v d rule: dict_set.induct) auto

lemma distinct_dict_pop: "distinct (map fst d) \<Longrightarrow> distinct (map fst (dict_pop k d))"
  by (induction d) (auto simp: dict_pop_def)

section \<open>Code normalisation\<close>

text \<open>
  \<open>str(value or "").strip().upper()\<close>, which the sources apply to every business code. Codes are
  ASCII, so \<open>strip\<close> removes the ASCII white space and \<open>upper\<close> maps the letters a to z; the
  Unicode cases of the two Python methods are outside the model.
\<close>

definition is_py_space :: "char \<Rightarrow> bool" where
  "is_py_space c \<longleftrightarrow> (let n = of_char c :: nat in n = 32 \<or> (9 \<le> n \<and> n \<le> 13) \<or> (28 \<le> n \<and> n \<le> 31))"

definition py_lstrip :: "string \<Rightarrow> string" where
  "py_lstrip s = dropWhile is_py_space s"

definition py_strip :: "string \<Rightarrow> string" where
  "py_strip s = rev (py_lstrip (rev (py_lstrip s)))"

definition py_upper_char :: "char \<Rightarrow> char" where
  "py_upper_char c = (let n = of_char c :: nat in if 97 \<le> n \<and> n \<le> 122 then char_of (n - 32) else c)"

definition py_upper :: "string \<Rightarrow> string" where
  "py_upper s = map py_upper_char s"

definition normalize_code :: "string option \<Rightarrow> string" where
  "normalize_code v = py_upper (py_strip (case v of None \<Rightarrow> [] | Some s \<Rightarrow> s))"

text \<open>Decimal text of a natural number, as an f-string writes it.\<close>

fun show_nat :: "nat \<Rightarrow> string" where
  "show_nat n = (if n < 10 then [char_of (48 + n)] else show_nat (n div 10) @ [char_of (48 + n mod 10)])"

declare show_nat.simps [simp del]

text \<open>The text of an \<open>int\<close>; \<open>show_digits\<close> computes it on binary numerals.\<close>

definition show_int :: "int \<Rightarrow> string" where
  "show_int i = (if i < 0 then CHR ''-'' # show_nat (nat (- i)) else show_nat (nat i))"

function show_digits :: "int \<Rightarrow> string" where
  "show_digits i = (if i < 10 then [char_of (48 + nat i)] else show_digits (i div 10) @ [char_of (48 + nat (i mod 10))])"
  by pat_completeness auto
termination
  by (relation "measure nat") auto

declare show_digits.simps [simp del]

lemma show_digits_nat: "show_digits (int n) = show_nat n"
proof (induction n rule: show_nat.induct)
  case (1 n)
  have "int n div 10 = int (n div 10)" "int n mod 10 = int (n mod 10)" by (simp_all add: zdiv_int zmod_int)
  then show ?case using 1 by (simp add: show_digits.simps [of "int n"] show_nat.simps [of n])
qed

lemma show_int_code [code]: "show_int i = (if i < 0 then CHR ''-'' # show_digits (- i) else show_digits i)"
  using show_digits_nat [of "nat i"] show_digits_nat [of "nat (- i)"] by (auto simp: show_int_def split: if_splits)

definition hex_digit :: "nat \<Rightarrow> char" where
  "hex_digit n = (if n < 10 then char_of (48 + n) else char_of (87 + n))"

section \<open>Lists\<close>

lemma sum_list_map_update:
  fixes f :: "'a \<Rightarrow> 'b::ab_group_add"
  assumes "i < length xs"
  shows "(\<Sum>x\<leftarrow>xs[i := y]. f x) = (\<Sum>x\<leftarrow>xs. f x) - f (xs ! i) + f y"
  using assms
proof (induction xs arbitrary: i)
  case (Cons a xs)
  then show ?case by (cases i) (simp_all add: algebra_simps)
qed simp

lemma sum_list_nonneg':
  fixes xs :: "'a::ordered_comm_monoid_add list"
  shows "(\<And>x. x \<in> set xs \<Longrightarrow> 0 \<le> x) \<Longrightarrow> 0 \<le> sum_list xs"
  by (induction xs) auto

lemma member_le_sum_list':
  fixes xs :: "'a::linordered_idom list"
  assumes "x \<in> set xs" and "\<And>y. y \<in> set xs \<Longrightarrow> 0 \<le> y"
  shows "x \<le> sum_list xs"
  using assms
proof (induction xs)
  case (Cons a xs)
  have "0 \<le> sum_list xs" using Cons.prems by (intro sum_list_nonneg') auto
  moreover have "0 \<le> a" using Cons.prems by simp
  ultimately show ?case using Cons by (force simp: add_increasing)
qed simp

end
