(* ===== verification/Py_Decimal.thy ===== *)
theory Py_Decimal
  imports Core_Prelude
begin

text \<open>
  Python's \<open>decimal\<close> arithmetic on finite values. A finite \<open>Decimal\<close> is represented by the
  rational number it denotes (Python's comparisons and \<open>is_zero\<close> are by value), and an arithmetic
  operation under a context of precision \<open>p\<close> returns the exact result rounded to \<open>p\<close>
  significant digits. \<open>quantize\<close> rounds to a fixed number of decimal places. The exponent limits
  of the contexts in use (\<open>Emax = 999999\<close>) are not modelled.
\<close>

section \<open>Decimal digits and the adjusted exponent\<close>

fun ndigits :: "nat \<Rightarrow> nat" where
  "ndigits n = (if n < 10 then 1 else Suc (ndigits (n div 10)))"

declare ndigits.simps [simp del]

lemma ndigits_pos: "0 < ndigits n"
  by (subst ndigits.simps) simp

lemma less_pow_ndigits: "n < 10 ^ ndigits n"
proof (induction n rule: ndigits.induct)
  case (1 n)
  show ?case
  proof (cases "n < 10")
    case True
    then show ?thesis by (subst ndigits.simps) simp
  next
    case False
    then have "n div 10 < 10 ^ ndigits (n div 10)" using 1 by simp
    then show ?thesis using False by (subst ndigits.simps) simp
  qed
qed

lemma pow_ndigits_le: "0 < n \<Longrightarrow> 10 ^ (ndigits n - 1) \<le> n"
proof (induction n rule: ndigits.induct)
  case (1 n)
  show ?case
  proof (cases "n < 10")
    case True
    then show ?thesis using 1 by (subst ndigits.simps) simp
  next
    case False
    then have "10 ^ (ndigits (n div 10) - 1) \<le> n div 10" using 1 by simp
    then have "10 ^ (ndigits (n div 10) - 1) * 10 \<le> n"
      by (simp add: less_eq_div_iff_mult_less_eq)
    moreover have "ndigits n - 1 = Suc (ndigits (n div 10) - 1)"
      using False ndigits_pos [of "n div 10"] by (subst ndigits.simps) simp
    ultimately show ?thesis by simp
  qed
qed

text \<open>The exponent of the most significant digit: \<open>Decimal.adjusted()\<close>.\<close>

definition adjusted :: "rat \<Rightarrow> int" where
  "adjusted x =
     (let (n, d) = quotient_of \<bar>x\<bar>;
          e = int (ndigits (nat n)) - int (ndigits (nat d))
      in if 10 powi e \<le> \<bar>x\<bar> then e else e - 1)"

lemma powi10_pos [simp]: "(0::rat) < 10 powi k"
  by simp

lemma powi10_less_iff [simp]: "(10::rat) powi a < 10 powi b \<longleftrightarrow> a < b"
proof
  assume "(10::rat) powi a < 10 powi b"
  then show "a < b"
    by (metis linorder_not_less not_less_iff_gr_or_eq one_less_numeral_iff power_int_strict_increasing semiring_norm(76))
qed (simp add: power_int_strict_increasing)

lemma powi10_le_iff [simp]: "(10::rat) powi a \<le> 10 powi b \<longleftrightarrow> a \<le> b"
  by (metis linorder_not_less powi10_less_iff)

lemma powi10_add: "(10::rat) powi (a + b) = 10 powi a * 10 powi b"
  by (simp add: power_int_add)

lemma digits_ratio_bounds:
  assumes "0 < n" and "0 < d"
  defines "e \<equiv> int (ndigits n) - int (ndigits d)"
  shows "10 powi (e - 1) \<le> (of_nat n / of_nat d :: rat)"
    and "(of_nat n / of_nat d :: rat) < 10 powi (e + 1)"
proof -
  let ?a = "ndigits n" and ?b = "ndigits d"
  have pw: "(10::rat) powi int k = 10 ^ k" for k by simp
  have lt: "(of_nat m :: rat) < 10 powi int (ndigits m)" for m
    using less_pow_ndigits [of m] unfolding pw
    by (metis of_nat_less_iff of_nat_numeral of_nat_power)
  have le: "10 powi (int (ndigits m) - 1) \<le> (of_nat m :: rat)" if "0 < m" for m
  proof -
    have "(10::rat) powi int (ndigits m - 1) \<le> of_nat m"
      using pow_ndigits_le [OF that] unfolding pw
      by (metis of_nat_le_iff of_nat_numeral of_nat_power)
    then show ?thesis using ndigits_pos [of m] by (simp add: of_nat_diff)
  qed
  have d0: "(0::rat) < of_nat d" using assms by simp
  have "10 powi (e - 1) * (of_nat d :: rat) \<le> 10 powi (e - 1) * 10 powi int ?b"
    using lt [of d] by (intro mult_left_mono) auto
  also have "\<dots> = 10 powi (int ?a - 1)"
    unfolding powi10_add [symmetric] by (simp add: e_def)
  also have "\<dots> \<le> of_nat n" by (rule le [OF assms(1)])
  finally show "10 powi (e - 1) \<le> (of_nat n / of_nat d :: rat)"
    using d0 by (simp add: pos_le_divide_eq)
  have "of_nat n < (10::rat) powi int ?a" by (rule lt)
  also have "\<dots> = 10 powi (e + 1) * 10 powi (int ?b - 1)"
    unfolding powi10_add [symmetric] by (simp add: e_def)
  also have "\<dots> \<le> 10 powi (e + 1) * of_nat d"
    using le [OF assms(2)] by (intro mult_left_mono) auto
  finally show "(of_nat n / of_nat d :: rat) < 10 powi (e + 1)"
    using d0 by (simp add: pos_divide_less_eq)
qed

lemma adjusted_bounds:
  assumes "x \<noteq> 0"
  shows "10 powi (adjusted x) \<le> \<bar>x\<bar>" and "\<bar>x\<bar> < 10 powi (adjusted x + 1)"
proof -
  obtain n d where nd: "quotient_of \<bar>x\<bar> = (n, d)" by (cases "quotient_of \<bar>x\<bar>")
  then have x: "\<bar>x\<bar> = of_int n / of_int d" and d: "0 < d"
    by (auto intro: quotient_of_div quotient_of_denom_pos)
  have "(0::rat) < of_int n / of_int d" using assms x by simp
  then have n: "0 < n" using d by (simp add: zero_less_divide_iff)
  have x': "\<bar>x\<bar> = of_nat (nat n) / of_nat (nat d)" using x n d by simp
  note b = digits_ratio_bounds [of "nat n" "nat d", folded x']
  have n': "0 < nat n" and d': "0 < nat d" using n d by auto
  show "10 powi (adjusted x) \<le> \<bar>x\<bar>"
    using b(1) [OF n' d'] nd by (simp add: adjusted_def Let_def)
  show "\<bar>x\<bar> < 10 powi (adjusted x + 1)"
    using b(2) [OF n' d'] nd by (auto simp: adjusted_def Let_def not_le)
qed

lemma adjusted_unique:
  assumes "10 powi e \<le> \<bar>x\<bar>" and "\<bar>x\<bar> < 10 powi (e + 1)"
  shows "adjusted x = e"
proof -
  have "(0::rat) < 10 powi e" by simp
  then have "x \<noteq> 0" using assms(1) by (metis abs_zero leD)
  note b = adjusted_bounds [OF this]
  have "(10::rat) powi e < 10 powi (adjusted x + 1)" using assms(1) b(2) by linarith
  moreover have "(10::rat) powi (adjusted x) < 10 powi (e + 1)" using assms(2) b(1) by linarith
  ultimately show ?thesis by simp
qed

section \<open>Rounding\<close>

text \<open>The rounding modes of \<open>decimal\<close>, as roundings to an integer.\<close>

definition round_half_even :: "rat \<Rightarrow> int" where
  "round_half_even x =
     (let f = \<lfloor>x\<rfloor>; r = x - of_int f
      in if r < 1 / 2 then f else if 1 / 2 < r then f + 1 else if even f then f else f + 1)"

definition round_down :: "rat \<Rightarrow> int" where
  "round_down x = (if 0 \<le> x then \<lfloor>x\<rfloor> else \<lceil>x\<rceil>)"

definition round_up :: "rat \<Rightarrow> int" where
  "round_up x = (if 0 \<le> x then \<lceil>x\<rceil> else \<lfloor>x\<rfloor>)"

definition round_half_up :: "rat \<Rightarrow> int" where
  "round_half_up x = (if 0 \<le> x then \<lfloor>x + 1 / 2\<rfloor> else \<lceil>x - 1 / 2\<rceil>)"

definition round_half_down :: "rat \<Rightarrow> int" where
  "round_half_down x = (if 0 \<le> x then \<lceil>x - 1 / 2\<rceil> else \<lfloor>x + 1 / 2\<rfloor>)"

text \<open>\<open>ROUND_05UP\<close> rounds away from zero when the last digit of the truncation is 0 or 5.\<close>

definition round_05up :: "rat \<Rightarrow> int" where
  "round_05up x = (if 5 dvd round_down x then round_up x else round_down x)"

text \<open>A rounding mode is a string; a context and \<open>quantize\<close> refuse every other one.\<close>

definition rounding_function :: "string \<Rightarrow> (rat \<Rightarrow> int) res" where
  "rounding_function mode =
     (if mode = ''ROUND_HALF_EVEN'' then Inr round_half_even
      else if mode = ''ROUND_DOWN'' then Inr round_down
      else if mode = ''ROUND_UP'' then Inr round_up
      else if mode = ''ROUND_HALF_UP'' then Inr round_half_up
      else if mode = ''ROUND_HALF_DOWN'' then Inr round_half_down
      else if mode = ''ROUND_CEILING'' then Inr ceiling
      else if mode = ''ROUND_FLOOR'' then Inr floor
      else if mode = ''ROUND_05UP'' then Inr round_05up
      else Inl (TypeError ''valid values for rounding are the modes of the decimal module''))"

lemma rounding_function_half_even [simp]: "rounding_function ''ROUND_HALF_EVEN'' = Inr round_half_even"
  by (simp add: rounding_function_def)
lemma round_half_even_bounds:
  "of_int (round_half_even x) - x \<le> 1 / 2" "x - of_int (round_half_even x) \<le> 1 / 2"
proof -
  define f where "f = \<lfloor>x\<rfloor>"
  have "of_int f \<le> x" "x < of_int f + 1" unfolding f_def by linarith+
  then show "of_int (round_half_even x) - x \<le> 1 / 2" "x - of_int (round_half_even x) \<le> 1 / 2"
    unfolding round_half_even_def Let_def f_def [symmetric] by auto
qed

lemma round_half_even_of_int [simp]: "round_half_even (of_int n) = n"
  by (simp add: round_half_even_def)

lemma round_half_even_0 [simp]: "round_half_even 0 = 0"
  using round_half_even_of_int [of 0] by simp

lemma round_half_even_unique:
  assumes "\<bar>of_int n - x\<bar> < 1 / 2"
  shows "round_half_even x = n"
proof -
  have "\<bar>of_int (round_half_even x) - of_int n :: rat\<bar> < 1"
    using assms round_half_even_bounds [of x] by linarith
  then show ?thesis by linarith
qed

lemma round_half_even_mono:
  assumes "x \<le> y"
  shows "round_half_even x \<le> round_half_even y"
proof -
  have f: "\<lfloor>x\<rfloor> \<le> \<lfloor>y\<rfloor>" using assms by (rule floor_mono)
  show ?thesis
  proof (cases "\<lfloor>x\<rfloor> = \<lfloor>y\<rfloor>")
    case True
    then show ?thesis using assms by (auto simp: round_half_even_def Let_def)
  next
    case False
    then have "round_half_even x \<le> \<lfloor>y\<rfloor>" using f by (auto simp: round_half_even_def Let_def)
    also have "\<dots> \<le> round_half_even y" by (auto simp: round_half_even_def Let_def)
    finally show ?thesis .
  qed
qed

lemma round_half_even_minus: "round_half_even (- x) = - round_half_even x"
proof (cases "x \<in> \<int>")
  case True
  then obtain n where "x = of_int n" by (auto elim: Ints_cases)
  then show ?thesis
    using round_half_even_of_int [of "- n"] by simp
next
  case False
  have "\<lfloor>- x\<rfloor> = - \<lfloor>x\<rfloor> - 1"
  proof (rule floor_unique)
    have "x \<noteq> of_int \<lfloor>x\<rfloor>" using False by (metis Ints_of_int)
    then show "of_int (- \<lfloor>x\<rfloor> - 1) \<le> - x" "- x < of_int (- \<lfloor>x\<rfloor> - 1) + 1"
      using floor_correct [of x] by (auto simp: less_le)
  qed
  then show ?thesis by (auto simp: round_half_even_def Let_def)
qed

lemma round_half_even_nonneg: "0 \<le> x \<Longrightarrow> 0 \<le> round_half_even x"
  using round_half_even_mono [of 0 x] by simp

lemma round_down_bounds: "0 \<le> x \<Longrightarrow> 0 \<le> round_down x \<and> of_int (round_down x) \<le> x"
  by (simp add: round_down_def)

text \<open>Every mode keeps an integer, and moves any other value by less than one.\<close>

lemma rounding_function_error:
  assumes "rounding_function mode = Inr rnd"
  shows "\<bar>of_int (rnd x) - x\<bar> < 1"
proof -
  have "\<bar>of_int (round_half_even x) - x\<bar> < 1"
    using round_half_even_bounds [of x] by linarith
  moreover have "\<bar>of_int \<lceil>x\<rceil> - x\<bar> < 1" "\<bar>of_int \<lfloor>x\<rfloor> - x\<bar> < 1" by linarith+
  moreover have "\<bar>of_int \<lfloor>x + 1 / 2\<rfloor> - x\<bar> < 1" "\<bar>of_int \<lceil>x - 1 / 2\<rceil> - x\<bar> < 1"
    using floor_correct [of "x + 1 / 2"] ceiling_correct [of "x - 1 / 2"] by linarith+
  ultimately show ?thesis
    using assms
    by (auto simp: rounding_function_def round_down_def round_up_def round_half_up_def
        round_half_down_def round_05up_def split: if_splits)
qed

lemma rounding_function_of_int:
  assumes "rounding_function mode = Inr rnd"
  shows "rnd (of_int m) = m"
proof -
  have "\<bar>of_int (rnd (of_int m)) - (of_int m :: rat)\<bar> < 1" by (rule rounding_function_error [OF assms])
  then show ?thesis by linarith
qed

section \<open>Arithmetic under a context\<close>

text \<open>The result of an arithmetic operation under a context of precision \<open>p\<close> and rounding
  \<open>rnd\<close>; \<open>sig_round\<close> is the default rounding, \<open>ROUND_HALF_EVEN\<close>.\<close>

definition context_round :: "(rat \<Rightarrow> int) \<Rightarrow> nat \<Rightarrow> rat \<Rightarrow> rat" where
  "context_round rnd p x =
     (if x = 0 then 0
      else let q = adjusted x - int p + 1
           in of_int (rnd (x / 10 powi q)) * 10 powi q)"

definition sig_round :: "nat \<Rightarrow> rat \<Rightarrow> rat" where
  "sig_round p x =
     (if x = 0 then 0
      else let q = adjusted x - int p + 1
           in of_int (round_half_even (x / 10 powi q)) * 10 powi q)"

lemma context_round_half_even [simp]: "context_round round_half_even = sig_round"
  by (intro ext) (simp add: context_round_def sig_round_def)

definition dec_add :: "nat \<Rightarrow> rat \<Rightarrow> rat \<Rightarrow> rat" where
  "dec_add p a b = sig_round p (a + b)"

definition dec_sub :: "nat \<Rightarrow> rat \<Rightarrow> rat \<Rightarrow> rat" where
  "dec_sub p a b = sig_round p (a - b)"

definition dec_mul :: "nat \<Rightarrow> rat \<Rightarrow> rat \<Rightarrow> rat" where
  "dec_mul p a b = sig_round p (a * b)"

definition dec_div :: "nat \<Rightarrow> rat \<Rightarrow> rat \<Rightarrow> rat res" where
  "dec_div p a b = (if b = 0 then Inl DecimalSignal else Inr (sig_round p (a / b)))"

text \<open>\<open>x.quantize(Decimal(1).scaleb(-s), rounding)\<close>: an \<open>InvalidOperation\<close> when the rounded
  coefficient needs more than the context precision.\<close>

definition dec_quantize :: "(rat \<Rightarrow> int) \<Rightarrow> nat \<Rightarrow> nat \<Rightarrow> rat \<Rightarrow> rat res" where
  "dec_quantize rnd p s x =
     (let m = rnd (x * 10 ^ s)
      in if \<bar>m\<bar> < 10 ^ p then Inr (of_int m / 10 ^ s) else Inl DecimalSignal)"

lemma sig_round_0 [simp]: "sig_round p 0 = 0"
  by (simp add: sig_round_def)

lemma adjusted_minus [simp]: "adjusted (- x) = adjusted x"
  by (simp add: adjusted_def)

lemma sig_round_minus: "sig_round p (- x) = - sig_round p x"
proof -
  have "- x / 10 powi q = - (x / 10 powi q)" for q :: int by simp
  then show ?thesis by (simp add: sig_round_def Let_def round_half_even_minus del: minus_divide_left)
qed

lemma sig_round_nonneg: "0 \<le> x \<Longrightarrow> 0 \<le> sig_round p x"
  by (simp add: sig_round_def Let_def round_half_even_nonneg)

text \<open>A value with at most \<open>p\<close> significant digits is not changed.\<close>

lemma sig_round_exact:
  assumes "x = of_int m * 10 powi k" and "\<bar>m\<bar> < 10 ^ p"
  shows "sig_round p x = x"
proof (cases "x = 0")
  case False
  have "\<bar>x\<bar> = of_int \<bar>m\<bar> * 10 powi k" using assms(1) by (simp add: abs_mult)
  also have "\<dots> < 10 ^ p * 10 powi k"
    using assms(2) by (intro mult_strict_right_mono)
      (simp_all, metis of_int_abs of_int_less_iff of_int_numeral of_int_power)
  also have "\<dots> = 10 powi (int p + k)" by (simp add: powi10_add)
  finally have "(10::rat) powi adjusted x < 10 powi (int p + k)"
    using adjusted_bounds(1) [OF False] by linarith
  then have q: "0 \<le> k - (adjusted x - int p + 1)" by simp
  let ?q = "adjusted x - int p + 1"
  have "x / 10 powi ?q = of_int m * 10 powi (k - ?q)"
    using assms(1) by (simp add: power_int_diff)
  also have "\<dots> = of_int (m * 10 ^ nat (k - ?q))"
    using q by (simp add: power_int_def)
  finally have e: "x / 10 powi ?q = of_int (m * 10 ^ nat (k - ?q))" .
  have "sig_round p x = of_int (m * 10 ^ nat (k - ?q)) * 10 powi ?q"
    using False by (simp only: sig_round_def Let_def e round_half_even_of_int if_False)
  also have "\<dots> = x" using e by (metis nonzero_divide_eq_eq powi10_pos less_irrefl)
  finally show ?thesis .
qed simp

text \<open>The relative error of one operation.\<close>

lemma sig_round_error: "\<bar>sig_round p x - x\<bar> \<le> \<bar>x\<bar> * 10 powi (1 - int p) / 2"
proof (cases "x = 0")
  case False
  let ?q = "adjusted x - int p + 1"
  let ?u = "(10::rat) powi ?q"
  have u: "0 < ?u" by simp
  have "\<bar>of_int (round_half_even (x / ?u)) - x / ?u\<bar> \<le> 1 / 2"
    using round_half_even_bounds [of "x / ?u"] by linarith
  then have "\<bar>of_int (round_half_even (x / ?u)) - x / ?u\<bar> * ?u \<le> 1 / 2 * ?u"
    using u by (intro mult_right_mono) auto
  moreover have "sig_round p x - x = (of_int (round_half_even (x / ?u)) - x / ?u) * ?u"
    using False u by (simp add: sig_round_def Let_def left_diff_distrib)
  ultimately have "\<bar>sig_round p x - x\<bar> \<le> ?u / 2"
    using u by (simp add: abs_mult)
  also have "?u = 10 powi adjusted x * 10 powi (1 - int p)"
    unfolding powi10_add [symmetric] by (simp add: algebra_simps)
  also have "\<dots> / 2 \<le> \<bar>x\<bar> * 10 powi (1 - int p) / 2"
    using adjusted_bounds(1) [OF False] by (intro divide_right_mono mult_right_mono) auto
  finally show ?thesis .
qed simp

text \<open>Rounding preserves order.\<close>

lemma sig_round_pos_upper:
  assumes "0 < x"
  shows "sig_round p x \<le> 10 powi (adjusted x + 1)"
proof -
  let ?q = "adjusted x - int p + 1"
  have "x / 10 powi ?q \<le> 10 powi (adjusted x + 1) / 10 powi ?q"
    using adjusted_bounds(2) [of x] assms by (intro divide_right_mono) auto
  also have "\<dots> = 10 powi (adjusted x + 1 - ?q)" by (rule power_int_diff [symmetric]) simp
  also have "adjusted x + 1 - ?q = int p" by simp
  finally have "x / 10 powi ?q \<le> of_int (10 ^ p)" by simp
  then have "round_half_even (x / 10 powi ?q) \<le> 10 ^ p"
    using round_half_even_mono round_half_even_of_int by metis
  then have "(of_int (round_half_even (x / 10 powi ?q)) :: rat) \<le> of_int (10 ^ p)"
    by (simp only: of_int_le_iff)
  then have "sig_round p x \<le> of_int (10 ^ p) * 10 powi ?q"
    using assms unfolding sig_round_def Let_def by (simp add: mult_right_mono)
  also have "of_int (10 ^ p) * 10 powi ?q = (10::rat) powi (int p + ?q)"
    unfolding powi10_add by simp
  finally show ?thesis by simp
qed

lemma sig_round_pos_lower:
  assumes "0 < x" and "0 < p"
  shows "10 powi adjusted x \<le> sig_round p x"
proof -
  let ?q = "adjusted x - int p + 1"
  have eq: "(10::rat) powi (int p - 1) = of_int (10 ^ (p - 1))"
    using assms(2) by (simp add: power_int_def nat_diff_distrib)
  have "10 powi (int p - 1) = 10 powi adjusted x / (10::rat) powi ?q"
    by (subst power_int_diff [symmetric]) auto
  also have "\<dots> \<le> x / 10 powi ?q"
    using adjusted_bounds(1) [of x] assms by (intro divide_right_mono) auto
  finally have "of_int (10 ^ (p - 1)) \<le> x / 10 powi ?q" unfolding eq .
  then have "10 ^ (p - 1) \<le> round_half_even (x / 10 powi ?q)"
    using round_half_even_mono round_half_even_of_int by metis
  then have "of_int (10 ^ (p - 1)) \<le> (of_int (round_half_even (x / 10 powi ?q)) :: rat)"
    by (simp only: of_int_le_iff)
  then have "of_int (10 ^ (p - 1)) * 10 powi ?q \<le> sig_round p x"
    using assms unfolding sig_round_def Let_def by (simp add: mult_right_mono)
  moreover have "of_int (10 ^ (p - 1)) * 10 powi ?q = (10::rat) powi (int p - 1 + ?q)"
    unfolding powi10_add eq ..
  ultimately show ?thesis by simp
qed

lemma adjusted_mono: "0 < x \<Longrightarrow> x \<le> y \<Longrightarrow> adjusted x \<le> adjusted y"
proof -
  assume "0 < x" "x \<le> y"
  then have "10 powi adjusted x \<le> x" "y < 10 powi (adjusted y + 1)"
    using adjusted_bounds [of x] adjusted_bounds [of y] by auto
  then have "(10::rat) powi adjusted x < 10 powi (adjusted y + 1)" using \<open>x \<le> y\<close> by linarith
  then show ?thesis by simp
qed

lemma sig_round_mono_pos:
  assumes "0 < x" and "x \<le> y" and "0 < p"
  shows "sig_round p x \<le> sig_round p y"
proof (cases "adjusted x = adjusted y")
  case True
  let ?q = "adjusted y - int p + 1"
  have "round_half_even (x / 10 powi ?q) \<le> round_half_even (y / 10 powi ?q)"
    using assms by (intro round_half_even_mono divide_right_mono) auto
  then have "(of_int (round_half_even (x / 10 powi ?q)) :: rat) \<le> of_int (round_half_even (y / 10 powi ?q))"
    by (simp only: of_int_le_iff)
  then show ?thesis
    using assms True unfolding sig_round_def Let_def by (simp add: mult_right_mono)
next
  case False
  with assms have "adjusted x + 1 \<le> adjusted y" using adjusted_mono [of x y] by linarith
  then have "(10::rat) powi (adjusted x + 1) \<le> 10 powi adjusted y" by simp
  then show ?thesis
    using sig_round_pos_upper [of x p] sig_round_pos_lower [of y p] assms by linarith
qed

lemma sig_round_mono:
  assumes "x \<le> y" and "0 < p"
  shows "sig_round p x \<le> sig_round p y"
proof -
  consider "0 < x" | "x \<le> 0" "0 \<le> y" | "y < 0" using assms by linarith
  then show ?thesis
  proof cases
    case 1
    then show ?thesis using assms by (intro sig_round_mono_pos)
  next
    case 2
    have "0 \<le> sig_round p (- x)" using 2 by (intro sig_round_nonneg) simp
    then show ?thesis using 2 sig_round_nonneg [of y p] by (simp add: sig_round_minus)
  next
    case 3
    then have "sig_round p (- y) \<le> sig_round p (- x)"
      using assms by (intro sig_round_mono_pos) auto
    then show ?thesis by (simp add: sig_round_minus)
  qed
qed

lemma sig_round_pos:
  assumes "0 < x" and "0 < p"
  shows "0 < sig_round p x"
proof -
  have "\<bar>sig_round p x - x\<bar> \<le> x * 10 powi (1 - int p) / 2" using sig_round_error [of p x] assms by simp
  moreover have "(10::rat) powi (1 - int p) \<le> 10 powi 0" unfolding powi10_le_iff using assms by simp
  then have "x * 10 powi (1 - int p) / 2 \<le> x * 1 / 2" using assms by (intro divide_right_mono mult_left_mono) auto
  ultimately show ?thesis using assms by linarith
qed

lemma sig_round_le_one: "x \<le> 1 \<Longrightarrow> 0 < p \<Longrightarrow> sig_round p x \<le> 1"
proof -
  assume "x \<le> 1" "0 < p"
  moreover have "sig_round p 1 = 1"
  proof (rule sig_round_exact)
    show "(1::rat) = of_int 1 * 10 powi 0" by simp
    have "(1::int) < 10 ^ 1" by simp
    also have "\<dots> \<le> 10 ^ p" using \<open>0 < p\<close> by (intro power_increasing) auto
    finally show "\<bar>1::int\<bar> < 10 ^ p" by simp
  qed
  ultimately show ?thesis using sig_round_mono [of x 1 p] by simp
qed

end
