(* ===== verification/Numeric_Policy.thy ===== *)
theory Numeric_Policy
  imports Py_Decimal
begin

text \<open>
  The persistence and calculation precision policies: \<open>domain/financial/precision.py\<close>,
  \<open>domain/financial/calculation_precision.py\<close> and the policy instances of
  \<open>domain/transaction/numeric_policy.py\<close>, \<open>domain/valuation/numeric_policy.py\<close> and
  \<open>domain/position/numeric_policy.py\<close> (all under \<open>portfolio_common\<close> or the transaction service).
  A policy may carry any rounding mode; every instance keeps the default \<open>ROUND_HALF_EVEN\<close>, and the
  locales below are about such policies.
\<close>

section \<open>Exact persistence policies\<close>

record precision_policy =
  pp_name :: string
  pp_bounds :: "(int \<times> int) option"  \<comment> \<open>precision and scale; \<open>None\<close> is the unbounded policy\<close>

definition DecimalPrecisionPolicy :: "string \<Rightarrow> int option \<Rightarrow> int option \<Rightarrow> precision_policy res" where
  "DecimalPrecisionPolicy name precision scale =
     rbind (require (name \<noteq> []) (ValueError ''Decimal precision policy name is required'')) (\<lambda>_.
     case (precision, scale) of
       (None, None) \<Rightarrow> Inr \<lparr>pp_name = name, pp_bounds = None\<rparr>
     | (Some p, Some s) \<Rightarrow>
         rbind (require (0 < p) (ValueError ''Decimal precision must be greater than zero'')) (\<lambda>_.
         rbind (require (0 \<le> s \<and> s \<le> p)
                  (ValueError ''Decimal scale must satisfy 0 <= scale <= precision'')) (\<lambda>_.
         Inr \<lparr>pp_name = name, pp_bounds = Some (p, s)\<rparr>))
     | _ \<Rightarrow> Inl (ValueError ''unbounded Decimal policy requires null precision and scale''))"

text \<open>
  A \<open>Decimal\<close> as \<open>as_tuple()\<close> shows it: sign, coefficient digits (most significant first) and
  exponent. \<open>PyNonFinite\<close> stands for the infinities and NaNs.
\<close>

datatype py_decimal = PyFinite bool "nat list" int | PyNonFinite

definition digits_value :: "nat list \<Rightarrow> nat" where
  "digits_value ds = foldl (\<lambda>acc d. 10 * acc + d) 0 ds"

fun dec_value :: "py_decimal \<Rightarrow> rat" where
  "dec_value (PyFinite neg ds e) = (if neg then -1 else 1) * of_nat (digits_value ds) * 10 powi e"
| "dec_value PyNonFinite = 0"

text \<open>\<open>as_tuple()\<close> has decimal digits and no leading zero, except for the value zero.\<close>

fun wf_py_decimal :: "py_decimal \<Rightarrow> bool" where
  "wf_py_decimal (PyFinite neg ds e) \<longleftrightarrow>
     (\<forall>d \<in> set ds. d < 10) \<and> (ds = [0] \<or> (ds \<noteq> [] \<and> hd ds \<noteq> 0))"
| "wf_py_decimal PyNonFinite \<longleftrightarrow> True"

text \<open>The \<open>while\<close> loop that drops trailing fractional zeros. The digits are kept in reverse, so
  that \<open>digits.pop()\<close> is the tail.\<close>

fun strip_fraction_zeros :: "nat list \<Rightarrow> int \<Rightarrow> nat list \<times> int" where
  "strip_fraction_zeros [] e = ([], e)"
| "strip_fraction_zeros (d # rds) e =
     (if d = 0 \<and> e < 0 then strip_fraction_zeros rds (e + 1) else (d # rds, e))"

definition require_exact_tuple :: "precision_policy \<Rightarrow> string \<Rightarrow> py_decimal \<Rightarrow> py_decimal res" where
  "require_exact_tuple pol field_name value =
     (case value of
        PyNonFinite \<Rightarrow> Inl (DecimalPrecisionError field_name NON_FINITE (pp_name pol))
      | PyFinite neg digits exponent \<Rightarrow>
          (case pp_bounds pol of
             None \<Rightarrow> Inr value
           | Some (precision, scale) \<Rightarrow>
               if dec_value value = 0 then Inr value
               else let (rds, e) = strip_fraction_zeros (rev digits) exponent;
                        significant_digit_count = int (length rds);
                        fractional_digit_count = max (- e) 0;
                        integer_digit_count = max (significant_digit_count + e) 0
                    in if scale < fractional_digit_count
                       then Inl (DecimalPrecisionError field_name EXCESS_SCALE (pp_name pol))
                       else if precision - scale < integer_digit_count
                       then Inl (DecimalPrecisionError field_name MAGNITUDE_OVERFLOW (pp_name pol))
                       else Inr value))"

text \<open>The same check on the value. \<open>on_scale s x\<close>: \<open>x\<close> has at most \<open>s\<close> decimal places.\<close>

definition on_scale :: "int \<Rightarrow> rat \<Rightarrow> bool" where
  "on_scale s x \<longleftrightarrow> of_int \<lfloor>x * 10 ^ nat s\<rfloor> = x * 10 ^ nat s"

definition require_exact :: "precision_policy \<Rightarrow> string \<Rightarrow> rat \<Rightarrow> rat res" where
  "require_exact pol field_name value =
     (case pp_bounds pol of
        None \<Rightarrow> Inr value
      | Some (precision, scale) \<Rightarrow>
          if value = 0 then Inr value
          else if \<not> on_scale scale value
          then Inl (DecimalPrecisionError field_name EXCESS_SCALE (pp_name pol))
          else if 10 ^ nat (precision - scale) \<le> \<bar>value\<bar>
          then Inl (DecimalPrecisionError field_name MAGNITUDE_OVERFLOW (pp_name pol))
          else Inr value)"

section \<open>Calculated-output policies\<close>

record calc_policy =
  cp_name :: string
  cp_version :: string
  cp_precision :: int
  cp_scale :: int
  cp_working_precision :: int
  cp_rounding :: string

definition policy_id :: "calc_policy \<Rightarrow> string" where
  "policy_id cp = cp_name cp @ ''@'' @ cp_version cp"

definition persistence_policy :: "calc_policy \<Rightarrow> precision_policy" where
  "persistence_policy cp =
     \<lparr>pp_name = policy_id cp, pp_bounds = Some (cp_precision cp, cp_scale cp)\<rparr>"

definition CalculatedDecimalPolicy ::
  "string \<Rightarrow> string \<Rightarrow> int \<Rightarrow> int \<Rightarrow> int \<Rightarrow> string \<Rightarrow> calc_policy res" where
  "CalculatedDecimalPolicy name version precision scale working_precision rounding =
     rbind (DecimalPrecisionPolicy (name @ ''@'' @ version) (Some precision) (Some scale)) (\<lambda>_.
     rbind (require (precision * 2 \<le> working_precision)
              (ValueError ''calculation working precision must be at least twice storage precision'')) (\<lambda>_.
     Inr \<lparr>cp_name = name, cp_version = version, cp_precision = precision, cp_scale = scale,
          cp_working_precision = working_precision, cp_rounding = rounding\<rparr>))"

text \<open>The context of \<open>arithmetic_context()\<close>: its precision and its rounding. Constructing it refuses
  an unknown rounding mode.\<close>

definition context_precision :: "calc_policy \<Rightarrow> nat" where
  "context_precision cp = nat (cp_working_precision cp)"

definition arithmetic_context :: "calc_policy \<Rightarrow> (nat \<times> (rat \<Rightarrow> int)) res" where
  "arithmetic_context cp = rbind (rounding_function (cp_rounding cp)) (\<lambda>rnd. Inr (context_precision cp, rnd))"

text \<open>\<open>normalize\<close> on a finite value, and with the guard against the non-finite ones.\<close>

definition normalize :: "calc_policy \<Rightarrow> string \<Rightarrow> rat \<Rightarrow> rat res" where
  "normalize cp field_name value =
     (case require_exact (persistence_policy cp) field_name value of
        Inr v \<Rightarrow> Inr v
      | Inl (DecimalPrecisionError f EXCESS_SCALE n) \<Rightarrow>
          rbind (rounding_function (cp_rounding cp)) (\<lambda>rnd.
          case dec_quantize rnd (nat (cp_working_precision cp)) (nat (cp_scale cp)) value of
             Inl _ \<Rightarrow> Inl (DecimalPrecisionError field_name MAGNITUDE_OVERFLOW (policy_id cp))
           | Inr normalized \<Rightarrow> require_exact (persistence_policy cp) field_name normalized)
      | Inl e \<Rightarrow> Inl e)"

definition normalize_decimal :: "calc_policy \<Rightarrow> string \<Rightarrow> py_decimal \<Rightarrow> rat res" where
  "normalize_decimal cp field_name value =
     (case value of
        PyNonFinite \<Rightarrow> Inl (DecimalPrecisionError field_name NON_FINITE (policy_id cp))
      | PyFinite _ _ _ \<Rightarrow> normalize cp field_name (dec_value value))"

text \<open>\<open>_calculate\<close> on finite operands, and with its guard; \<open>operation\<close> is the exact one, which the
  context rounds.\<close>

definition calculate :: "calc_policy \<Rightarrow> string \<Rightarrow> (rat \<Rightarrow> rat \<Rightarrow> rat) \<Rightarrow> rat \<Rightarrow> rat \<Rightarrow> rat res" where
  "calculate cp field_name operation left right =
     rbind (arithmetic_context cp) (\<lambda>(prec, rnd).
     normalize cp field_name (context_round rnd prec (operation left right)))"

definition calculate_decimal ::
  "calc_policy \<Rightarrow> string \<Rightarrow> (rat \<Rightarrow> rat \<Rightarrow> rat) \<Rightarrow> py_decimal \<Rightarrow> py_decimal \<Rightarrow> rat res" where
  "calculate_decimal cp field_name operation left right =
     (if left = PyNonFinite \<or> right = PyNonFinite
      then Inl (DecimalPrecisionError field_name NON_FINITE (policy_id cp))
      else calculate cp field_name operation (dec_value left) (dec_value right))"

definition policy_add :: "calc_policy \<Rightarrow> string \<Rightarrow> rat \<Rightarrow> rat \<Rightarrow> rat res" where
  "policy_add cp field_name left right = calculate cp field_name (\<lambda>a b. a + b) left right"

definition policy_subtract :: "calc_policy \<Rightarrow> string \<Rightarrow> rat \<Rightarrow> rat \<Rightarrow> rat res" where
  "policy_subtract cp field_name left right = calculate cp field_name (\<lambda>a b. a - b) left right"

definition policy_multiply :: "calc_policy \<Rightarrow> string \<Rightarrow> rat \<Rightarrow> rat \<Rightarrow> rat res" where
  "policy_multiply cp field_name left right = calculate cp field_name (\<lambda>a b. a * b) left right"

definition policy_divide :: "calc_policy \<Rightarrow> string \<Rightarrow> rat \<Rightarrow> rat \<Rightarrow> rat res" where
  "policy_divide cp field_name dividend divisor =
     (if divisor = 0 then Inl (ZeroDivisionError (field_name @ '' divisor must not be zero''))
      else calculate cp field_name (\<lambda>a b. a / b) dividend divisor)"

section \<open>The policy instances\<close>

definition TRANSACTION_PERSISTENCE_PRECISION_V1 :: precision_policy where
  "TRANSACTION_PERSISTENCE_PRECISION_V1 =
     \<lparr>pp_name = ''transaction-persistence-v1'', pp_bounds = Some (18, 10)\<rparr>"

definition ledger_output_policy :: "string \<Rightarrow> calc_policy" where
  "ledger_output_policy name =
     \<lparr>cp_name = name, cp_version = ''1.0.0'', cp_precision = 18, cp_scale = 10,
      cp_working_precision = 64, cp_rounding = ''ROUND_HALF_EVEN''\<rparr>"

definition TRANSACTION_COST_LEDGER_OUTPUT_V1 :: calc_policy where
  "TRANSACTION_COST_LEDGER_OUTPUT_V1 = ledger_output_policy ''transaction-cost-ledger-output''"

definition COST_BASIS_STATE_LEDGER_OUTPUT_V1 :: calc_policy where
  "COST_BASIS_STATE_LEDGER_OUTPUT_V1 = ledger_output_policy ''cost-basis-state-ledger-output''"

definition ACCRUED_INCOME_LEDGER_OUTPUT_V1 :: calc_policy where
  "ACCRUED_INCOME_LEDGER_OUTPUT_V1 = ledger_output_policy ''accrued-income-ledger-output''"

definition POSITION_HISTORY_LEDGER_OUTPUT_V1 :: calc_policy where
  "POSITION_HISTORY_LEDGER_OUTPUT_V1 = ledger_output_policy ''position-history-ledger-output''"

section \<open>Storable amounts\<close>

definition storable :: "calc_policy \<Rightarrow> rat \<Rightarrow> bool" where
  "storable cp x \<longleftrightarrow> on_scale (cp_scale cp) x \<and> \<bar>x\<bar> < 10 ^ nat (cp_precision cp - cp_scale cp)"

lemma on_scaleI: "x * 10 ^ nat s = of_int m \<Longrightarrow> on_scale s x"
  by (simp add: on_scale_def)

lemma on_scaleE:
  assumes "on_scale s x"
  obtains m where "x * 10 ^ nat s = of_int m"
  using assms by (metis on_scale_def)

lemma on_scale_zero [simp]: "on_scale s 0"
  by (simp add: on_scale_def)

lemma on_scale_of_int [simp]: "on_scale s (of_int i)"
  by (rule on_scaleI [of _ _ "i * 10 ^ nat s"]) simp

lemma on_scale_numeral [simp]: "on_scale s 1" "on_scale s (numeral n)"
  using on_scale_of_int [of s 1] on_scale_of_int [of s "numeral n"] by simp_all

lemma on_scale_minus [simp]: "on_scale s (- x) \<longleftrightarrow> on_scale s x"
proof -
  have "on_scale s (- y)" if "on_scale s y" for y
    using that by (elim on_scaleE) (auto intro!: on_scaleI [of _ _ "- m" for m])
  from this [of x] this [of "- x"] show ?thesis by auto
qed

lemma on_scale_add [simp, intro]: "on_scale s x \<Longrightarrow> on_scale s y \<Longrightarrow> on_scale s (x + y)"
  by (elim on_scaleE) (auto intro!: on_scaleI [of _ _ "m + n" for m n] simp: distrib_right)

lemma on_scale_diff [simp, intro]: "on_scale s x \<Longrightarrow> on_scale s y \<Longrightarrow> on_scale s (x - y)"
  using on_scale_add [of s x "- y"] by simp

lemma on_scale_min [simp, intro]: "on_scale s x \<Longrightarrow> on_scale s y \<Longrightarrow> on_scale s (min x y)"
  by (simp add: min_def)

lemma on_scale_max [simp, intro]: "on_scale s x \<Longrightarrow> on_scale s y \<Longrightarrow> on_scale s (max x y)"
  by (simp add: max_def)

lemma on_scale_of_int_div: "on_scale s (of_int m / 10 ^ nat s)"
  by (rule on_scaleI [of _ _ m]) simp

lemma on_scale_sum_list: "(\<And>x. x \<in> set xs \<Longrightarrow> on_scale s x) \<Longrightarrow> on_scale s (sum_list xs)"
  by (induction xs) auto

text \<open>Two storable amounts closer than one unit of the last place are equal.\<close>

lemma on_scale_eqI:
  assumes "on_scale s x" and "on_scale s y" and "\<bar>x - y\<bar> < 1 / 10 ^ nat s"
  shows "x = y"
proof -
  obtain m n where mn: "x * 10 ^ nat s = of_int m" "y * 10 ^ nat s = of_int n"
    using assms by (elim on_scaleE)
  have "\<bar>x - y\<bar> * 10 ^ nat s < 1" using assms(3) by (simp add: pos_less_divide_eq)
  then have "\<bar>x * 10 ^ nat s - y * 10 ^ nat s\<bar> < 1"
    by (simp add: abs_mult flip: left_diff_distrib)
  then have "m = n" unfolding mn by linarith
  then have "x * 10 ^ nat s = y * 10 ^ nat s" using mn by simp
  then show ?thesis by simp
qed

lemma storable_minus [simp]: "storable cp (- x) \<longleftrightarrow> storable cp x"
  by (simp add: storable_def)

lemma storable_on_scale [simp]: "storable cp x \<Longrightarrow> on_scale (cp_scale cp) x"
  by (simp add: storable_def)

lemma storable_mono:
  "storable cp x \<Longrightarrow> on_scale (cp_scale cp) y \<Longrightarrow> \<bar>y\<bar> \<le> \<bar>x\<bar> \<Longrightarrow> storable cp y"
  by (auto simp: storable_def)

lemma storable_min: "storable cp x \<Longrightarrow> storable cp y \<Longrightarrow> storable cp (min x y)"
  by (simp add: min_def)

definition round_to_scale_by :: "(rat \<Rightarrow> int) \<Rightarrow> int \<Rightarrow> rat \<Rightarrow> rat" where
  "round_to_scale_by rnd s x = of_int (rnd (x * 10 ^ nat s)) / 10 ^ nat s"

definition round_to_scale :: "int \<Rightarrow> rat \<Rightarrow> rat" where
  "round_to_scale s x = of_int (round_half_even (x * 10 ^ nat s)) / 10 ^ nat s"

lemma round_to_scale_by_half_even [simp]: "round_to_scale_by round_half_even = round_to_scale"
  by (intro ext) (simp add: round_to_scale_by_def round_to_scale_def)

lemma on_scale_round_to_scale_by [simp]: "on_scale s (round_to_scale_by rnd s x)"
  by (simp add: round_to_scale_by_def on_scale_of_int_div)

lemma round_to_scale_by_id:
  assumes "rounding_function mode = Inr rnd" and "on_scale s x"
  shows "round_to_scale_by rnd s x = x"
  using assms(2)
  by (elim on_scaleE) (simp add: round_to_scale_by_def rounding_function_of_int [OF assms(1)], simp add: field_simps)

lemma round_to_scale_by_error:
  assumes "rounding_function mode = Inr rnd"
  shows "\<bar>round_to_scale_by rnd s x - x\<bar> < 1 / 10 ^ nat s"
proof -
  have "\<bar>of_int (rnd (x * 10 ^ nat s)) - x * 10 ^ nat s\<bar> / 10 ^ nat s < 1 / 10 ^ nat s"
    by (rule divide_strict_right_mono [OF rounding_function_error [OF assms]]) simp
  moreover have "round_to_scale_by rnd s x - x = (of_int (rnd (x * 10 ^ nat s)) - x * 10 ^ nat s) / 10 ^ nat s"
    by (simp add: round_to_scale_by_def diff_divide_distrib)
  ultimately show ?thesis by simp
qed

lemma on_scale_round_to_scale [simp]: "on_scale s (round_to_scale s x)"
  by (simp add: round_to_scale_def on_scale_of_int_div)

lemma round_to_scale_id: "on_scale s x \<Longrightarrow> round_to_scale s x = x"
  by (elim on_scaleE) (simp add: round_to_scale_def, simp add: field_simps)

lemma round_to_scale_mono: "x \<le> y \<Longrightarrow> round_to_scale s x \<le> round_to_scale s y"
  unfolding round_to_scale_def
  by (intro divide_right_mono) (auto simp: of_int_le_iff intro!: round_half_even_mono mult_right_mono)

lemma round_to_scale_minus: "round_to_scale s (- x) = - round_to_scale s x"
  by (simp add: round_to_scale_def round_half_even_minus)

lemma round_to_scale_nonneg: "0 \<le> x \<Longrightarrow> 0 \<le> round_to_scale s x"
  by (simp add: round_to_scale_def round_half_even_nonneg)

lemma round_to_scale_error: "\<bar>round_to_scale s x - x\<bar> \<le> 1 / (2 * 10 ^ nat s)"
proof -
  have "\<bar>of_int (round_half_even (x * 10 ^ nat s)) - x * 10 ^ nat s\<bar> \<le> 1 / 2"
    using round_half_even_bounds [of "x * 10 ^ nat s"] by linarith
  then have "\<bar>of_int (round_half_even (x * 10 ^ nat s)) - x * 10 ^ nat s\<bar> / 10 ^ nat s \<le> 1 / 2 / 10 ^ nat s"
    by (rule divide_right_mono) simp
  moreover have "round_to_scale s x - x =
      (of_int (round_half_even (x * 10 ^ nat s)) - x * 10 ^ nat s) / 10 ^ nat s"
    by (simp add: round_to_scale_def diff_divide_distrib)
  ultimately show ?thesis by simp
qed

lemma round_to_scale_near:
  assumes "on_scale s c" and "\<bar>x - c\<bar> < 1 / (2 * 10 ^ nat s)"
  shows "round_to_scale s x = c"
proof (rule on_scale_eqI [of s])
  have "1 / (2 * 10 ^ nat s) + 1 / (2 * 10 ^ nat s) = (1 / 10 ^ nat s :: rat)" by (simp add: field_simps)
  then show "\<bar>round_to_scale s x - c\<bar> < 1 / 10 ^ nat s"
    using assms(2) round_to_scale_error [of s x] by linarith
qed (use assms in auto)

text \<open>What storing a value that is on the scale gives: the value, or an overflow.\<close>

definition storage_result :: "string \<Rightarrow> string \<Rightarrow> int \<Rightarrow> int \<Rightarrow> rat \<Rightarrow> rat res" where
  "storage_result field_name policy precision scale y =
     (if \<bar>y\<bar> < 10 ^ nat (precision - scale) then Inr y
      else Inl (DecimalPrecisionError field_name MAGNITUDE_OVERFLOW policy))"

section \<open>Ledger arithmetic\<close>

text \<open>The laws of every policy that can be constructed with a known rounding mode.\<close>

locale calculated_policy =
  fixes cp :: calc_policy and rnd :: "rat \<Rightarrow> int"
  assumes precision_pos: "0 < cp_precision cp"
    and scale_nonneg: "0 \<le> cp_scale cp"
    and scale_le_precision: "cp_scale cp \<le> cp_precision cp"
    and working_precision_guard: "cp_precision cp * 2 \<le> cp_working_precision cp"
    and rounding_known: "rounding_function (cp_rounding cp) = Inr rnd"
begin

abbreviation overflow :: "string \<Rightarrow> rat res" where
  "overflow f \<equiv> Inl (DecimalPrecisionError f MAGNITUDE_OVERFLOW (policy_id cp))"

abbreviation limit :: rat where
  "limit \<equiv> 10 ^ nat (cp_precision cp - cp_scale cp)"

lemma storable_0 [simp]: "storable cp 0"
  by (simp add: storable_def)

lemma require_exact_on_scale:
  assumes "on_scale (cp_scale cp) x"
  shows "require_exact (persistence_policy cp) f x = (if \<bar>x\<bar> < limit then Inr x else overflow f)"
  using assms by (auto simp: require_exact_def persistence_policy_def)

lemma require_exact_off_scale:
  assumes "\<not> on_scale (cp_scale cp) x"
  shows "require_exact (persistence_policy cp) f x =
    Inl (DecimalPrecisionError f EXCESS_SCALE (policy_id cp))"
  using assms by (auto simp: require_exact_def persistence_policy_def)

text \<open>\<open>normalize\<close> rounds once, by the policy's mode, at the storage scale, and rejects exactly the
  values whose rounding exceeds the storage magnitude.\<close>

lemma normalize_by_eq:
  "normalize cp f x =
     (let y = round_to_scale_by rnd (cp_scale cp) x in if \<bar>y\<bar> < limit then Inr y else overflow f)"
proof (cases "on_scale (cp_scale cp) x")
  case True
  then show ?thesis
    by (simp add: normalize_def require_exact_on_scale round_to_scale_by_id [OF rounding_known])
next
  case False
  let ?m = "rnd (x * 10 ^ nat (cp_scale cp))"
  let ?y = "round_to_scale_by rnd (cp_scale cp) x"
  show ?thesis
  proof (cases "\<bar>?m\<bar> < 10 ^ nat (cp_working_precision cp)")
    case True
    then show ?thesis using False
      by (simp add: normalize_def require_exact_off_scale dec_quantize_def rounding_known
          require_exact_on_scale round_to_scale_by_def [symmetric])
  next
    case big: False
    have "limit * 10 ^ nat (cp_scale cp) = (10::rat) ^ nat (cp_precision cp)"
      using scale_le_precision scale_nonneg
      by (simp add: nat_diff_distrib flip: power_add)
    also have "\<dots> \<le> 10 ^ nat (cp_working_precision cp)"
      using working_precision_guard precision_pos by (intro power_increasing) auto
    also have "\<dots> \<le> of_int \<bar>?m\<bar>"
      using big by (metis linorder_not_less of_int_le_iff of_int_numeral of_int_power)
    finally have "limit \<le> \<bar>?y\<bar>"
      by (simp add: round_to_scale_by_def pos_le_divide_eq)
    then show ?thesis using False big
      by (simp add: normalize_def require_exact_off_scale dec_quantize_def rounding_known)
  qed
qed

lemma calculate_eq: "calculate cp f op a b = normalize cp f (context_round rnd (context_precision cp) (op a b))"
  by (simp add: calculate_def arithmetic_context_def rounding_known)

end

text \<open>A policy that rounds half to even, as every policy instance does.\<close>

locale ledger_policy = calculated_policy cp round_half_even for cp
begin

lemma normalize_eq:
  "normalize cp f x =
     (let y = round_to_scale (cp_scale cp) x in if \<bar>y\<bar> < limit then Inr y else overflow f)"
  by (simp add: normalize_by_eq)

lemma policy_operations:
  "policy_add cp f a b = normalize cp f (dec_add (context_precision cp) a b)"
  "policy_subtract cp f a b = normalize cp f (dec_sub (context_precision cp) a b)"
  "policy_multiply cp f a b = normalize cp f (dec_mul (context_precision cp) a b)"
  "b \<noteq> 0 \<Longrightarrow> policy_divide cp f a b = normalize cp f (sig_round (context_precision cp) (a / b))"
  by (simp_all add: policy_add_def policy_subtract_def policy_multiply_def policy_divide_def
      calculate_eq dec_add_def dec_sub_def dec_mul_def)
lemma normalize_storable [ledger_simps]: "storable cp x \<Longrightarrow> normalize cp f x = Inr x"
  by (simp add: normalize_eq storable_def round_to_scale_id)

lemma normalize_InrD:
  "normalize cp f x = Inr y \<Longrightarrow> y = round_to_scale (cp_scale cp) x \<and> storable cp y"
  by (auto simp: normalize_eq storable_def Let_def split: if_splits)

lemma normalize_Inr_storable: "normalize cp f x = Inr y \<Longrightarrow> storable cp y"
  by (blast dest: normalize_InrD)

lemma normalize_on_scale:
  "on_scale (cp_scale cp) x \<Longrightarrow> normalize cp f x = (if \<bar>x\<bar> < limit then Inr x else overflow f)"
  by (simp add: normalize_eq round_to_scale_id)

lemma normalize_mono:
  "x \<le> y \<Longrightarrow> normalize cp f x = Inr x' \<Longrightarrow> normalize cp g y = Inr y' \<Longrightarrow> x' \<le> y'"
  by (auto dest!: normalize_InrD intro: round_to_scale_mono)

lemma normalize_nonneg: "0 \<le> x \<Longrightarrow> normalize cp f x = Inr y \<Longrightarrow> 0 \<le> y"
  by (auto dest!: normalize_InrD intro: round_to_scale_nonneg)

lemma normalize_between:
  assumes "0 \<le> x" and "x \<le> y" and "normalize cp g y = Inr y'"
  obtains x' where "normalize cp f x = Inr x'" and "0 \<le> x'" and "x' \<le> y'"
proof -
  let ?x = "round_to_scale (cp_scale cp) x" and ?y = "round_to_scale (cp_scale cp) y"
  have "0 \<le> ?x" "?x \<le> ?y" using assms by (auto intro: round_to_scale_nonneg round_to_scale_mono)
  moreover have "y' = ?y" "storable cp ?y" using normalize_InrD [OF assms(3)] by auto
  ultimately show ?thesis
    using that [of ?x] by (auto simp: normalize_eq storable_def)
qed

lemma context_pos: "0 < context_precision cp"
  using precision_pos working_precision_guard by (simp add: context_precision_def)

lemma storable_coefficient:
  assumes "storable cp x"
  obtains m where "x = of_int m * 10 powi (- cp_scale cp)" and "\<bar>m\<bar> < 10 ^ nat (cp_precision cp)"
proof -
  obtain m where m: "x * 10 ^ nat (cp_scale cp) = of_int m"
    using assms by (metis on_scaleE storable_on_scale)
  have "(10::rat) powi cp_scale cp = 10 ^ nat (cp_scale cp)"
    using scale_nonneg by (simp add: power_int_def)
  then have p: "(10::rat) powi (- cp_scale cp) = 1 / 10 ^ nat (cp_scale cp)"
    by (simp add: power_int_minus inverse_eq_divide)
  have "\<bar>of_int m :: rat\<bar> = \<bar>x\<bar> * 10 ^ nat (cp_scale cp)" unfolding m [symmetric] by (simp add: abs_mult)
  also have "\<dots> < limit * 10 ^ nat (cp_scale cp)"
    using assms by (intro mult_strict_right_mono) (auto simp: storable_def)
  also have "\<dots> = of_int (10 ^ nat (cp_precision cp))"
    using scale_le_precision scale_nonneg by (simp add: nat_diff_distrib flip: power_add)
  finally have "\<bar>m\<bar> < 10 ^ nat (cp_precision cp)" by (simp only: of_int_abs [symmetric] of_int_less_iff)
  moreover have "x = of_int m * 10 powi (- cp_scale cp)"
    unfolding p m [symmetric] by simp
  ultimately show ?thesis by (rule that [rotated])
qed

lemma two_limits: "2 * 10 ^ nat (cp_precision cp) \<le> (10::int) ^ context_precision cp"
proof -
  have "2 * (10::int) ^ nat (cp_precision cp) \<le> 10 ^ Suc (nat (cp_precision cp))" by simp
  also have "\<dots> \<le> 10 ^ context_precision cp"
    using precision_pos working_precision_guard
    by (intro power_increasing) (auto simp: context_precision_def)
  finally show ?thesis .
qed

lemma sig_round_storable [ledger_simps]: "storable cp x \<Longrightarrow> sig_round (context_precision cp) x = x"
proof (elim storable_coefficient)
  fix m :: int
  assume x: "x = of_int m * 10 powi - cp_scale cp" and m: "\<bar>m\<bar> < 10 ^ nat (cp_precision cp)"
  have "(10::int) ^ nat (cp_precision cp) \<le> 10 ^ context_precision cp"
    using two_limits zero_le_power [of "10::int" "nat (cp_precision cp)"] by linarith
  with m have "\<bar>m\<bar> < 10 ^ context_precision cp" by linarith
  with x show ?thesis by (rule sig_round_exact)
qed

lemma sig_round_storable_add:
  assumes "storable cp a" and "storable cp b"
  shows "sig_round (context_precision cp) (a + b) = a + b"
proof -
  obtain m n where
    a: "a = of_int m * 10 powi (- cp_scale cp)" and m: "\<bar>m\<bar> < 10 ^ nat (cp_precision cp)" and
    b: "b = of_int n * 10 powi (- cp_scale cp)" and n: "\<bar>n\<bar> < 10 ^ nat (cp_precision cp)"
    using assms by (metis storable_coefficient)
  have "a + b = of_int (m + n) * 10 powi (- cp_scale cp)" by (simp add: a b distrib_right)
  moreover have "\<bar>m + n\<bar> < 10 ^ context_precision cp" using m n two_limits by linarith
  ultimately show ?thesis by (rule sig_round_exact)
qed

lemma policy_add_exact [ledger_simps]:
  assumes "storable cp a" and "storable cp b"
  shows "policy_add cp f a b = (if \<bar>a + b\<bar> < limit then Inr (a + b) else overflow f)"
  using assms by (simp add: policy_operations dec_add_def sig_round_storable_add normalize_on_scale)

lemma policy_subtract_exact [ledger_simps]:
  assumes "storable cp a" and "storable cp b"
  shows "policy_subtract cp f a b = (if \<bar>a - b\<bar> < limit then Inr (a - b) else overflow f)"
  using assms sig_round_storable_add [of a "- b"]
  by (simp add: policy_operations dec_sub_def normalize_on_scale)

lemma policy_subtract_le [ledger_simps]:
  assumes "storable cp a" and "storable cp b" and "0 \<le> b" and "b \<le> a"
  shows "policy_subtract cp f a b = Inr (a - b)" and "storable cp (a - b)"
proof -
  have "\<bar>a - b\<bar> < limit" using assms by (auto simp: storable_def)
  then show "policy_subtract cp f a b = Inr (a - b)" and "storable cp (a - b)"
    using assms by (auto simp: policy_subtract_exact storable_def)
qed

lemma policy_add_InrD:
  assumes "policy_add cp f a b = Inr c" and "storable cp a" and "storable cp b"
  shows "c = a + b" and "storable cp c"
  using assms by (auto simp: policy_add_exact storable_def split: if_splits)

lemma policy_subtract_InrD:
  assumes "policy_subtract cp f a b = Inr c" and "storable cp a" and "storable cp b"
  shows "c = a - b" and "storable cp c"
  using assms by (auto simp: policy_subtract_exact storable_def split: if_splits)

lemma sig_round_storable_mult:
  assumes "storable cp a" and "storable cp b"
  shows "sig_round (context_precision cp) (a * b) = a * b"
proof -
  obtain m n where
    a: "a = of_int m * 10 powi (- cp_scale cp)" and m: "\<bar>m\<bar> < 10 ^ nat (cp_precision cp)" and
    b: "b = of_int n * 10 powi (- cp_scale cp)" and n: "\<bar>n\<bar> < 10 ^ nat (cp_precision cp)"
    using assms by (metis storable_coefficient)
  have "\<bar>m * n\<bar> < 10 ^ nat (cp_precision cp) * 10 ^ nat (cp_precision cp)"
    unfolding abs_mult using m n by (intro mult_strict_mono) auto
  also have "\<dots> \<le> 10 ^ context_precision cp"
    using working_precision_guard precision_pos
    by (simp add: context_precision_def flip: power_add)
  finally have "\<bar>m * n\<bar> < 10 ^ context_precision cp" .
  moreover have "a * b = of_int (m * n) * 10 powi (- 2 * cp_scale cp)"
    by (simp add: a b flip: power_int_add)
  ultimately show ?thesis by (intro sig_round_exact)
qed

lemma policy_multiply_single_rounding:
  assumes "storable cp a" and "storable cp b"
  shows "policy_multiply cp f a b = normalize cp f (a * b)"
  using assms by (simp add: policy_operations dec_mul_def sig_round_storable_mult)

lemma policy_multiply_Inr_storable: "policy_multiply cp f a b = Inr c \<Longrightarrow> storable cp c"
  by (auto simp: policy_operations dest: normalize_Inr_storable)

lemma policy_multiply_between:
  assumes "0 \<le> a'" and "a' \<le> a" and "0 \<le> u" and "policy_multiply cp g a u = Inr c"
  obtains c' where "policy_multiply cp f a' u = Inr c'" and "0 \<le> c'" and "c' \<le> c"
proof (rule normalize_between)
  let ?p = "context_precision cp"
  show "0 \<le> sig_round ?p (a' * u)" using assms by (intro sig_round_nonneg) auto
  show "sig_round ?p (a' * u) \<le> sig_round ?p (a * u)"
    using assms context_pos by (intro sig_round_mono mult_right_mono) auto
  show "normalize cp g (sig_round ?p (a * u)) = Inr c"
    using assms(4) by (simp add: policy_operations dec_mul_def)
qed (auto simp: policy_operations dec_mul_def intro: that)

end

text \<open>A working precision with two guard digits beyond twice the storage precision, as every policy
  instance has, makes division and the cost-per-share round trip exact as well.\<close>

locale guarded_ledger_policy = ledger_policy +
  assumes guard_digits: "cp_precision cp * 2 + 2 \<le> cp_working_precision cp"
begin

lemma guard_scale: "10 ^ nat (cp_precision cp) * 10 powi (1 - int (context_precision cp))
  \<le> (1 / (10 * 10 ^ nat (cp_precision cp)) :: rat)"
proof -
  have "(10::rat) ^ nat (cp_precision cp) * 10 powi (1 - int (context_precision cp)) *
      10 powi (cp_precision cp + 1)
    = 10 powi (cp_precision cp + (1 - int (context_precision cp)) + (cp_precision cp + 1))"
    unfolding powi10_add using precision_pos by (simp add: power_int_def)
  also have "\<dots> \<le> 10 powi 0"
    unfolding powi10_le_iff using guard_digits precision_pos by (simp add: context_precision_def)
  finally have "(10::rat) ^ nat (cp_precision cp) * 10 powi (1 - int (context_precision cp)) *
      10 powi (cp_precision cp + 1) \<le> 1" by simp
  moreover have "(10::rat) powi (cp_precision cp + 1) = 10 * 10 ^ nat (cp_precision cp)"
    unfolding powi10_add using precision_pos by (simp add: power_int_def)
  ultimately show ?thesis by (simp add: pos_le_divide_eq)
qed

text \<open>The error of a working-precision result below the storage limit, in units of the last stored
  place.\<close>

lemma working_error:
  assumes "\<bar>x\<bar> \<le> 2 * limit"
  shows "\<bar>sig_round (context_precision cp) x - x\<bar> * 10 ^ nat (cp_scale cp)
    \<le> 1 / (10 * 10 ^ nat (cp_precision cp))"
proof -
  let ?w = "(10::rat) powi (1 - int (context_precision cp))" and ?s = "(10::rat) ^ nat (cp_scale cp)"
  have "\<bar>sig_round (context_precision cp) x - x\<bar> * ?s \<le> \<bar>x\<bar> * ?w / 2 * ?s"
    by (intro mult_right_mono sig_round_error) simp
  also have "\<dots> \<le> 2 * limit * ?w / 2 * ?s"
    using assms by (intro mult_right_mono divide_right_mono) auto
  also have "\<dots> = limit * ?s * ?w" by simp
  also have "limit * ?s = 10 ^ nat (cp_precision cp)"
    using scale_le_precision scale_nonneg by (simp add: nat_diff_distrib flip: power_add)
  finally show ?thesis using guard_scale by linarith
qed

lemma normalize_near:
  assumes "storable cp c" and "\<bar>x - c\<bar> * 10 ^ nat (cp_scale cp) < 1 / 2"
  shows "normalize cp f x = Inr c"
proof -
  have "\<bar>x - c\<bar> < 1 / (2 * 10 ^ nat (cp_scale cp))"
    using assms(2) by (simp add: field_simps)
  then have "round_to_scale (cp_scale cp) x = c"
    using assms(1) by (intro round_to_scale_near) auto
  then show ?thesis using assms(1) by (simp add: normalize_eq storable_def)
qed

text \<open>A unit cost computed at working precision gives the booked cost back when it is multiplied by
  the quantity it was divided by.\<close>

lemma multiply_cost_per_share:
  assumes q: "storable cp q" "0 < q" and c: "storable cp c" "0 \<le> c"
  shows "policy_multiply cp f q (sig_round (context_precision cp) (c / q)) = Inr c"
proof -
  let ?r = "sig_round (context_precision cp)" and ?s = "(10::rat) ^ nat (cp_scale cp)"
  let ?e = "10 powi (1 - int (context_precision cp)) :: rat" and ?P = "(10::rat) ^ nat (cp_precision cp)"
  define x where "x = q * ?r (c / q)"
  define g where "g = 1 / (10 * ?P)"
  have lim: "c < limit" using c by (simp add: storable_def)
  have P1: "1 \<le> ?P" by simp
  have "x - c = q * (?r (c / q) - c / q)" using q by (simp add: x_def right_diff_distrib)
  then have "\<bar>x - c\<bar> = q * \<bar>?r (c / q) - c / q\<bar>" using q by (simp add: abs_mult)
  also have "\<dots> \<le> q * (\<bar>c / q\<bar> * ?e / 2)"
    using q by (intro mult_left_mono sig_round_error) auto
  also have "\<dots> = c * ?e / 2" using q c by simp
  finally have d: "\<bar>x - c\<bar> \<le> c * ?e / 2" .
  also have "\<dots> \<le> limit * ?e / 2" using lim by (intro divide_right_mono mult_right_mono) auto
  finally have "\<bar>x - c\<bar> * ?s \<le> limit * ?e / 2 * ?s" by (intro mult_right_mono) auto
  also have "\<dots> = limit * ?s * ?e / 2" by simp
  also have "limit * ?s = ?P"
    using scale_le_precision scale_nonneg by (simp add: nat_diff_distrib flip: power_add)
  also have "?P * ?e / 2 \<le> g / 2" using guard_scale unfolding g_def by (rule divide_right_mono) simp
  finally have d1: "\<bar>x - c\<bar> * ?s \<le> g / 2" .
  have b: "g \<le> 1 / 10" using P1 by (simp add: g_def field_simps)
  have "1 \<le> ?s" by simp
  then have "\<bar>x - c\<bar> \<le> \<bar>x - c\<bar> * ?s" by (simp add: mult_le_cancel_left1)
  then have "\<bar>x\<bar> \<le> limit + 1" using d1 b lim c by linarith
  moreover have "1 \<le> limit" by simp
  ultimately have "\<bar>x\<bar> \<le> 2 * limit" by linarith
  then have d2: "\<bar>?r x - x\<bar> * ?s \<le> g" unfolding g_def by (rule working_error)
  have "\<bar>?r x - c\<bar> * ?s \<le> (\<bar>?r x - x\<bar> + \<bar>x - c\<bar>) * ?s" by (intro mult_right_mono) auto
  also have "\<dots> < 1 / 2" using d1 d2 b by (simp add: distrib_right)
  finally have "normalize cp f (?r x) = Inr c" using c by (intro normalize_near)
  then show ?thesis by (simp add: policy_operations dec_mul_def x_def)
qed

lemma sig_round_two_limit: "sig_round (context_precision cp) (2 * limit) = 2 * limit"
proof (rule sig_round_exact)
  show "2 * limit = of_int 2 * 10 powi (cp_precision cp - cp_scale cp)"
    using scale_le_precision by (simp add: power_int_def)
  have "\<bar>2::int\<bar> < 10 ^ 1" by simp
  also have "\<dots> \<le> (10::int) ^ context_precision cp"
    using context_pos by (intro power_increasing) auto
  finally show "\<bar>2::int\<bar> < 10 ^ context_precision cp" .
qed

lemma normalize_overflow:
  assumes "2 * limit \<le> \<bar>x\<bar>"
  shows "normalize cp f x = overflow f"
proof -
  have "on_scale (cp_scale cp) (2 * limit)"
    by (rule on_scaleI [of _ _ "2 * 10 ^ nat (cp_precision cp - cp_scale cp) * 10 ^ nat (cp_scale cp)"]) simp
  then have "2 * limit \<le> round_to_scale (cp_scale cp) y" if "2 * limit \<le> y" for y
    using round_to_scale_mono [OF that, of "cp_scale cp"] by (simp add: round_to_scale_id)
  from this [of x] this [of "- x"] assms have "2 * limit \<le> \<bar>round_to_scale (cp_scale cp) x\<bar>"
    by (auto simp: round_to_scale_minus abs_if split: if_splits)
  moreover have "0 < limit" by simp
  ultimately have "limit \<le> \<bar>round_to_scale (cp_scale cp) x\<bar>" by linarith
  then show ?thesis by (simp add: normalize_eq)
qed

lemma sig_round_large: "2 * limit \<le> \<bar>x\<bar> \<Longrightarrow> 2 * limit \<le> \<bar>sig_round (context_precision cp) x\<bar>"
proof -
  assume x: "2 * limit \<le> \<bar>x\<bar>"
  have "2 * limit \<le> sig_round (context_precision cp) y" if "2 * limit \<le> y" for y
    using sig_round_mono [OF that context_pos] by (simp add: sig_round_two_limit)
  from this [of x] this [of "- x"] x show ?thesis
    by (auto simp: sig_round_minus abs_if split: if_splits)
qed

text \<open>A quotient of ledger amounts is either a tie of the storage rounding, and then short enough to
  be exact at working precision, or further from every tie than the working-precision error.\<close>

lemma quotient_rounding:
  fixes A B :: int
  assumes z: "z = of_int A / of_int B" and B: "B \<noteq> 0" "\<bar>B\<bar> < 10 ^ nat (cp_precision cp)"
    and small: "\<bar>z\<bar> \<le> 2 * limit"
  shows "round_to_scale (cp_scale cp) (sig_round (context_precision cp) z) = round_to_scale (cp_scale cp) z"
proof -
  let ?S = "10 ^ nat (cp_scale cp)" and ?P = "(10::rat) ^ nat (cp_precision cp)"
  let ?r = "sig_round (context_precision cp)"
  define w n where "w = z * ?S" and "n = round_half_even w"
  have dn: "\<bar>w - of_int n\<bar> \<le> 1 / 2" unfolding n_def using round_half_even_bounds [of w] by linarith
  show ?thesis
  proof (cases "\<bar>w - of_int n\<bar> = 1 / 2")
    case True
    then obtain k :: int where k: "2 * w = of_int k"
      by (cases "w - of_int n \<ge> 0")
        (auto simp: abs_if intro: that [of "2 * n + 1"] that [of "2 * n - 1"])
    have "(10::rat) powi (- cp_scale cp - 1) = 1 / (10 * ?S)"
    proof -
      have "- cp_scale cp - 1 = - (cp_scale cp + 1)" by simp
      then have "(10::rat) powi (- cp_scale cp - 1) = inverse (10 powi (cp_scale cp + 1))"
        by (simp only: power_int_minus)
      also have "(10::rat) powi (cp_scale cp + 1) = ?S * 10"
        unfolding powi10_add using scale_nonneg by (simp add: power_int_def)
      finally show ?thesis by (simp add: inverse_eq_divide)
    qed
    moreover have "z = of_int k / (2 * ?S)" using k by (simp add: w_def field_simps)
    ultimately have "z = of_int (5 * k) * 10 powi (- cp_scale cp - 1)" by simp
    moreover have "\<bar>5 * k\<bar> < 10 ^ context_precision cp"
    proof -
      have "(of_int \<bar>5 * k\<bar> :: rat) = 5 * \<bar>of_int k\<bar>" by (simp add: abs_mult)
      also have "\<dots> = 10 * \<bar>z\<bar> * ?S" unfolding k [symmetric] w_def by (simp add: abs_mult)
      also have "\<dots> \<le> 10 * (2 * limit) * ?S" using small by (intro mult_right_mono mult_left_mono) auto
      also have "\<dots> = of_int (20 * 10 ^ nat (cp_precision cp))"
        using scale_le_precision scale_nonneg by (simp add: nat_diff_distrib flip: power_add)
      finally have "\<bar>5 * k\<bar> \<le> 20 * 10 ^ nat (cp_precision cp)" by (simp only: of_int_le_iff)
      also have "\<dots> < 10 ^ (nat (cp_precision cp) + 2)" by simp
      also have "\<dots> \<le> 10 ^ context_precision cp"
        using guard_digits precision_pos by (intro power_increasing) (auto simp: context_precision_def)
      finally show ?thesis .
    qed
    ultimately have "?r z = z" by (rule sig_round_exact)
    then show ?thesis by simp
  next
    case False
    then have lt: "\<bar>w - of_int n\<bar> < 1 / 2" using dn by simp
    have Bp: "0 < (of_int \<bar>B\<bar> :: rat)" using B by simp
    have "2 * of_int \<bar>B\<bar> * \<bar>w - of_int n\<bar> = \<bar>2 * (of_int B * w - of_int B * of_int n)\<bar>"
      by (simp add: abs_mult flip: right_diff_distrib)
    also have "of_int B * w = of_int (A * 10 ^ nat (cp_scale cp))" using B by (simp add: w_def z)
    finally have i: "2 * of_int \<bar>B\<bar> * \<bar>w - of_int n\<bar> = of_int \<bar>2 * (A * 10 ^ nat (cp_scale cp) - B * n)\<bar>"
      by simp
    have "2 * of_int \<bar>B\<bar> * \<bar>w - of_int n\<bar> < 2 * of_int \<bar>B\<bar> * (1 / 2)"
      using lt Bp by (intro mult_strict_left_mono) auto
    then have "of_int \<bar>2 * (A * 10 ^ nat (cp_scale cp) - B * n)\<bar> < (of_int \<bar>B\<bar> :: rat)"
      unfolding i by simp
    then have "\<bar>2 * (A * 10 ^ nat (cp_scale cp) - B * n)\<bar> + 1 \<le> \<bar>B\<bar>"
      by (simp only: of_int_less_iff)
    then have "of_int (\<bar>2 * (A * 10 ^ nat (cp_scale cp) - B * n)\<bar> + 1) \<le> (of_int \<bar>B\<bar> :: rat)"
      by (simp only: of_int_le_iff)
    then have "2 * of_int \<bar>B\<bar> * \<bar>w - of_int n\<bar> + 1 \<le> of_int \<bar>B\<bar>"
      unfolding i by simp
    then have gap: "\<bar>w - of_int n\<bar> + 1 / (2 * of_int \<bar>B\<bar>) \<le> 1 / 2"
      using Bp by (simp add: field_simps)
    have "(of_int \<bar>B\<bar> :: rat) < ?P"
      using B(2) by (metis of_int_less_iff of_int_numeral of_int_power)
    then have "1 / (10 * ?P) < 1 / (2 * of_int \<bar>B\<bar>)"
      using Bp by (intro divide_strict_left_mono) auto
    moreover have "\<bar>?r z * ?S - w\<bar> \<le> 1 / (10 * ?P)"
      using working_error [OF small] by (simp add: w_def abs_mult flip: left_diff_distrib)
    ultimately have "\<bar>of_int n - ?r z * ?S\<bar> < 1 / 2" using gap by linarith
    then have "round_half_even (?r z * ?S) = n" by (rule round_half_even_unique)
    then show ?thesis by (simp add: round_to_scale_def n_def w_def)
  qed
qed

lemma policy_divide_single_rounding:
  assumes "storable cp a" and "storable cp b" and "b \<noteq> 0"
  shows "policy_divide cp f a b = normalize cp f (a / b)"
proof -
  let ?r = "sig_round (context_precision cp)"
  obtain A B where
    a: "a = of_int A * 10 powi (- cp_scale cp)" and
    b: "b = of_int B * 10 powi (- cp_scale cp)" and B: "\<bar>B\<bar> < 10 ^ nat (cp_precision cp)"
    using assms by (metis storable_coefficient)
  have B0: "B \<noteq> 0" using b assms(3) by auto
  have z: "a / b = of_int A / of_int B" by (simp add: a b)
  have "normalize cp f (?r (a / b)) = normalize cp f (a / b)"
  proof (cases "\<bar>a / b\<bar> \<le> 2 * limit")
    case True
    then show ?thesis using quotient_rounding [OF z B0 B] by (simp add: normalize_eq)
  next
    case False
    then have "2 * limit \<le> \<bar>a / b\<bar>" by simp
    then show ?thesis using sig_round_large [of "a / b"] by (simp add: normalize_overflow)
  qed
  then show ?thesis using assms by (simp add: policy_operations)
qed

text \<open>Scaling a ledger amount and scaling it back at working precision is within half a stored unit
  of the amount.\<close>

lemma working_epsilon:
  "limit * 10 ^ nat (cp_scale cp) * 10 powi (1 - int (context_precision cp)) \<le> (1 / 10 :: rat)"
  "(10::rat) powi (1 - int (context_precision cp)) \<le> 1"
proof -
  have "limit * 10 ^ nat (cp_scale cp) = (10::rat) ^ nat (cp_precision cp)"
    using scale_le_precision scale_nonneg by (simp add: nat_diff_distrib flip: power_add)
  moreover have "1 / (10 * 10 ^ nat (cp_precision cp)) \<le> (1 / 10 :: rat)" by (simp add: divide_simps)
  ultimately show "limit * 10 ^ nat (cp_scale cp) * 10 powi (1 - int (context_precision cp)) \<le> (1 / 10 :: rat)"
    using guard_scale by (simp only:)
  have "(10::rat) powi (1 - int (context_precision cp)) \<le> 10 powi 0"
    unfolding powi10_le_iff using context_pos by simp
  then show "(10::rat) powi (1 - int (context_precision cp)) \<le> 1" by simp
qed

lemma sig_round_relative:
  "0 \<le> x \<Longrightarrow> sig_round (context_precision cp) x \<le> x * (1 + 10 powi (1 - int (context_precision cp)) / 2)"
  "0 \<le> x \<Longrightarrow> x * (1 - 10 powi (1 - int (context_precision cp)) / 2) \<le> sig_round (context_precision cp) x"
  using sig_round_error [of "context_precision cp" x] unfolding distrib_left right_diff_distrib
  by (simp_all only: abs_of_nonneg mult_1_right times_divide_eq_right)

lemma normalize_scaled_back:
  assumes c: "storable cp c" "0 \<le> c" and e: "0 < e"
  shows "normalize cp f (sig_round (context_precision cp) (sig_round (context_precision cp) (c * e) / e)) = Inr c"
proof (rule normalize_near [OF c(1)])
  let ?r = "sig_round (context_precision cp)" and ?w = "(10::rat) powi (1 - int (context_precision cp))"
  define x where "x = ?r (c * e) / e"
  have w: "0 < ?w" "?w \<le> 1" using working_epsilon(2) by auto
  have "?r (c * e) \<le> c * e * (1 + ?w / 2)" "c * e * (1 - ?w / 2) \<le> ?r (c * e)"
    using sig_round_relative [of "c * e"] c e by simp_all
  then have x: "x \<le> c * (1 + ?w / 2)" "c * (1 - ?w / 2) \<le> x"
    unfolding x_def using e by (simp_all add: pos_divide_le_eq pos_le_divide_eq mult.commute mult.left_commute)
  have cw: "0 \<le> c * ?w" "c * ?w \<le> c" using c w by (auto simp: mult_left_le)
  have x0: "0 \<le> x" using x(2) cw by (simp add: algebra_simps)
  have x2: "x \<le> 2 * c" using x(1) cw c by (simp add: algebra_simps)
  have "\<bar>?r x - x\<bar> \<le> x * ?w / 2" using sig_round_error [of _ x] x0 by simp
  also have "\<dots> \<le> 2 * c * ?w / 2" using x2 w by (intro divide_right_mono mult_right_mono) auto
  finally have "\<bar>?r x - c\<bar> \<le> 2 * (c * ?w)" using x by (simp add: algebra_simps)
  also have "\<dots> \<le> 2 * (limit * ?w)" using c w by (auto simp: storable_def intro!: mult_right_mono)
  finally have "\<bar>?r x - c\<bar> * 10 ^ nat (cp_scale cp) \<le> 2 * (limit * ?w) * 10 ^ nat (cp_scale cp)"
    by (rule mult_right_mono) simp
  also have "\<dots> = 2 * (limit * 10 ^ nat (cp_scale cp) * ?w)" by simp
  also have "\<dots> < 1 / 2" using working_epsilon(1) by simp
  finally show "\<bar>?r (?r (c * e) / e) - c\<bar> * 10 ^ nat (cp_scale cp) < 1 / 2" by (simp add: x_def)
qed

text \<open>Shrinking a scale by a ratio of ledger amounts that is below one gives a smaller scale, in spite
  of the two roundings.\<close>

lemma scale_shrinks:
  assumes a: "storable cp a" "0 \<le> a" "a < b" and b: "storable cp b" and s: "0 < s"
  shows "sig_round (context_precision cp) (sig_round (context_precision cp) (s * a) / b) \<le> s"
proof -
  let ?r = "sig_round (context_precision cp)" and ?w = "(10::rat) powi (1 - int (context_precision cp))"
  let ?S = "(10::rat) ^ nat (cp_scale cp)"
  have w: "0 < ?w" "?w \<le> 1" using working_epsilon(2) by auto
  have "1 \<le> (b - a) * ?S"
  proof -
    obtain m n where m: "a * ?S = of_int m" and n: "b * ?S = of_int n"
      using a(1) b by (metis on_scaleE storable_on_scale)
    have "(of_int m :: rat) < of_int n" unfolding m [symmetric] n [symmetric] using a by simp
    then have "m + 1 \<le> n" by simp
    then have "(of_int (m + 1) :: rat) \<le> of_int n" by (simp only: of_int_le_iff)
    then show ?thesis by (simp add: left_diff_distrib m n)
  qed
  moreover have "a * ?w * 2 * ?S \<le> limit * ?w * 2 * ?S"
    using a b w by (intro mult_right_mono) (auto simp: storable_def)
  moreover have "limit * ?w * 2 * ?S \<le> 1" using working_epsilon(1) by (simp add: mult.commute mult.left_commute)
  ultimately have "a * ?w * 2 * ?S \<le> (b - a) * ?S" by linarith
  then have gap: "a + a * ?w * 2 \<le> b" by (simp add: mult_le_cancel_right)
  have sq: "(1 + ?w / 2) * (1 + ?w / 2) \<le> 1 + ?w * 2"
    using w mult_left_mono [OF w(2), of ?w] by (simp add: algebra_simps)
  have b0: "0 < b" using a by simp
  have "?r (s * a) \<le> s * a * (1 + ?w / 2)" using sig_round_relative(1) [of "s * a"] s a by simp
  then have "?r (s * a) / b \<le> s * a * (1 + ?w / 2) / b" using b0 by (intro divide_right_mono) auto
  then have "?r (?r (s * a) / b) \<le> s * a * (1 + ?w / 2) / b * (1 + ?w / 2)"
    using b0 s a w by (intro order_trans [OF sig_round_relative(1)] mult_right_mono) (auto intro!: sig_round_nonneg divide_nonneg_pos)
  also have "\<dots> = s * (a * ((1 + ?w / 2) * (1 + ?w / 2))) / b" by (simp add: mult_ac)
  also have "\<dots> \<le> s * (a * (1 + ?w * 2)) / b"
    using s a b0 sq by (intro divide_right_mono mult_left_mono) auto
  also have "\<dots> \<le> s * b / b"
    using s b0 gap by (intro divide_right_mono mult_left_mono) (auto simp: algebra_simps)
  finally show ?thesis using b0 by simp
qed

end

subsection \<open>The policy instances\<close>

lemma ledger_output_policy_fields [simp]:
  "cp_precision (ledger_output_policy n) = 18" "cp_scale (ledger_output_policy n) = 10"
  "cp_working_precision (ledger_output_policy n) = 64"
  "cp_rounding (ledger_output_policy n) = ''ROUND_HALF_EVEN''"
  by (simp_all add: ledger_output_policy_def)

lemma ledger_output_policy_constructed:
  "CalculatedDecimalPolicy n ''1.0.0'' 18 10 64 ''ROUND_HALF_EVEN'' = Inr (ledger_output_policy n)"
  by (simp add: CalculatedDecimalPolicy_def DecimalPrecisionPolicy_def ledger_output_policy_def)

lemmas policy_instances =
  TRANSACTION_COST_LEDGER_OUTPUT_V1_def COST_BASIS_STATE_LEDGER_OUTPUT_V1_def
  ACCRUED_INCOME_LEDGER_OUTPUT_V1_def POSITION_HISTORY_LEDGER_OUTPUT_V1_def

interpretation tx_cost: guarded_ledger_policy TRANSACTION_COST_LEDGER_OUTPUT_V1
  by unfold_locales (simp_all add: policy_instances)

interpretation cost_state: guarded_ledger_policy COST_BASIS_STATE_LEDGER_OUTPUT_V1
  by unfold_locales (simp_all add: policy_instances)

interpretation accrued: guarded_ledger_policy ACCRUED_INCOME_LEDGER_OUTPUT_V1
  by unfold_locales (simp_all add: policy_instances)

interpretation position_history: guarded_ledger_policy POSITION_HISTORY_LEDGER_OUTPUT_V1
  by unfold_locales (simp_all add: policy_instances)

section \<open>The digit loop implements the check on values\<close>

lemma digits_value_Nil [simp]: "digits_value [] = 0"
  by (simp add: digits_value_def)

lemma digits_value_snoc [simp]: "digits_value (ds @ [d]) = 10 * digits_value ds + d"
  by (simp add: digits_value_def)

lemma digits_value_single [simp]: "digits_value [d] = d"
  by (simp add: digits_value_def)

lemma digits_value_bounds:
  assumes "\<forall>d \<in> set ds. d < 10" and "ds \<noteq> []" and "hd ds \<noteq> 0"
  shows "10 ^ (length ds - 1) \<le> digits_value ds \<and> digits_value ds < 10 ^ length ds"
  using assms
proof (induction ds rule: rev_induct)
  case (snoc d ds)
  show ?case
  proof (cases "ds = []")
    case True
    then show ?thesis using snoc.prems by simp
  next
    case False
    then have "10 ^ (length ds - 1) \<le> digits_value ds" "digits_value ds < 10 ^ length ds"
      using snoc by auto
    moreover have "(10::nat) ^ length ds = 10 * 10 ^ (length ds - 1)"
      using False by (cases ds) auto
    moreover have "d < 10" using snoc.prems by simp
    ultimately show ?thesis by simp
  qed
qed simp

lemma strip_fraction_zeros:
  assumes "strip_fraction_zeros rds e = (rds', e')"
  shows "of_nat (digits_value (rev rds)) * 10 powi e = (of_nat (digits_value (rev rds')) * 10 powi e' :: rat)"
    and "set rds' \<subseteq> set rds" and "rds' \<noteq> [] \<Longrightarrow> last rds' = last rds"
    and "e' < 0 \<Longrightarrow> rds' \<noteq> [] \<Longrightarrow> hd rds' \<noteq> 0"
  using assms
proof (induction rds e arbitrary: rule: strip_fraction_zeros.induct)
  case (2 d rds e)
  { case 1
    show ?case
    proof (cases "d = 0 \<and> e < 0")
      case True
      have "of_nat (digits_value (rev (d # rds))) * 10 powi e
          = (of_nat (digits_value (rev rds)) * (10 powi 1 * 10 powi e) :: rat)"
        using True by simp
      also have "10 powi 1 * 10 powi e = (10::rat) powi (e + 1)"
        unfolding powi10_add by simp
      also have "of_nat (digits_value (rev rds)) * 10 powi (e + 1)
          = (of_nat (digits_value (rev rds')) * 10 powi e' :: rat)"
        using "2.IH"(1) True 1 by simp
      finally show ?thesis .
    next
      case False
      then have "rds' = d # rds" "e' = e" using 1 by (auto split: if_splits)
      then show ?thesis by simp
    qed
  next
    case 2
    then show ?case using "2.IH"(2) by (auto split: if_splits)
  next
    case 3
    then show ?case using "2.IH"(3) by (auto split: if_splits)
  next
    case 4
    then show ?case using "2.IH"(4) by (auto split: if_splits)
  }
qed auto

lemma digits_on_scale:
  assumes "0 \<le> e \<or> \<not> 10 dvd n" and "0 \<le> s"
  shows "on_scale s (of_nat n * 10 powi e) \<longleftrightarrow> n = 0 \<or> max (- e) 0 \<le> s"
proof -
  have eq: "of_nat n * 10 powi e * 10 ^ nat s = (of_nat n * 10 powi (e + s) :: rat)"
    unfolding powi10_add using assms(2) by (simp add: power_int_def)
  show ?thesis
  proof (cases "0 \<le> e + s")
    case True
    then have "of_nat n * 10 powi (e + s) = (of_int (int n * 10 ^ nat (e + s)) :: rat)"
      by (simp add: power_int_def)
    then have "on_scale s (of_nat n * 10 powi e)" using eq by (metis on_scaleI)
    then show ?thesis using True assms(2) by auto
  next
    case False
    then have nd: "\<not> 10 dvd n" "e < 0" using assms by auto
    have "\<not> on_scale s (of_nat n * 10 powi e)"
    proof
      assume "on_scale s (of_nat n * 10 powi e)"
      then obtain m where m: "of_nat n * 10 powi (e + s) = (of_int m :: rat)" by (metis eq on_scaleE)
      obtain k where k: "e + s = - int (Suc k)" using False by (metis not_le zero_le_imp_eq_int neg_int_cases not_less_zero Suc_pred nat_int)
      have "(10::rat) powi (e + s) = inverse (10 ^ Suc k)"
        unfolding k by (simp only: power_int_minus power_int_of_nat)
      then have "(10::rat) powi (e + s) * 10 ^ Suc k = 1" by (simp only: left_inverse) simp
      then have "(of_nat n :: rat) = of_nat n * 10 powi (e + s) * 10 ^ Suc k" by (simp add: mult.assoc)
      also have "\<dots> = of_int (m * 10 ^ Suc k)" unfolding m by simp
      finally have "int n = m * 10 ^ Suc k" by (metis of_int_eq_iff of_int_of_nat_eq)
      then have "(10::int) dvd int n" by simp
      then show False using nd by presburger
    qed
    moreover have "n \<noteq> 0" using nd(1) dvd_0_right by metis
    ultimately show ?thesis using False assms(2) by auto
  qed
qed

lemma digits_magnitude:
  assumes "10 ^ (l - 1) \<le> n" and "n < (10::nat) ^ l" and "0 < l" and "0 \<le> k"
  shows "(of_nat n * 10 powi e :: rat) < 10 ^ nat k \<longleftrightarrow> max (int l + e) 0 \<le> k"
proof -
  have lo: "(10::rat) powi (int l - 1) \<le> of_nat n"
    using assms(1,3) by (simp add: power_int_def nat_diff_distrib)
  have hi: "of_nat n < (10::rat) powi int l"
    using assms(2) by simp
  have K: "(10::rat) ^ nat k = 10 powi k" using assms(4) by (simp add: power_int_def)
  have "10 powi (int l - 1 + e) \<le> (of_nat n * 10 powi e :: rat)"
    unfolding powi10_add using lo by (intro mult_right_mono) auto
  moreover have up: "of_nat n * 10 powi e < (10::rat) powi (int l + e)"
    unfolding powi10_add using hi by (intro mult_strict_right_mono) auto
  ultimately have "(10::rat) powi (int l - 1 + e) < 10 powi k" if "of_nat n * 10 powi e < (10::rat) powi k"
    using that by linarith
  then have "int l + e \<le> k" if "of_nat n * 10 powi e < (10::rat) powi k"
    using that by simp
  moreover have "of_nat n * 10 powi e < (10::rat) powi k" if "int l + e \<le> k"
  proof -
    have "(10::rat) powi (int l + e) \<le> 10 powi k" using that by simp
    then show ?thesis using up by linarith
  qed
  ultimately have "(of_nat n * 10 powi e :: rat) < 10 powi k \<longleftrightarrow> int l + e \<le> k" by blast
  then show ?thesis unfolding K using assms(4) by simp
qed

text \<open>
  C13. The digit-by-digit exactness check of \<open>DecimalPrecisionPolicy.require_exact\<close> (strip trailing
  fractional zeros, count fractional and integer digits) accepts and rejects exactly as the check on
  the value does: more decimal places than the scale is \<open>EXCESS_SCALE\<close>, a magnitude of
  \<open>10 ^ (precision - scale)\<close> or more is \<open>MAGNITUDE_OVERFLOW\<close>, and an accepted value is returned
  unchanged.
\<close>

theorem require_exact_tuple_correct:
  assumes "DecimalPrecisionPolicy name precision scale = Inr pol" and "wf_py_decimal d" and "d \<noteq> PyNonFinite"
  shows "require_exact_tuple pol f d =
    (case require_exact pol f (dec_value d) of Inl e \<Rightarrow> Inl e | Inr _ \<Rightarrow> Inr d)"
proof (cases "dec_value d = 0 \<or> pp_bounds pol = None")
  case True
  then show ?thesis using assms(3)
    by (cases d) (auto simp: require_exact_tuple_def require_exact_def
        simp del: dec_value.simps split: option.splits)
next
  case False
  then obtain p s where ps: "pp_bounds pol = Some (p, s)" by auto
  then have b: "0 \<le> s" "s \<le> p"
    using assms(1) by (auto simp: DecimalPrecisionPolicy_def rbind_eq_Inr split: option.splits)
  obtain neg ds e where d: "d = PyFinite neg ds e" using assms(3) by (cases d) auto
  obtain rds e' where st: "strip_fraction_zeros (rev ds) e = (rds, e')" by fastforce
  note sf = strip_fraction_zeros [OF st]
  let ?n = "digits_value (rev rds)"
  have val: "\<bar>dec_value d\<bar> = of_nat ?n * 10 powi e'"
    using sf(1) by (simp add: d abs_mult)
  have n0: "?n \<noteq> 0"
  proof
    assume "?n = 0"
    then have "\<bar>dec_value d\<bar> = 0" unfolding val by simp
    then show False using False by simp
  qed
  then have ne: "rds \<noteq> []" by auto
  have "digits_value ds \<noteq> 0" using False d by auto
  then have "ds \<noteq> [0]" by auto
  then have wf: "\<forall>d \<in> set ds. d < 10" "ds \<noteq> []" "hd ds \<noteq> 0" using assms(2) d by auto
  have dig: "10 ^ (length rds - 1) \<le> ?n \<and> ?n < 10 ^ length rds"
    using digits_value_bounds [of "rev rds"] sf(2,3) ne wf
    by (auto simp: hd_rev last_rev)
  have "0 \<le> e' \<or> \<not> 10 dvd ?n"
  proof (cases "0 \<le> e'")
    case False
    then obtain d0 rest where r: "rds = d0 # rest" "d0 \<noteq> 0" using sf(4) ne by (cases rds) auto
    then have "d0 < 10" using sf(2) wf(1) by auto
    then show ?thesis using r by simp presburger
  qed simp
  then have "on_scale s \<bar>dec_value d\<bar> \<longleftrightarrow> max (- e') 0 \<le> s"
    unfolding val using digits_on_scale [of e' ?n s] b n0 by simp
  then have sc: "on_scale s (dec_value d) \<longleftrightarrow> max (- e') 0 \<le> s" by (simp add: abs_if split: if_splits)
  have mg: "\<bar>dec_value d\<bar> < 10 ^ nat (p - s) \<longleftrightarrow> max (int (length rds) + e') 0 \<le> p - s"
    unfolding val using dig ne b by (intro digits_magnitude) auto
  show ?thesis using False sc mg
    by (auto simp: require_exact_tuple_def require_exact_def ps d st not_le not_less
        simp del: dec_value.simps)
qed

theorem require_exact_tuple_correct_witness:
  "DecimalPrecisionPolicy ''p'' (Some 18) (Some 10) = Inr \<lparr>pp_name = ''p'', pp_bounds = Some (18, 10)\<rparr> \<and>
   require_exact_tuple \<lparr>pp_name = ''p'', pp_bounds = Some (18, 10)\<rparr> ''amount'' (PyFinite True [1, 2, 5, 0] (-3)) =
     (case require_exact \<lparr>pp_name = ''p'', pp_bounds = Some (18, 10)\<rparr> ''amount''
        (dec_value (PyFinite True [1, 2, 5, 0] (-3))) of
        Inl e \<Rightarrow> Inl e | Inr _ \<Rightarrow> Inr (PyFinite True [1, 2, 5, 0] (-3)))"
proof -
  have p: "DecimalPrecisionPolicy ''p'' (Some 18) (Some 10) = Inr \<lparr>pp_name = ''p'', pp_bounds = Some (18, 10)\<rparr>"
    by (simp add: DecimalPrecisionPolicy_def)
  show ?thesis using p require_exact_tuple_correct [OF p, of "PyFinite True [1, 2, 5, 0] (-3)"] by simp
qed

lemma calculated_policy_fields:
  assumes "CalculatedDecimalPolicy n v p s w mode = Inr cp"
  shows "cp_precision cp = p" "cp_scale cp = s" "cp_working_precision cp = w" "cp_rounding cp = mode"
    "policy_id cp = n @ ''@'' @ v"
  using assms by (auto simp: CalculatedDecimalPolicy_def policy_id_def rbind_eq_Inr)

lemma calculated_policy_known:
  "CalculatedDecimalPolicy n v p s w mode = Inr cp \<Longrightarrow> rounding_function mode = Inr rnd \<Longrightarrow> calculated_policy cp rnd"
  by unfold_locales
    (auto simp: CalculatedDecimalPolicy_def DecimalPrecisionPolicy_def rbind_eq_Inr)

lemma calculated_policy_ledger:
  "CalculatedDecimalPolicy n v p s w ''ROUND_HALF_EVEN'' = Inr cp \<Longrightarrow> ledger_policy cp"
  by (simp add: ledger_policy_def calculated_policy_known)

text \<open>With an unknown rounding mode only values that need no rounding are accepted.\<close>

lemma normalize_unknown_rounding:
  assumes "rounding_function (cp_rounding cp) = Inl e"
  shows "normalize cp f x =
    (if on_scale (cp_scale cp) x
     then storage_result f (policy_id cp) (cp_precision cp) (cp_scale cp) x else Inl e)"
  using assms by (auto simp: normalize_def require_exact_def persistence_policy_def storage_result_def)

lemma normalize_known_rounding:
  assumes "CalculatedDecimalPolicy n v p s w mode = Inr cp" and "rounding_function mode = Inr rnd"
  shows "normalize cp f x = storage_result f (n @ ''@'' @ v) p s (round_to_scale_by rnd s x)"
  using calculated_policy.normalize_by_eq [OF calculated_policy_known [OF assms]] calculated_policy_fields [OF assms(1)]
  by (simp add: Let_def storage_result_def)

text \<open>
  C3. For every policy \<open>CalculatedDecimalPolicy\<close> accepts and every decimal, \<open>normalize\<close> raises
  \<open>NON_FINITE\<close> for an infinity or a NaN; rounds a finite value once, in the policy's own rounding
  mode, to the storage scale, returns the rounded value when it fits the storage precision and raises
  \<open>MAGNITUDE_OVERFLOW\<close> otherwise; and, when the policy was given a string that is no rounding mode
  (the constructor does not check it), accepts only values that need no rounding and raises the
  \<open>TypeError\<close> of \<open>quantize\<close> for the others. A returned value is less than one unit of the last
  stored place from the argument, and at most half a unit in the default mode \<open>ROUND_HALF_EVEN\<close>.
\<close>

theorem normalize_correct:
  assumes "CalculatedDecimalPolicy n v p s w mode = Inr cp"
  shows "normalize_decimal cp f d =
      (case d of
         PyNonFinite \<Rightarrow> Inl (DecimalPrecisionError f NON_FINITE (n @ ''@'' @ v))
       | PyFinite _ _ _ \<Rightarrow>
           (case rounding_function mode of
              Inr rnd \<Rightarrow> storage_result f (n @ ''@'' @ v) p s (round_to_scale_by rnd s (dec_value d))
            | Inl unknown \<Rightarrow>
                if on_scale s (dec_value d) then storage_result f (n @ ''@'' @ v) p s (dec_value d)
                else Inl unknown)) \<and>
    (\<forall>y. normalize_decimal cp f d = Inr y \<longrightarrow>
       on_scale s y \<and> \<bar>y\<bar> < 10 ^ nat (p - s) \<and> \<bar>y - dec_value d\<bar> < 1 / 10 ^ nat s \<and>
       (mode = ''ROUND_HALF_EVEN'' \<longrightarrow> \<bar>y - dec_value d\<bar> \<le> 1 / (2 * 10 ^ nat s)))"
proof -
  note fields = calculated_policy_fields [OF assms]
  have eq: "normalize_decimal cp f d =
      (case d of
         PyNonFinite \<Rightarrow> Inl (DecimalPrecisionError f NON_FINITE (n @ ''@'' @ v))
       | PyFinite _ _ _ \<Rightarrow>
           (case rounding_function mode of
              Inr rnd \<Rightarrow> storage_result f (n @ ''@'' @ v) p s (round_to_scale_by rnd s (dec_value d))
            | Inl unknown \<Rightarrow>
                if on_scale s (dec_value d) then storage_result f (n @ ''@'' @ v) p s (dec_value d)
                else Inl unknown))"
    using normalize_known_rounding [OF assms] normalize_unknown_rounding [of cp] fields
    by (auto simp: normalize_decimal_def simp del: dec_value.simps split: py_decimal.split sum.split)
  moreover have "on_scale s y \<and> \<bar>y\<bar> < 10 ^ nat (p - s) \<and> \<bar>y - dec_value d\<bar> < 1 / 10 ^ nat s \<and>
      (mode = ''ROUND_HALF_EVEN'' \<longrightarrow> \<bar>y - dec_value d\<bar> \<le> 1 / (2 * 10 ^ nat s))"
    if "normalize_decimal cp f d = Inr y" for y
    using that round_to_scale_by_error [of mode _ s "dec_value d"] round_to_scale_error [of s "dec_value d"]
    unfolding eq
    by (auto simp: storage_result_def simp del: dec_value.simps split: py_decimal.splits sum.splits if_splits)
  ultimately show ?thesis by blast
qed

theorem normalize_correct_witness:
  "normalize_decimal (ledger_output_policy ''l'') ''x'' (PyFinite False [1, 2, 5] (-11)) = Inr (12 / 10 ^ 10) \<and>
   normalize_decimal (ledger_output_policy ''l'') ''x'' PyNonFinite =
     Inl (DecimalPrecisionError ''x'' NON_FINITE ''l@1.0.0'')"
proof -
  have "round_half_even (25 / 2) = 12" by code_simp
  then have "round_to_scale 10 (dec_value (PyFinite False [1, 2, 5] (-11))) = 12 / 10 ^ 10"
    by (simp add: round_to_scale_def digits_value_def power_int_minus)
  then show ?thesis
    using normalize_correct [OF ledger_output_policy_constructed, of "''l''" "''x''" "PyFinite False [1, 2, 5] (-11)"]
      normalize_correct [OF ledger_output_policy_constructed, of "''l''" "''x''" PyNonFinite]
    by (simp add: storage_result_def del: dec_value.simps)
qed

text \<open>
  C14. For every accepted policy with the default rounding \<open>ROUND_HALF_EVEN\<close> and all amounts storable
  under it, \<open>add\<close> and \<open>subtract\<close> return the exact sum and difference, or raise
  \<open>MAGNITUDE_OVERFLOW\<close> when it exceeds the storage precision; \<open>multiply\<close> returns the exact product
  rounded once, half to even, or overflows; \<open>divide\<close> raises \<open>ZeroDivisionError\<close> for a zero divisor
  and otherwise, provided that the working precision has at least two digits beyond twice the storage
  precision (every policy instance has 64 against 18), returns the exact quotient rounded once or
  overflows. The working-precision intermediate is never a second, visible rounding.
\<close>

theorem ledger_arithmetic_single_rounding:
  assumes "CalculatedDecimalPolicy n v p s w ''ROUND_HALF_EVEN'' = Inr cp"
    and "storable cp a" and "storable cp b"
  shows "policy_add cp f a b = storage_result f (n @ ''@'' @ v) p s (a + b) \<and>
    policy_subtract cp f a b = storage_result f (n @ ''@'' @ v) p s (a - b) \<and>
    policy_multiply cp f a b = storage_result f (n @ ''@'' @ v) p s (round_to_scale s (a * b)) \<and>
    (b = 0 \<longrightarrow> policy_divide cp f a b = Inl (ZeroDivisionError (f @ '' divisor must not be zero''))) \<and>
    (b \<noteq> 0 \<and> p * 2 + 2 \<le> w \<longrightarrow>
       policy_divide cp f a b = storage_result f (n @ ''@'' @ v) p s (round_to_scale s (a / b)))"
proof -
  note fields = calculated_policy_fields [OF assms(1)]
  have l: "ledger_policy cp" using assms(1) by (rule calculated_policy_ledger)
  have norm: "normalize cp f x = storage_result f (n @ ''@'' @ v) p s (round_to_scale s x)" for x
    using normalize_known_rounding [OF assms(1)] by simp
  have "policy_divide cp f a b = storage_result f (n @ ''@'' @ v) p s (round_to_scale s (a / b))"
    if "b \<noteq> 0" "p * 2 + 2 \<le> w"
  proof -
    have "guarded_ledger_policy cp"
      using l that(2) by (simp add: guarded_ledger_policy_def guarded_ledger_policy_axioms_def fields)
    then show ?thesis
      using guarded_ledger_policy.policy_divide_single_rounding assms(2,3) that(1) norm by metis
  qed
  moreover have "b = 0 \<longrightarrow> policy_divide cp f a b = Inl (ZeroDivisionError (f @ '' divisor must not be zero''))"
    by (simp add: policy_divide_def)
  moreover have "policy_multiply cp f a b = storage_result f (n @ ''@'' @ v) p s (round_to_scale s (a * b))"
    using ledger_policy.policy_multiply_single_rounding [OF l assms(2,3)] norm by metis
  ultimately show ?thesis
    using ledger_policy.policy_add_exact [OF l assms(2,3)] ledger_policy.policy_subtract_exact [OF l assms(2,3)]
    by (simp add: storage_result_def fields)
qed

lemma storable_one_three: "storable (ledger_output_policy n) 1" "storable (ledger_output_policy n) 3"
  by (auto simp: storable_def intro: on_scaleI [of _ _ "10 ^ 10"] on_scaleI [of _ _ "3 * 10 ^ 10"])

theorem ledger_arithmetic_single_rounding_witness:
  "policy_add (ledger_output_policy ''l'') ''x'' 1 3 = Inr 4 \<and>
   policy_subtract (ledger_output_policy ''l'') ''x'' 1 3 = Inr (- 2) \<and>
   policy_multiply (ledger_output_policy ''l'') ''x'' 1 3 = Inr 3 \<and>
   policy_divide (ledger_output_policy ''l'') ''x'' 1 3 = Inr (3333333333 / 10 ^ 10)"
proof -
  have "round_half_even (10000000000 / 3) = 3333333333" by (rule round_half_even_unique) simp
  then have "round_to_scale 10 (1 / 3) = 3333333333 / 10 ^ 10" by (simp add: round_to_scale_def)
  moreover have "round_to_scale 10 3 = 3" by (simp add: round_to_scale_id)
  ultimately show ?thesis
    using ledger_arithmetic_single_rounding [OF ledger_output_policy_constructed storable_one_three, of "''l''" "''x''"]
    by (simp add: storage_result_def)
qed

text \<open>The instances used below, by their fields.\<close>

lemma state_policy_fields [simp]:
  "cp_precision COST_BASIS_STATE_LEDGER_OUTPUT_V1 = 18"
  "cp_scale COST_BASIS_STATE_LEDGER_OUTPUT_V1 = 10"
  "cp_precision TRANSACTION_COST_LEDGER_OUTPUT_V1 = 18"
  "cp_scale TRANSACTION_COST_LEDGER_OUTPUT_V1 = 10"
  "cp_precision POSITION_HISTORY_LEDGER_OUTPUT_V1 = 18"
  "cp_scale POSITION_HISTORY_LEDGER_OUTPUT_V1 = 10"
  "cp_precision ACCRUED_INCOME_LEDGER_OUTPUT_V1 = 18"
  "cp_scale ACCRUED_INCOME_LEDGER_OUTPUT_V1 = 10"
  by (simp_all add: policy_instances)

text \<open>Code that runs under the context of the cost-basis state policy computes with its working
  precision and rounds half to even.\<close>

lemma state_policy_context:
  "arithmetic_context COST_BASIS_STATE_LEDGER_OUTPUT_V1 =
     Inr (context_precision COST_BASIS_STATE_LEDGER_OUTPUT_V1, round_half_even)"
  by (simp add: arithmetic_context_def policy_instances)

end
