(* ===== verification/Cost_Basis_Transaction.thy ===== *)
theory Cost_Basis_Transaction
  imports Numeric_Policy
begin

text \<open>
  The mutable transaction the cost engine works on:
  \<open>domain/cost_basis/models/cost_basis_transaction.py\<close> of the transaction service. The record
  keeps the declared fields and those extension fields (\<open>_extra_fields\<close>) that the modelled
  policies read or write with \<open>getattr\<close> and \<open>set_calculated_field\<close>; an absent extension field
  is \<open>None\<close>. Amounts arrive as finite \<open>Decimal\<close>s: the conversions from text and the rejection of
  non-finite values are outside the model.
\<close>

section \<open>Instants\<close>

text \<open>
  A \<open>datetime\<close>: microseconds of local wall-clock time since the start of day ordinal 1, and the
  UTC offset in microseconds when it is aware.
\<close>

datatype py_datetime = Py_Datetime (local_us: int) (utc_offset: "int option")

definition microseconds_per_day :: int where
  "microseconds_per_day = 86400000000"

definition utc_us :: "py_datetime \<Rightarrow> int" where
  "utc_us d = local_us d - (case utc_offset d of None \<Rightarrow> 0 | Some off \<Rightarrow> off)"

definition date_ordinal :: "int \<Rightarrow> int" where
  "date_ordinal us = us div microseconds_per_day + 1"

text \<open>\<open>standardize_datetime_value\<close>: a naive instant is read as UTC.\<close>

definition standardize_datetime_value :: "py_datetime \<Rightarrow> py_datetime" where
  "standardize_datetime_value d =
     (case utc_offset d of None \<Rightarrow> Py_Datetime (local_us d) (Some 0) | Some _ \<Rightarrow> d)"

section \<open>Fees\<close>

record fees =
  stamp_duty :: rat
  exchange_fee :: rat
  gst :: rat
  brokerage :: rat
  other_fees :: rat

definition non_negative :: "string \<Rightarrow> rat \<Rightarrow> rat res" where
  "non_negative field_name amount =
     (if amount < 0 then Inl (ValueError (field_name @ '' must be greater than or equal to 0''))
      else Inr amount)"

definition optional_non_negative :: "string \<Rightarrow> rat option \<Rightarrow> rat option res" where
  "optional_non_negative field_name amount =
     (case amount of None \<Rightarrow> Inr None
      | Some a \<Rightarrow> rbind (non_negative field_name a) (\<lambda>v. Inr (Some v)))"

definition optional_positive :: "string \<Rightarrow> rat option \<Rightarrow> rat option res" where
  "optional_positive field_name amount =
     (case amount of None \<Rightarrow> Inr None
      | Some a \<Rightarrow> if a \<le> 0 then Inl (ValueError (field_name @ '' must be greater than 0''))
                 else Inr (Some a))"

definition Fees :: "rat \<Rightarrow> rat \<Rightarrow> rat \<Rightarrow> rat \<Rightarrow> rat \<Rightarrow> fees res" where
  "Fees duty exchange goods broker other =
     rbind (non_negative ''stamp_duty'' duty) (\<lambda>a.
     rbind (non_negative ''exchange_fee'' exchange) (\<lambda>b.
     rbind (non_negative ''gst'' goods) (\<lambda>c.
     rbind (non_negative ''brokerage'' broker) (\<lambda>d.
     rbind (non_negative ''other_fees'' other) (\<lambda>e.
     Inr \<lparr>stamp_duty = a, exchange_fee = b, gst = c, brokerage = d, other_fees = e\<rparr>)))))"

text \<open>The sums run in the ambient context, whose precision is 28 digits.\<close>

definition ambient :: nat where
  "ambient = 28"

definition total_fees :: "fees \<Rightarrow> rat" where
  "total_fees f =
     dec_add ambient (dec_add ambient (dec_add ambient (dec_add ambient
       (stamp_duty f) (exchange_fee f)) (gst f)) (brokerage f)) (other_fees f)"

section \<open>Transactions\<close>

record cost_basis_transaction =
  transaction_id :: string
  portfolio_id :: string
  instrument_id :: string
  security_id :: string
  transaction_type :: string
  transaction_date :: py_datetime
  settlement_date :: "py_datetime option"
  child_sequence_hint :: "int option"
  target_instrument_id :: "string option"
  txn_quantity :: rat
  gross_transaction_amount :: rat
  net_transaction_amount :: "rat option"
  txn_fees :: "fees option"
  accrued_interest :: "rat option"
  average_price :: "rat option"
  trade_currency :: string
  portfolio_base_currency :: string
  transaction_fx_rate :: "rat option"
  net_cost :: "rat option"
  gross_cost :: "rat option"
  realized_gain_loss :: "rat option"
  net_cost_local :: "rat option"
  realized_gain_loss_local :: "rat option"
  source_lot_order_quantity :: "rat option"
  source_lot_original_quantity :: "rat option"
  txn_lot_restatement :: "(string \<times> rat) list option"
  txn_price :: "rat option"
  product_type :: "string option"
  asset_class :: "string option"
  component_type :: "string option"
  calculation_policy_id :: "string option"
  interest_direction :: "string option"
  movement_direction :: "string option"
  target_transaction_reference :: "string option"
  allocated_cost_basis_local :: "rat option"
  allocated_cost_basis_base :: "rat option"
  realized_capital_pnl_local :: "rat option"
  realized_fx_pnl_local :: "rat option"
  realized_total_pnl_local :: "rat option"
  realized_capital_pnl_base :: "rat option"
  realized_fx_pnl_base :: "rat option"
  realized_total_pnl_base :: "rat option"

text \<open>
  The constructor, on arguments that already have their field types: it makes the two instants
  aware, defaults absent fees to \<open>Fees()\<close> and rejects negative amounts in the order of the
  assignments. (\<open>Fees\<close> values were validated when they were built.)
\<close>

definition no_fees :: fees where
  "no_fees = \<lparr>stamp_duty = 0, exchange_fee = 0, gst = 0, brokerage = 0, other_fees = 0\<rparr>"

definition CostBasisTransaction :: "cost_basis_transaction \<Rightarrow> cost_basis_transaction res" where
  "CostBasisTransaction raw =
     rbind (non_negative ''quantity'' (txn_quantity raw)) (\<lambda>_.
     rbind (non_negative ''gross_transaction_amount'' (gross_transaction_amount raw)) (\<lambda>_.
     rbind (optional_non_negative ''net_transaction_amount'' (net_transaction_amount raw)) (\<lambda>_.
     rbind (optional_non_negative ''accrued_interest'' (accrued_interest raw)) (\<lambda>_.
     rbind (optional_non_negative ''average_price'' (average_price raw)) (\<lambda>_.
     rbind (optional_positive ''transaction_fx_rate'' (transaction_fx_rate raw)) (\<lambda>_.
     rbind (optional_non_negative ''source_lot_order_quantity'' (source_lot_order_quantity raw)) (\<lambda>_.
     rbind (optional_non_negative ''source_lot_original_quantity'' (source_lot_original_quantity raw)) (\<lambda>_.
     Inr (raw\<lparr>transaction_date := standardize_datetime_value (transaction_date raw),
              settlement_date := map_option standardize_datetime_value (settlement_date raw),
              txn_fees := Some (case txn_fees raw of None \<Rightarrow> no_fees | Some f \<Rightarrow> f)\<rparr>)))))))))"

text \<open>What a constructed transaction guarantees to the policies.\<close>

definition txn_wf :: "cost_basis_transaction \<Rightarrow> bool" where
  "txn_wf t \<longleftrightarrow> 0 \<le> txn_quantity t \<and> 0 \<le> gross_transaction_amount t \<and>
     pred_option (\<lambda>r. 0 < r) (transaction_fx_rate t) \<and>
     pred_option (\<lambda>a. 0 \<le> a) (accrued_interest t) \<and>
     pred_option (\<lambda>a. 0 \<le> a) (source_lot_original_quantity t) \<and>
     utc_offset (transaction_date t) \<noteq> None \<and> txn_fees t \<noteq> None"

lemma non_negative_Inr [simp]: "non_negative f a = Inr b \<longleftrightarrow> b = a \<and> 0 \<le> a"
  by (auto simp: non_negative_def)

lemma optional_non_negative_Inr [simp]:
  "optional_non_negative f a = Inr b \<longleftrightarrow> b = a \<and> pred_option (\<lambda>x. 0 \<le> x) a"
  by (auto simp: optional_non_negative_def rbind_eq_Inr split: option.splits)

lemma optional_positive_Inr [simp]:
  "optional_positive f a = Inr b \<longleftrightarrow> b = a \<and> pred_option (\<lambda>x. 0 < x) a"
  by (auto simp: optional_positive_def split: option.splits)

lemma standardized_aware [simp]: "\<exists>off. utc_offset (standardize_datetime_value d) = Some off"
  by (simp add: standardize_datetime_value_def split: option.split)

lemma CostBasisTransaction_wf: "CostBasisTransaction raw = Inr t \<Longrightarrow> txn_wf t"
  unfolding CostBasisTransaction_def
  by (elim rbind_InrE) (clarsimp simp: txn_wf_def)

text \<open>A transaction with every optional field absent, to build concrete ones from.\<close>

definition plain_transaction :: "string \<Rightarrow> string \<Rightarrow> rat \<Rightarrow> rat \<Rightarrow> cost_basis_transaction" where
  "plain_transaction tid type quantity gross =
     \<lparr>transaction_id = tid, portfolio_id = ''P'', instrument_id = ''I'', security_id = ''S'',
      transaction_type = type, transaction_date = Py_Datetime 0 (Some 0), settlement_date = None,
      child_sequence_hint = None, target_instrument_id = None, txn_quantity = quantity,
      gross_transaction_amount = gross, net_transaction_amount = None, txn_fees = Some no_fees,
      accrued_interest = Some 0, average_price = None, trade_currency = ''USD'',
      portfolio_base_currency = ''USD'', transaction_fx_rate = None, net_cost = None, gross_cost = None,
      realized_gain_loss = None, net_cost_local = None, realized_gain_loss_local = None,
      source_lot_order_quantity = None, source_lot_original_quantity = None, txn_lot_restatement = None,
      txn_price = None, product_type = None, asset_class = None, component_type = None,
      calculation_policy_id = None, interest_direction = None, movement_direction = None,
      target_transaction_reference = None, allocated_cost_basis_local = None,
      allocated_cost_basis_base = None, realized_capital_pnl_local = None, realized_fx_pnl_local = None,
      realized_total_pnl_local = None, realized_capital_pnl_base = None, realized_fx_pnl_base = None,
      realized_total_pnl_base = None\<rparr>"

end
