(* ===== verification/Lot_State.thy ===== *)
theory Lot_State
  imports Cost_Basis_Transaction
begin

text \<open>
  Lot state, lot restatement and residual-safe apportionment: \<open>lot_state.py\<close>,
  \<open>lot_restatement.py\<close> and \<open>residual_allocation.py\<close> of
  \<open>domain/cost_basis/calculation\<close>. The lemmas say what the amounts of a lot are once they are
  known to be storable, so that the strategies never unfold the decimal arithmetic.
\<close>

abbreviation state_policy :: calc_policy where
  "state_policy \<equiv> COST_BASIS_STATE_LEDGER_OUTPUT_V1"

section \<open>Open lot state\<close>

definition resolve_source_lot_original_quantity ::
  "rat option \<Rightarrow> rat option \<Rightarrow> rat \<Rightarrow> rat res" where
  "resolve_source_lot_original_quantity original_quantity order_quantity current_quantity =
     (case original_quantity of
        Some q \<Rightarrow> Inr q
      | None \<Rightarrow>
          (case order_quantity of
             Some _ \<Rightarrow> Inl (ValueError ''Restored source lot is missing original quantity authority'')
           | None \<Rightarrow> Inr current_quantity))"

definition require_sha256_digest :: "string \<Rightarrow> string \<Rightarrow> string res" where
  "require_sha256_digest value field_name =
     (if length value \<noteq> 64 \<or> list_ex (\<lambda>c. c \<notin> set ''0123456789abcdef'') value
      then Inl (ValueError (field_name @ '' must be a lowercase SHA-256 hex digest''))
      else Inr value)"

definition require_non_negative_decimal :: "rat \<Rightarrow> string \<Rightarrow> unit res" where
  "require_non_negative_decimal value field_name =
     require (0 \<le> value) (ValueError (field_name @ '' must be non-negative''))"

definition require_positive_decimal :: "rat \<Rightarrow> string \<Rightarrow> unit res" where
  "require_positive_decimal value field_name =
     rbind (require_non_negative_decimal value field_name) (\<lambda>_.
     require (value \<noteq> 0) (ValueError (field_name @ '' must be positive'')))"

record amortized_cost_carry_state =
  profile_id :: string
  profile_version :: int
  profile_content_hash :: string
  recognized_through_date :: int
  scheduled_cost_local :: rat
  carrying_amount_local :: rat
  carrying_amount_base :: rat
  book_cost_fx_rate_to_base :: rat

definition AmortizedCostCarryState ::
  "amortized_cost_carry_state \<Rightarrow> amortized_cost_carry_state res" where
  "AmortizedCostCarryState a =
     (let normalized_profile_id = py_strip (profile_id a) in
     rbind (require (normalized_profile_id \<noteq> []) (ValueError ''profile_id must be nonblank'')) (\<lambda>_.
     rbind (require (1 \<le> profile_version a) (ValueError ''profile_version must be positive'')) (\<lambda>_.
     rbind (require_sha256_digest (profile_content_hash a) ''profile_content_hash'') (\<lambda>_.
     rbind (require_non_negative_decimal (scheduled_cost_local a) ''scheduled_cost_local'') (\<lambda>_.
     rbind (require_non_negative_decimal (carrying_amount_local a) ''carrying_amount_local'') (\<lambda>_.
     rbind (require_non_negative_decimal (carrying_amount_base a) ''carrying_amount_base'') (\<lambda>_.
     rbind (require_positive_decimal (book_cost_fx_rate_to_base a) ''book_cost_fx_rate_to_base'') (\<lambda>_.
     Inr (a\<lparr>profile_id := normalized_profile_id\<rparr>)))))))))"

record open_lot_state =
  ols_original_quantity :: rat
  ols_quantity :: rat
  ols_cost_local :: rat
  ols_cost_base :: rat
  ols_amortized_cost :: "amortized_cost_carry_state option"

definition OpenLotState ::
  "rat \<Rightarrow> rat \<Rightarrow> rat \<Rightarrow> rat \<Rightarrow> amortized_cost_carry_state option \<Rightarrow> open_lot_state res" where
  "OpenLotState original_quantity quantity cost_local cost_base amortized_cost =
     rbind (require_non_negative_decimal original_quantity ''original_quantity'') (\<lambda>_.
     rbind (require_non_negative_decimal quantity ''quantity'') (\<lambda>_.
     rbind (require_non_negative_decimal cost_local ''cost_local'') (\<lambda>_.
     rbind (require_non_negative_decimal cost_base ''cost_base'') (\<lambda>_.
     rbind (require (quantity \<le> original_quantity)
              (ValueError ''quantity must not exceed original_quantity'')) (\<lambda>_.
     rbind (require (quantity \<noteq> 0 \<or> amortized_cost = None)
              (ValueError ''closed lot state must not retain amortized-cost carry state'')) (\<lambda>_.
     Inr \<lparr>ols_original_quantity = original_quantity, ols_quantity = quantity,
          ols_cost_local = cost_local, ols_cost_base = cost_base,
          ols_amortized_cost = amortized_cost\<rparr>))))))"

record cost_lot =
  lot_transaction_id :: string
  lot_id :: string
  acquisition_date :: int
  lot_original_quantity :: rat
  remaining_quantity :: rat
  cost_per_share_local :: rat
  cost_per_share_base :: rat

definition CostLot ::
  "string \<Rightarrow> string \<Rightarrow> int \<Rightarrow> rat \<Rightarrow> rat \<Rightarrow> rat \<Rightarrow> rat option \<Rightarrow> cost_lot res" where
  "CostLot txn_id lid acquired quantity cps_local cps_base original =
     (let original_quantity = (case original of Some q \<Rightarrow> q | None \<Rightarrow> quantity) in
     rbind (require (quantity \<le> original_quantity)
              (ValueError ''lot original_quantity must not be below open quantity'')) (\<lambda>_.
     Inr \<lparr>lot_transaction_id = txn_id, lot_id = lid, acquisition_date = acquired,
          lot_original_quantity = original_quantity, remaining_quantity = quantity,
          cost_per_share_local = cps_local, cost_per_share_base = cps_base\<rparr>))"

definition open_state :: "cost_lot \<Rightarrow> open_lot_state res" where
  "open_state lot =
     rbind (policy_multiply state_policy ''lot_cost_local''
              (remaining_quantity lot) (cost_per_share_local lot)) (\<lambda>cost_local.
     rbind (policy_multiply state_policy ''lot_cost_base''
              (remaining_quantity lot) (cost_per_share_base lot)) (\<lambda>cost_base.
     OpenLotState (lot_original_quantity lot) (remaining_quantity lot) cost_local cost_base None))"

section \<open>Lot restatement\<close>

definition LOT_QUANTITY_SCALE :: int where
  "LOT_QUANTITY_SCALE = (case pp_bounds TRANSACTION_PERSISTENCE_PRECISION_V1 of
     Some (_, scale) \<Rightarrow> scale | None \<Rightarrow> 0)"

record lot_restatement =
  quantity_before :: rat
  quantity_after :: rat

definition require_exact_persistable_quantity :: "rat \<Rightarrow> string \<Rightarrow> rat res" where
  "require_exact_persistable_quantity value field_name =
     (case require_exact TRANSACTION_PERSISTENCE_PRECISION_V1 field_name value of
        Inl _ \<Rightarrow> Inl (LotRestatementError (field_name @ '' exceeds governed quantity precision''))
      | Inr exact \<Rightarrow> Inr exact)"

definition require_non_negative_persistable_quantity :: "rat \<Rightarrow> string \<Rightarrow> rat res" where
  "require_non_negative_persistable_quantity amount field_name =
     rbind (require (0 \<le> amount) (LotRestatementError (field_name @ '' must be non-negative''))) (\<lambda>_.
     require_exact_persistable_quantity amount field_name)"

definition require_positive_persistable_quantity :: "rat \<Rightarrow> string \<Rightarrow> rat res" where
  "require_positive_persistable_quantity value field_name =
     rbind (require_non_negative_persistable_quantity value field_name) (\<lambda>amount.
     rbind (require (amount \<noteq> 0) (LotRestatementError (field_name @ '' must be positive''))) (\<lambda>_.
     Inr amount))"

definition LotRestatement :: "rat \<Rightarrow> rat \<Rightarrow> lot_restatement res" where
  "LotRestatement before after =
     rbind (require_positive_persistable_quantity before ''quantity_before'') (\<lambda>_.
     rbind (require_positive_persistable_quantity after ''quantity_after'') (\<lambda>_.
     rbind (require (before \<noteq> after) (LotRestatementError ''lot restatement must change quantity'')) (\<lambda>_.
     Inr \<lparr>quantity_before = before, quantity_after = after\<rparr>)))"

definition from_signed_delta :: "rat \<Rightarrow> rat \<Rightarrow> lot_restatement res" where
  "from_signed_delta before signed_quantity_delta =
     LotRestatement before (dec_add ambient before signed_quantity_delta)"

text \<open>The \<open>Fraction\<close> arithmetic is exact; \<open>scaleb\<close> finalises in the ambient context.\<close>

definition restatement_apply :: "lot_restatement \<Rightarrow> rat \<Rightarrow> string \<Rightarrow> rat res" where
  "restatement_apply r quantity field_name =
     rbind (require_non_negative_persistable_quantity quantity field_name) (\<lambda>_.
     let scaled = quantity * quantity_after r / quantity_before r in
     rbind (require (on_scale LOT_QUANTITY_SCALE scaled)
              (LotRestatementError (field_name @ '' cannot be restated exactly at 10 decimal places''))) (\<lambda>_.
     require_exact_persistable_quantity (sig_round ambient scaled) field_name))"

definition lineage_payload :: "lot_restatement \<Rightarrow> (string \<times> rat) list" where
  "lineage_payload r =
     [(''quantity_before'', quantity_before r), (''quantity_after'', quantity_after r),
      (''factor_numerator'', quantity_after r), (''factor_denominator'', quantity_before r)]"

section \<open>Residual-safe apportionment\<close>

definition allocate_nonnegative_storage_share :: "rat \<Rightarrow> rat \<Rightarrow> rat \<Rightarrow> string \<Rightarrow> rat res" where
  "allocate_nonnegative_storage_share candidate aggregate allocated field_name =
     rbind (normalize state_policy field_name candidate) (\<lambda>normalized.
     rbind (policy_subtract state_policy (''unallocated_'' @ field_name) aggregate allocated) (\<lambda>unallocated.
     rbind (require (\<not> (normalized < 0 \<or> unallocated < 0))
              (ValueError (field_name @ '' allocation must not be negative''))) (\<lambda>_.
     Inr (min normalized unallocated))))"

text \<open>
  \<open>_apportion_nonnegative_disposal_values\<close> of \<open>cost_basis_strategies.py\<close>: the loop over
  \<open>candidates[:-1]\<close>, and the remainder for the last candidate.
\<close>

fun apportion_loop :: "rat list \<Rightarrow> rat \<Rightarrow> string \<Rightarrow> rat \<Rightarrow> rat list res" where
  "apportion_loop [] aggregate field_name allocated = Inr []"
| "apportion_loop [_] aggregate field_name allocated =
     rbind (policy_subtract state_policy field_name aggregate allocated) (\<lambda>rest. Inr [rest])"
| "apportion_loop (candidate # candidates) aggregate field_name allocated =
     rbind (allocate_nonnegative_storage_share (max candidate 0) aggregate allocated field_name) (\<lambda>share.
     rbind (policy_add state_policy (''allocated_'' @ field_name) allocated share) (\<lambda>allocated'.
     rbind (apportion_loop candidates aggregate field_name allocated') (\<lambda>apportioned.
     Inr (share # apportioned))))"

definition apportion_nonnegative_disposal_values :: "rat list \<Rightarrow> rat \<Rightarrow> string \<Rightarrow> rat list res" where
  "apportion_nonnegative_disposal_values candidates aggregate field_name =
     rbind (require (candidates \<noteq> [])
              (ValueError (field_name @ '' disposal requires at least one source allocation''))) (\<lambda>_.
     apportion_loop candidates aggregate field_name 0)"

section \<open>Storable lot amounts\<close>

text \<open>Amounts of lots are below \<open>10 ^ 8\<close>, the magnitude limit of the 18-digit, scale-10 policy.\<close>

abbreviation ledger_limit :: rat where
  "ledger_limit \<equiv> 10 ^ 8"

abbreviation ledger_amount :: "rat \<Rightarrow> bool" where
  "ledger_amount \<equiv> storable COST_BASIS_STATE_LEDGER_OUTPUT_V1"

lemma ledger_amount_iff: "ledger_amount x \<longleftrightarrow> on_scale 10 x \<and> \<bar>x\<bar> < ledger_limit"
  by (simp add: storable_def)

lemma ledger_amount_sum:
  assumes "\<And>x. x \<in> set xs \<Longrightarrow> ledger_amount x" and "\<bar>sum_list xs\<bar> < ledger_limit"
  shows "ledger_amount (sum_list xs)"
  using assms by (simp add: ledger_amount_iff on_scale_sum_list)

lemma ledger_amount_sum_map:
  assumes "\<And>x. x \<in> set xs \<Longrightarrow> ledger_amount (f x) \<and> 0 \<le> f x" and "(\<Sum>x\<leftarrow>xs. f x) < ledger_limit"
  shows "ledger_amount (\<Sum>x\<leftarrow>xs. f x)" and "0 \<le> (\<Sum>x\<leftarrow>xs. f x)"
proof -
  show nonneg: "0 \<le> (\<Sum>x\<leftarrow>xs. f x)" using assms(1) by (intro sum_list_nonneg') auto
  show "ledger_amount (\<Sum>x\<leftarrow>xs. f x)"
    using assms nonneg by (intro ledger_amount_sum) auto
qed

lemma require_exact_persistable_Inr [simp]:
  "require_exact_persistable_quantity x f = Inr y \<longleftrightarrow> y = x \<and> ledger_amount x"
  by (auto simp: require_exact_persistable_quantity_def require_exact_def ledger_amount_iff
      TRANSACTION_PERSISTENCE_PRECISION_V1_def split: sum.splits)

lemma require_non_negative_persistable_Inr [simp]:
  "require_non_negative_persistable_quantity x f = Inr y \<longleftrightarrow> y = x \<and> 0 \<le> x \<and> ledger_amount x"
  by (auto simp: require_non_negative_persistable_quantity_def rbind_eq_Inr)

lemma require_positive_persistable_Inr [simp]:
  "require_positive_persistable_quantity x f = Inr y \<longleftrightarrow> y = x \<and> 0 < x \<and> ledger_amount x"
  by (auto simp: require_positive_persistable_quantity_def rbind_eq_Inr)

lemma require_non_negative_decimal_Inr [simp]:
  "require_non_negative_decimal x f = Inr u \<longleftrightarrow> 0 \<le> x"
  by (simp add: require_non_negative_decimal_def)

lemma require_positive_decimal_Inr [simp]:
  "require_positive_decimal x f = Inr u \<longleftrightarrow> 0 < x"
  by (auto simp: require_positive_decimal_def rbind_eq_Inr)

lemma OpenLotState_Inr:
  "OpenLotState orig q cl cb am = Inr s \<longleftrightarrow>
     0 \<le> q \<and> q \<le> orig \<and> 0 \<le> cl \<and> 0 \<le> cb \<and> (q = 0 \<longrightarrow> am = None) \<and>
     s = \<lparr>ols_original_quantity = orig, ols_quantity = q, ols_cost_local = cl, ols_cost_base = cb,
          ols_amortized_cost = am\<rparr>"
  by (auto simp: OpenLotState_def rbind_eq_Inr)

section \<open>Cost of a lot\<close>

definition lot_cost :: "rat \<Rightarrow> rat \<Rightarrow> rat" where
  "lot_cost unit_cost quantity =
     round_to_scale (cp_scale state_policy) (sig_round (context_precision state_policy) (quantity * unit_cost))"

lemma multiply_lot_cost:
  "policy_multiply state_policy f q u =
     (if \<bar>lot_cost u q\<bar> < ledger_limit then Inr (lot_cost u q)
      else Inl (DecimalPrecisionError f MAGNITUDE_OVERFLOW (policy_id state_policy)))"
  by (simp add: cost_state.policy_operations dec_mul_def cost_state.normalize_eq lot_cost_def Let_def)

lemma lot_cost_zero [simp]: "lot_cost u 0 = 0"
  by (simp add: lot_cost_def sig_round_0 round_to_scale_id)

lemma lot_cost_on_scale [simp]: "on_scale 10 (lot_cost u q)"
  unfolding lot_cost_def using on_scale_round_to_scale [of "cp_scale state_policy"] by simp

lemma lot_cost_mono:
  assumes "0 \<le> u" and "q \<le> q'"
  shows "lot_cost u q \<le> lot_cost u q'"
  unfolding lot_cost_def
  by (intro round_to_scale_mono sig_round_mono mult_right_mono assms cost_state.context_pos)

lemma lot_cost_nonneg: "0 \<le> u \<Longrightarrow> 0 \<le> q \<Longrightarrow> 0 \<le> lot_cost u q"
  using lot_cost_mono [of u 0 q] by simp

text \<open>Dividing a booked cost by the quantity at working precision loses nothing: the lot shows the
  booked cost again.\<close>

lemma lot_cost_per_share:
  assumes "ledger_amount q" "0 < q" "ledger_amount c" "0 \<le> c"
  shows "lot_cost (sig_round (context_precision state_policy) (c / q)) q = c"
  using cost_state.multiply_cost_per_share [OF assms, of "[]"] by (simp add: multiply_lot_cost split: if_splits)

lemma cost_per_share_nonneg:
  "0 < q \<Longrightarrow> 0 \<le> c \<Longrightarrow> 0 \<le> sig_round (context_precision state_policy) (c / q)"
  by (intro sig_round_nonneg divide_nonneg_pos)

abbreviation lot_cost_local :: "cost_lot \<Rightarrow> rat" where
  "lot_cost_local l \<equiv> lot_cost (cost_per_share_local l) (remaining_quantity l)"

abbreviation lot_cost_base :: "cost_lot \<Rightarrow> rat" where
  "lot_cost_base l \<equiv> lot_cost (cost_per_share_base l) (remaining_quantity l)"

text \<open>The lot invariant: open quantities and costs are non-negative ledger amounts.\<close>

definition lot_wf :: "cost_lot \<Rightarrow> bool" where
  "lot_wf l \<longleftrightarrow> 0 \<le> remaining_quantity l \<and> remaining_quantity l \<le> lot_original_quantity l \<and>
     ledger_amount (remaining_quantity l) \<and>
     0 \<le> cost_per_share_local l \<and> 0 \<le> cost_per_share_base l \<and>
     lot_cost_local l < ledger_limit \<and> lot_cost_base l < ledger_limit"

definition lot_view :: "cost_lot \<Rightarrow> open_lot_state" where
  "lot_view l = \<lparr>ols_original_quantity = lot_original_quantity l, ols_quantity = remaining_quantity l,
     ols_cost_local = lot_cost_local l, ols_cost_base = lot_cost_base l, ols_amortized_cost = None\<rparr>"

lemma lot_view_simps [simp]:
  "ols_original_quantity (lot_view l) = lot_original_quantity l"
  "ols_quantity (lot_view l) = remaining_quantity l"
  "ols_cost_local (lot_view l) = lot_cost_local l"
  "ols_cost_base (lot_view l) = lot_cost_base l"
  by (simp_all add: lot_view_def)

lemma lot_wf_costs:
  assumes "lot_wf l"
  shows "0 \<le> lot_cost_local l" "0 \<le> lot_cost_base l"
    "ledger_amount (lot_cost_local l)" "ledger_amount (lot_cost_base l)"
  using assms by (auto simp: lot_wf_def ledger_amount_iff lot_cost_nonneg)

lemma open_state_wf:
  assumes "lot_wf l"
  shows "open_state l = Inr (lot_view l)"
proof -
  have "\<bar>lot_cost_local l\<bar> < ledger_limit" "\<bar>lot_cost_base l\<bar> < ledger_limit"
    using lot_wf_costs(3,4) [OF assms] by (simp_all only: ledger_amount_iff)
  moreover have "OpenLotState (lot_original_quantity l) (remaining_quantity l) (lot_cost_local l)
      (lot_cost_base l) None = Inr (lot_view l)"
    using assms lot_wf_costs(1,2) [OF assms] by (simp add: OpenLotState_Inr lot_view_def lot_wf_def)
  ultimately show ?thesis by (simp add: open_state_def multiply_lot_cost)
qed

lemma lot_wf_remaining:
  assumes "lot_wf l" and "0 \<le> q" and "q \<le> remaining_quantity l" and "on_scale 10 q"
  shows "lot_wf (l\<lparr>remaining_quantity := q\<rparr>)"
  using assms lot_cost_mono [of "cost_per_share_local l" q "remaining_quantity l"]
    lot_cost_mono [of "cost_per_share_base l" q "remaining_quantity l"]
  by (auto simp: lot_wf_def ledger_amount_iff)

lemma new_lot_wf:
  assumes "ledger_amount q" "0 < q" "q \<le> orig"
    and "ledger_amount cl" "0 \<le> cl" "ledger_amount cb" "0 \<le> cb"
    and "l = \<lparr>lot_transaction_id = t, lot_id = i, acquisition_date = d, lot_original_quantity = orig,
      remaining_quantity = q,
      cost_per_share_local = sig_round (context_precision state_policy) (cl / q),
      cost_per_share_base = sig_round (context_precision state_policy) (cb / q)\<rparr>"
  shows "lot_wf l" and "lot_cost_local l = cl" and "lot_cost_base l = cb"
proof -
  show "lot_cost_local l = cl" "lot_cost_base l = cb"
    using assms by (simp_all add: lot_cost_per_share)
  then show "lot_wf l"
    using assms by (auto simp: lot_wf_def cost_per_share_nonneg ledger_amount_iff)
qed

section \<open>Restatement and apportionment on storable amounts\<close>

lemma sig_round_ambient_ledger: "ledger_amount x \<Longrightarrow> sig_round ambient x = x"
proof (erule cost_state.storable_coefficient)
  fix m :: int
  assume x: "x = of_int m * 10 powi - cp_scale state_policy" and m: "\<bar>m\<bar> < 10 ^ nat (cp_precision state_policy)"
  show ?thesis
    by (rule sig_round_exact [OF x]) (use m in \<open>auto simp: ambient_def intro: order_less_le_trans\<close>)
qed

lemma LotRestatement_Inr:
  "LotRestatement b a = Inr r \<longleftrightarrow>
     0 < b \<and> ledger_amount b \<and> 0 < a \<and> ledger_amount a \<and> b \<noteq> a \<and>
     r = \<lparr>quantity_before = b, quantity_after = a\<rparr>"
  by (auto simp: LotRestatement_def rbind_eq_Inr)

lemma LOT_QUANTITY_SCALE_eq [simp]: "LOT_QUANTITY_SCALE = 10"
  by (simp add: LOT_QUANTITY_SCALE_def TRANSACTION_PERSISTENCE_PRECISION_V1_def)

lemma restatement_apply_Inr:
  assumes "LotRestatement b a = Inr r"
  shows "restatement_apply r q f = Inr q' \<longleftrightarrow>
    0 \<le> q \<and> ledger_amount q \<and> q' = q * a / b \<and> ledger_amount q'"
proof -
  have r: "0 < b" "0 < a" "quantity_before r = b" "quantity_after r = a"
    using assms by (auto simp: LotRestatement_Inr)
  define z where "z = q * a / b"
  have "ledger_amount (sig_round ambient z) \<longleftrightarrow> ledger_amount z"
    if "0 \<le> q" and scale: "on_scale 10 z"
  proof (cases "z < ledger_limit")
    case True
    moreover have "0 \<le> z" using r that by (simp add: z_def)
    ultimately have "ledger_amount z" using scale by (simp add: ledger_amount_iff)
    then show ?thesis by (simp add: sig_round_ambient_ledger)
  next
    case False
    have "sig_round ambient (ledger_limit) = ledger_limit"
      by (rule sig_round_exact [where m = 1 and k = 8]) (simp_all add: ambient_def)
    moreover have "sig_round ambient ledger_limit \<le> sig_round ambient z"
      using False by (intro sig_round_mono) (simp_all add: ambient_def)
    ultimately show ?thesis using False by (auto simp: ledger_amount_iff)
  qed
  moreover have "ledger_amount (sig_round ambient z) \<Longrightarrow> ledger_amount z \<Longrightarrow> sig_round ambient z = z"
    by (simp add: sig_round_ambient_ledger)
  moreover have "ledger_amount z \<Longrightarrow> on_scale 10 z" by (simp add: ledger_amount_iff)
  ultimately show ?thesis
    by (auto simp: restatement_apply_def rbind_eq_Inr Let_def r simp flip: z_def)
qed

lemma from_signed_delta_Inr:
  assumes "ledger_amount b" and "ledger_amount d"
  shows "from_signed_delta b d = Inr r \<longleftrightarrow> LotRestatement b (b + d) = Inr r"
proof -
  obtain m n where
    b: "b = of_int m * 10 powi (- cp_scale state_policy)" and m: "\<bar>m\<bar> < 10 ^ nat (cp_precision state_policy)" and
    d: "d = of_int n * 10 powi (- cp_scale state_policy)" and n: "\<bar>n\<bar> < 10 ^ nat (cp_precision state_policy)"
    using assms by (elim cost_state.storable_coefficient)
  have "b + d = of_int (m + n) * 10 powi (- cp_scale state_policy)"
    unfolding b d by (simp add: distrib_right)
  moreover have "\<bar>m + n\<bar> < 10 ^ ambient" using m n by (simp add: ambient_def)
  ultimately have "sig_round ambient (b + d) = b + d" by (rule sig_round_exact)
  then show ?thesis by (simp add: from_signed_delta_def dec_add_def)
qed

lemma storage_share:
  assumes "ledger_amount c" "0 \<le> c" "ledger_amount agg" "ledger_amount alloc" "0 \<le> alloc" "alloc \<le> agg"
  shows "allocate_nonnegative_storage_share c agg alloc f = Inr (min c (agg - alloc))"
  using assms
  by (simp add: allocate_nonnegative_storage_share_def cost_state.normalize_storable
      cost_state.policy_subtract_le)

lemma apportion_loop_correct:
  assumes "\<And>c. c \<in> set cs \<Longrightarrow> ledger_amount c" "ledger_amount agg"
    and "ledger_amount alloc" "0 \<le> alloc" "alloc \<le> agg"
  shows "\<exists>ys. apportion_loop cs agg f alloc = Inr ys \<and> length ys = length cs \<and>
    (\<forall>y \<in> set ys. 0 \<le> y \<and> ledger_amount y) \<and> (cs \<noteq> [] \<longrightarrow> sum_list ys = agg - alloc)"
  using assms
proof (induction cs agg f alloc rule: apportion_loop.induct)
  case (2 c agg f alloc)
  then show ?case by (simp add: cost_state.policy_subtract_le)
next
  case (3 c d cs agg f alloc)
  define share where "share = min (max c 0) (agg - alloc)"
  have c: "ledger_amount (max c 0)" using 3 by (simp add: max_def)
  have rest: "ledger_amount (agg - alloc)" using 3 by (intro cost_state.policy_subtract_le)
  have share: "ledger_amount share" "0 \<le> share" "share \<le> agg - alloc"
    using c rest 3 by (auto simp: share_def intro: storable_min)
  have sum: "ledger_amount (alloc + share)"
    by (rule storable_mono [of _ agg]) (use share 3 in \<open>auto simp: ledger_amount_iff\<close>)
  then have add: "policy_add state_policy (''allocated_'' @ f) alloc share = Inr (alloc + share)"
    using share 3 by (simp add: cost_state.policy_add_exact ledger_amount_iff)
  have alloc: "allocate_nonnegative_storage_share (max c 0) agg alloc f = Inr share"
    unfolding share_def using c 3 by (intro storage_share) auto
  obtain ys where "apportion_loop (d # cs) agg f (alloc + share) = Inr ys" "length ys = length (d # cs)"
    "\<forall>y \<in> set ys. 0 \<le> y \<and> ledger_amount y" "sum_list ys = agg - (alloc + share)"
    using "3.IH" [OF alloc add] "3.prems" share sum by auto
  then show ?case using alloc add share by simp
qed simp

text \<open>
  C4. Apportioning a non-negative ledger aggregate over any non-empty list of ledger candidates
  always succeeds, gives every source a non-negative ledger share, and the shares add up to the
  aggregate exactly, whatever rounding noise or negative deltas the candidates carry.
\<close>

theorem apportion_conserves:
  assumes "candidates \<noteq> []" and "\<forall>c \<in> set candidates. ledger_amount c"
    and "ledger_amount aggregate" and "0 \<le> aggregate"
  shows "\<exists>shares. apportion_nonnegative_disposal_values candidates aggregate f = Inr shares \<and>
    length shares = length candidates \<and> sum_list shares = aggregate \<and>
    (\<forall>s \<in> set shares. 0 \<le> s \<and> ledger_amount s)"
  using apportion_loop_correct [of candidates aggregate 0 f] assms
  by (auto simp: apportion_nonnegative_disposal_values_def)

theorem apportion_conserves_witness:
  "\<exists>shares. apportion_nonnegative_disposal_values [3, -1, 5, 2] 6 ''x'' = Inr shares \<and>
    length shares = length [3, -1, 5, 2 :: rat] \<and> sum_list shares = 6 \<and>
    (\<forall>s \<in> set shares. 0 \<le> s \<and> ledger_amount s)"
  by (rule apportion_conserves) (simp_all add: ledger_amount_iff)

text \<open>
  C12. A restatement built from a book quantity and a signed delta multiplies every quantity by the
  exact ratio after / before: it either returns the exact product as a ledger amount, which keeps
  zero at zero and preserves the order of quantities, or raises; it never rounds.
\<close>

theorem restatement_exact:
  assumes "ledger_amount before" and "ledger_amount delta"
    and "from_signed_delta before delta = Inr r" and "restatement_apply r q f = Inr q'"
  shows "quantity_after r = before + delta \<and> q' * before = q * (before + delta) \<and>
    0 \<le> q' \<and> ledger_amount q' \<and>
    (\<forall>p g p'. restatement_apply r p g = Inr p' \<longrightarrow> (p' \<le> q' \<longleftrightarrow> p \<le> q))"
proof -
  have r: "LotRestatement before (before + delta) = Inr r"
    using assms by (simp add: from_signed_delta_Inr)
  then have pos: "0 < before" "0 < before + delta" "quantity_after r = before + delta"
    by (auto simp: LotRestatement_Inr)
  show ?thesis
    using assms(4) pos by (auto simp: restatement_apply_Inr [OF r] divide_le_cancel)
qed

theorem restatement_exact_witness:
  "\<exists>r. from_signed_delta 30 (-10) = Inr r \<and> restatement_apply r 15 ''q'' = Inr 10 \<and>
    quantity_after r = 20 \<and> ledger_amount 10"
proof -
  define r where "r = \<lparr>quantity_before = 30, quantity_after = 20 :: rat\<rparr>"
  have amounts: "ledger_amount 30" "ledger_amount (-10)" "ledger_amount 20" "ledger_amount 10" "ledger_amount 15"
    by (simp_all add: ledger_amount_iff)
  have r: "LotRestatement 30 20 = Inr r" using amounts by (simp add: LotRestatement_Inr r_def)
  have delta: "from_signed_delta 30 (-10) = Inr r"
    using from_signed_delta_Inr [of 30 "-10" r] r amounts by simp
  have applied: "restatement_apply r 15 ''q'' = Inr 10"
    using amounts by (simp add: restatement_apply_Inr [OF r])
  show ?thesis
    using restatement_exact [OF amounts(1,2) delta applied] delta applied by auto
qed

end
