(* ===== verification/Py_Text.thy ===== *)
theory Py_Text
  imports Cost_Basis_Transaction
begin

text \<open>
  The standard-library texts that enter lineage payloads: \<open>str\<close> of a \<open>Decimal\<close> and \<open>isoformat\<close> of
  dates and of UTC instants. The calendar is the proleptic Gregorian one of \<open>datetime\<close>, computed as
  that module does from day ordinals.
\<close>

section \<open>The calendar\<close>

definition is_leap :: "int \<Rightarrow> bool" where
  "is_leap year \<longleftrightarrow> year mod 4 = 0 \<and> (year mod 100 \<noteq> 0 \<or> year mod 400 = 0)"

definition days_before_year :: "int \<Rightarrow> int" where
  "days_before_year year = (let y = year - 1 in y * 365 + y div 4 - y div 100 + y div 400)"

definition days_before_month_table :: "int list" where
  "days_before_month_table = [0, 31, 59, 90, 120, 151, 181, 212, 243, 273, 304, 334]"

definition days_in_month_table :: "int list" where
  "days_in_month_table = [31, 28, 31, 30, 31, 30, 31, 31, 30, 31, 30, 31]"

definition days_in_month :: "int \<Rightarrow> int \<Rightarrow> int" where
  "days_in_month year month =
     (if month = 2 \<and> is_leap year then 29 else days_in_month_table ! nat (month - 1))"

definition days_before_month :: "int \<Rightarrow> int \<Rightarrow> int" where
  "days_before_month year month =
     days_before_month_table ! nat (month - 1) + (if 2 < month \<and> is_leap year then 1 else 0)"

definition ymd2ord :: "int \<Rightarrow> int \<Rightarrow> int \<Rightarrow> int" where
  "ymd2ord year month day = days_before_year year + days_before_month year month + day"

text \<open>The month estimate of \<open>_ord2ymd\<close>, which is at most one too large.\<close>

definition month_of :: "bool \<Rightarrow> int \<Rightarrow> int \<times> int" where
  "month_of leap n =
     (let month = (n + 50) div 32;
          preceding = days_before_month_table ! nat (month - 1) + (if 2 < month \<and> leap then 1 else 0)
      in if n < preceding then
           (let month' = month - 1
            in (month', n - (preceding - days_in_month_table ! nat (month' - 1) -
                   (if month' = 2 \<and> leap then 1 else 0)) + 1))
         else (month, n - preceding + 1))"

definition ord2ymd :: "int \<Rightarrow> int \<times> int \<times> int" where
  "ord2ymd ordinal =
     (let n = ordinal - 1;
          n400 = n div 146097; n = n mod 146097;
          n100 = n div 36524; n = n mod 36524;
          n4 = n div 1461; n = n mod 1461;
          n1 = n div 365; n = n mod 365;
          year = n400 * 400 + 1 + n100 * 100 + n4 * 4 + n1
      in if n1 = 4 \<or> n100 = 4 then (year - 1, 12, 31)
         else let leap = (n1 = 3 \<and> (n4 \<noteq> 24 \<or> n100 = 3)) in (year, month_of leap n))"

section \<open>Texts\<close>

definition zero_padded :: "nat \<Rightarrow> int \<Rightarrow> string" where
  "zero_padded width i = (let digits = show_int i in replicate (width - length digits) (CHR ''0'') @ digits)"

definition date_isoformat :: "int \<Rightarrow> string" where
  "date_isoformat ordinal =
     (case ord2ymd ordinal of (y, m, d) \<Rightarrow> zero_padded 4 y @ ''-'' @ zero_padded 2 m @ ''-'' @ zero_padded 2 d)"

definition utc_isoformat :: "int \<Rightarrow> string" where
  "utc_isoformat us =
     (let rest = us mod microseconds_per_day; seconds = rest div 1000000; micros = rest mod 1000000
      in date_isoformat (date_ordinal us) @ ''T'' @ zero_padded 2 (seconds div 3600) @ '':'' @
         zero_padded 2 (seconds div 60 mod 60) @ '':'' @ zero_padded 2 (seconds mod 60) @
         (if micros = 0 then [] else ''.'' @ zero_padded 6 micros) @ ''+00:00'')"

text \<open>\<open>str(Decimal)\<close>: plain notation while the exponent is at most zero and the value is not too
  small, scientific notation otherwise.\<close>

definition decimal_str :: "bool \<Rightarrow> nat list \<Rightarrow> int \<Rightarrow> string" where
  "decimal_str neg digits exponent =
     (let text = map (\<lambda>d. char_of (48 + d)) digits;
          leftdigits = exponent + int (length digits);
          dotplace = (if exponent \<le> 0 \<and> -6 < leftdigits then leftdigits else 1);
          intpart = (if dotplace \<le> 0 then ''0''
                     else if int (length digits) \<le> dotplace
                     then text @ replicate (nat (dotplace - int (length digits))) (CHR ''0'')
                     else take (nat dotplace) text);
          fracpart = (if dotplace \<le> 0 then ''.'' @ replicate (nat (- dotplace)) (CHR ''0'') @ text
                      else if int (length digits) \<le> dotplace then []
                      else ''.'' @ drop (nat dotplace) text);
          exp = (if leftdigits = dotplace then []
                 else ''E'' @ (if leftdigits < dotplace then [] else ''+'') @ show_int (leftdigits - dotplace))
      in (if neg then ''-'' else []) @ intpart @ fracpart @ exp)"

lemma ord2ymd_examples:
  "ord2ymd 1 = (1, 1, 1)" "ord2ymd 719163 = (1970, 1, 1)" "ord2ymd 738945 = (2024, 2, 29)"
  "ymd2ord 2024 2 29 = 738945" "utc_isoformat (719162 * microseconds_per_day + 1500000) = ''1970-01-01T00:00:01.500000+00:00''"
  "decimal_str True [1, 2, 3, 0] (-2) = ''-12.30''" "decimal_str False [5] (-8) = ''5E-8''"
  "decimal_str False [5] 3 = ''5E+3''" "decimal_str False [0] 0 = ''0''"
  by code_simp+

end
