(* ===== verification/Py_Json.thy ===== *)
theory Py_Json
  imports Core_Prelude "HOL-Library.Multiset" "HOL-Library.Char_ord" "HOL-Library.List_Lexorder"
begin

text \<open>
  The part of Python's \<open>json\<close> module that the lineage hashes rest on:
  \<open>json.dumps(value, sort_keys=True, separators=(",", ":"), ensure_ascii=True)\<close>. A character is
  a code point below 256. The text is uniquely readable, so two values have the same text exactly
  when they agree up to the order of object keys.
\<close>

datatype json =
    JNull
  | JBool bool
  | JInt int
  | JStr string
  | JArr "json list"
  | JObj "(string \<times> json) list"

section \<open>The text of a value\<close>


definition escape_char :: "char \<Rightarrow> string" where
  "escape_char c =
     (let n = of_char c :: nat in
      if n = 34 then [CHR 0x5C, CHR 0x22]
      else if n = 92 then [CHR 0x5C, CHR 0x5C]
      else if 32 \<le> n \<and> n \<le> 126 then [c]
      else if n = 10 then [CHR 0x5C, CHR ''n'']
      else if n = 13 then [CHR 0x5C, CHR ''r'']
      else if n = 9 then [CHR 0x5C, CHR ''t'']
      else if n = 12 then [CHR 0x5C, CHR ''f'']
      else if n = 8 then [CHR 0x5C, CHR ''b'']
      else [CHR 0x5C, CHR ''u'', CHR ''0'', CHR ''0'', hex_digit (n div 16), hex_digit (n mod 16)])"

definition json_string :: "string \<Rightarrow> string" where
  "json_string s = CHR 0x22 # concat (map escape_char s) @ [CHR 0x22]"


fun seq_text :: "char \<Rightarrow> string list \<Rightarrow> string" where
  "seq_text close [] = [close]"
| "seq_text close [t] = t @ [close]"
| "seq_text close (t # u # ts) = t @ CHR '','' # seq_text close (u # ts)"

fun json_text :: "json \<Rightarrow> string" where
  "json_text JNull = ''null''"
| "json_text (JBool b) = (if b then ''true'' else ''false'')"
| "json_text (JInt i) = show_int i"
| "json_text (JStr s) = json_string s"
| "json_text (JArr vs) = CHR ''['' # seq_text (CHR '']'') (map json_text vs)"
| "json_text (JObj items) = CHR ''{'' # seq_text (CHR ''}'') (map (\<lambda>(k, v). json_string k @ CHR '':'' # json_text v) items)"

fun sort_keys :: "json \<Rightarrow> json" where
  "sort_keys (JArr vs) = JArr (map sort_keys vs)"
| "sort_keys (JObj items) = JObj (sort_key fst (map (\<lambda>(k, v). (k, sort_keys v)) items))"
| "sort_keys v = v"

definition json_dumps :: "json \<Rightarrow> string" where
  "json_dumps v = json_text (sort_keys v)"

section \<open>Unique readability\<close>

text \<open>Digits.\<close>

lemma of_char_of_small [simp]: "n < 256 \<Longrightarrow> of_char (char_of n) = (n :: nat)"
  by simp

definition is_digit :: "char \<Rightarrow> bool" where
  "is_digit c \<longleftrightarrow> (let n = of_char c :: nat in 48 \<le> n \<and> n \<le> 57)"

lemma show_nat_digits: "\<forall>c \<in> set (show_nat n). is_digit c"
  by (induction n rule: show_nat.induct) (subst show_nat.simps, auto simp: is_digit_def)

lemma show_nat_not_Nil [simp]: "show_nat n \<noteq> []"
  by (subst show_nat.simps) simp

definition digits_nat :: "string \<Rightarrow> nat" where
  "digits_nat s = foldl (\<lambda>acc c. 10 * acc + (of_char c - 48)) 0 s"

lemma digits_nat_show_nat [simp]: "digits_nat (show_nat n) = n"
proof (induction n rule: show_nat.induct)
  case (1 n)
  then show ?case by (cases "n < 10") (simp_all add: digits_nat_def show_nat.simps [of n])
qed

text \<open>A number is followed by a separator or by the end of the text.\<close>

definition delimited :: "string \<Rightarrow> bool" where
  "delimited s \<longleftrightarrow> s = [] \<or> hd s \<in> {CHR '','', CHR '']'', CHR ''}''}"

lemma delimited_simps [simp]:
  "delimited []" "delimited (CHR '','' # s)" "delimited (CHR '']'' # s)" "delimited (CHR ''}'' # s)"
  by (simp_all add: delimited_def)

lemma delimited_not_digit: "delimited s \<Longrightarrow> s \<noteq> [] \<Longrightarrow> \<not> is_digit (hd s)"
  by (auto simp: delimited_def is_digit_def)

lemma span_unique:
  assumes "xs @ s = ys @ t" and "\<forall>c \<in> set xs. P c" and "\<forall>c \<in> set ys. P c"
    and "s \<noteq> [] \<Longrightarrow> \<not> P (hd s)" and "t \<noteq> [] \<Longrightarrow> \<not> P (hd t)"
  shows "xs = ys \<and> s = t"
proof -
  have "takeWhile P (zs @ u) = zs" if "\<forall>c \<in> set zs. P c" and "u \<noteq> [] \<Longrightarrow> \<not> P (hd u)" for zs u
    using that by (cases u) (simp_all add: takeWhile_append2)
  from this [of xs s] this [of ys t] show ?thesis using assms by (metis append_same_eq same_append_eq)
qed

lemma show_nat_readable:
  "show_nat m @ s = show_nat n @ t \<Longrightarrow> delimited s \<Longrightarrow> delimited t \<Longrightarrow> m = n \<and> s = t"
  using span_unique [of "show_nat m" s "show_nat n" t is_digit] show_nat_digits delimited_not_digit
  by (metis digits_nat_show_nat)

lemma show_nat_head: "\<exists>c cs. show_nat n = c # cs \<and> is_digit c"
  using show_nat_digits [of n] by (cases "show_nat n") auto

lemma show_int_readable:
  assumes "show_int i @ s = show_int j @ t" and "delimited s" and "delimited t"
  shows "i = j \<and> s = t"
proof -
  have minus: "\<not> is_digit (CHR ''-'')" by (simp add: is_digit_def)
  have no_minus: "CHR ''-'' # u \<noteq> show_nat n @ v" for u v n
    using minus show_nat_head [of n] by auto
  consider "i < 0" "j < 0" | "0 \<le> i" "0 \<le> j" | "i < 0" "0 \<le> j" | "0 \<le> i" "j < 0" by linarith
  then show ?thesis
  proof cases
    case 1
    then show ?thesis using assms show_nat_readable [of "nat (- i)" s "nat (- j)" t] by (auto simp: show_int_def)
  next
    case 2
    then show ?thesis using assms show_nat_readable [of "nat i" s "nat j" t] by (auto simp: show_int_def)
  next
    case 3
    then show ?thesis using assms(1) no_minus by (simp add: show_int_def)
  next
    case 4
    then show ?thesis using assms(1) no_minus [symmetric] by (simp add: show_int_def)
  qed
qed

text \<open>String literals end at the first quote that no backslash escapes: reading one escaped
  character back.\<close>

definition hex_value :: "char \<Rightarrow> nat" where
  "hex_value c = (let n = of_char c in if n < 58 then n - 48 else n - 87)"

lemma hex_value_digit [simp]: "n < 16 \<Longrightarrow> hex_value (hex_digit n) = n"
  by (simp add: hex_value_def hex_digit_def Let_def)

fun unescape :: "string \<Rightarrow> (char \<times> string) option" where
  "unescape [] = None"
| "unescape (c # s) =
     (if c \<noteq> CHR 0x5C then Some (c, s)
      else case s of
        [] \<Rightarrow> None
      | e # r \<Rightarrow>
          if e = CHR ''n'' then Some (CHR 0x0A, r)
          else if e = CHR ''r'' then Some (CHR 0x0D, r)
          else if e = CHR ''t'' then Some (CHR 0x09, r)
          else if e = CHR ''f'' then Some (CHR 0x0C, r)
          else if e = CHR ''b'' then Some (CHR 0x08, r)
          else if e = CHR ''u'' then
            (case r of _ # _ # h # l # r' \<Rightarrow> Some (char_of (16 * hex_value h + hex_value l), r') | _ \<Rightarrow> None)
          else Some (e, r))"

lemma code_points:
  "char_of (34 :: nat) = CHR 0x22" "char_of (92 :: nat) = CHR 0x5C" "char_of (10 :: nat) = CHR 0x0A"
  "char_of (13 :: nat) = CHR 0x0D" "char_of (9 :: nat) = CHR 0x09" "char_of (12 :: nat) = CHR 0x0C"
  "char_of (8 :: nat) = CHR 0x08"
  by code_simp+

lemma char_from_code:
  "of_char c = (34 :: nat) \<Longrightarrow> c = CHR 0x22" "of_char c = (92 :: nat) \<Longrightarrow> c = CHR 0x5C"
  "of_char c = (10 :: nat) \<Longrightarrow> c = CHR 0x0A" "of_char c = (13 :: nat) \<Longrightarrow> c = CHR 0x0D"
  "of_char c = (9 :: nat) \<Longrightarrow> c = CHR 0x09" "of_char c = (12 :: nat) \<Longrightarrow> c = CHR 0x0C"
  "of_char c = (8 :: nat) \<Longrightarrow> c = CHR 0x08"
  by (drule arg_cong [where f = char_of], simp add: code_points)+

lemma unescape_escape [simp]: "unescape (escape_char c @ s) = Some (c, s)"
proof -
  let ?n = "of_char c :: nat"
  have n: "?n div 16 < 16" using nat_of_char_less_256 [of c] by linarith
  have whole: "char_of (16 * (?n div 16) + ?n mod 16) = c" by simp
  consider "?n = 34" | "?n = 92" | "?n = 10" | "?n = 13" | "?n = 9" | "?n = 12" | "?n = 8"
    | "32 \<le> ?n \<and> ?n \<le> 126" "?n \<noteq> 92" "?n \<noteq> 34"
    | "\<not> (32 \<le> ?n \<and> ?n \<le> 126)" "?n \<notin> {8, 9, 10, 12, 13}" by auto
  then show ?thesis
  proof cases
    case 8
    moreover have "c \<noteq> CHR 0x5C" using 8 by auto
    ultimately show ?thesis by (simp add: escape_char_def Let_def)
  next
    case 9
    then have "escape_char c @ s =
        CHR 0x5C # CHR ''u'' # CHR ''0'' # CHR ''0'' # hex_digit (?n div 16) # hex_digit (?n mod 16) # s"
      by (auto simp: escape_char_def Let_def)
    then show ?thesis using n whole by simp
  qed (drule char_from_code, simp add: escape_char_def Let_def)+
qed

lemma escape_head: "\<exists>d ds. escape_char c = d # ds \<and> d \<noteq> CHR 0x22"
proof (cases "of_char c = (34 :: nat)")
  case False
  then have "c \<noteq> CHR 0x22" by auto
  then show ?thesis by (auto simp: escape_char_def Let_def)
qed (simp add: escape_char_def Let_def)

lemma escaped_readable:
  "concat (map escape_char a) @ CHR 0x22 # s = concat (map escape_char b) @ CHR 0x22 # t \<Longrightarrow> a = b \<and> s = t"
proof (induction a arbitrary: b)
  case Nil
  show ?case
  proof (cases b)
    case (Cons d b')
    obtain e es where "escape_char d = e # es" "e \<noteq> CHR 0x22" using escape_head by blast
    then show ?thesis using Nil Cons by simp
  qed (use Nil in simp)
next
  case (Cons c a)
  obtain e es where e: "escape_char c = e # es" "e \<noteq> CHR 0x22" using escape_head by blast
  obtain d b' where b: "b = d # b'" using Cons.prems e by (cases b) simp_all
  have "unescape (escape_char c @ concat (map escape_char a) @ CHR 0x22 # s) =
      unescape (escape_char d @ concat (map escape_char b') @ CHR 0x22 # t)" using Cons.prems b by simp
  then show ?case using Cons.IH [of b'] b by simp
qed

lemma json_string_readable: "json_string a @ s = json_string b @ t \<Longrightarrow> a = b \<and> s = t"
  unfolding json_string_def by (rule escaped_readable) simp

text \<open>Sequences of texts that are each uniquely readable.\<close>

definition readable :: "('a \<Rightarrow> string) \<Rightarrow> 'a \<Rightarrow> bool" where
  "readable f x \<longleftrightarrow> (\<forall>y s t. delimited s \<longrightarrow> delimited t \<longrightarrow> f x @ s = f y @ t \<longrightarrow> x = y \<and> s = t)"

lemma readableD: "readable f x \<Longrightarrow> f x @ s = f y @ t \<Longrightarrow> delimited s \<Longrightarrow> delimited t \<Longrightarrow> x = y \<and> s = t"
  by (auto simp: readable_def)

text \<open>What may open an element: never a closing bracket.\<close>

definition opens :: "('a \<Rightarrow> string) \<Rightarrow> bool" where
  "opens f \<longleftrightarrow> (\<forall>x. f x \<noteq> [] \<and> \<not> delimited (f x))"

lemma seq_text_not_delimited: "opens f \<Longrightarrow> xs \<noteq> [] \<Longrightarrow> \<not> delimited (seq_text close (map f xs) @ s)"
  by (cases xs; cases "tl xs") (auto simp: opens_def delimited_def)

lemma seq_text_readable:
  assumes "\<And>x. x \<in> set xs \<Longrightarrow> readable f x" and f: "opens f"
    and "seq_text close (map f xs) @ s = seq_text close (map f ys) @ t"
    and close: "close \<in> {CHR '']'', CHR ''}''}"
  shows "xs = ys \<and> s = t"
  using assms(1,3)
proof (induction xs arbitrary: ys)
  case Nil
  have "delimited (seq_text close (map f ys) @ t)" unfolding Nil(2) [symmetric] using close by auto
  then have "ys = []" using seq_text_not_delimited [OF f] by blast
  with Nil show ?case by simp
next
  case (Cons x xs)
  have "\<not> delimited (seq_text close (map f (x # xs)) @ s)" using seq_text_not_delimited [OF f] by blast
  then have "ys \<noteq> []" using Cons.prems(2) close by auto
  then obtain y ys' where ys: "ys = y # ys'" by (cases ys) auto
  define rest where "rest zs u = (if zs = [] then close # u else CHR '','' # seq_text close (map f zs) @ u)" for zs u
  have split: "seq_text close (map f (z # zs)) @ u = f z @ rest zs u" for z zs u
    by (cases zs) (simp_all add: rest_def)
  have delim: "delimited (rest zs u)" for zs u using close by (auto simp: rest_def)
  have "f x @ rest xs s = f y @ rest ys' t" using Cons.prems(2) by (simp only: ys split)
  then have xy: "x = y" and "rest xs s = rest ys' t"
    using readableD [of f x] Cons.prems(1) [of x] delim by auto
  moreover have "close \<noteq> CHR '',''" using close by auto
  ultimately have "seq_text close (map f xs) @ s = seq_text close (map f ys') @ t"
    by (auto simp: rest_def split: if_splits)
  then show ?case using Cons.IH [of ys'] Cons.prems(1) ys xy by simp
qed

text \<open>The head of a text tells the constructor.\<close>

fun opener :: "json \<Rightarrow> char \<Rightarrow> bool" where
  "opener JNull c = (c = CHR ''n'')"
| "opener (JBool b) c = (c = (if b then CHR ''t'' else CHR ''f''))"
| "opener (JInt i) c = (is_digit c \<or> c = CHR ''-'')"
| "opener (JStr s) c = (c = CHR 0x22)"
| "opener (JArr vs) c = (c = CHR ''['')"
| "opener (JObj items) c = (c = CHR ''{'')"

lemma show_int_head: "\<exists>c cs. show_int i = c # cs \<and> (is_digit c \<or> c = CHR ''-'')"
  using show_nat_head [of "nat i"] by (auto simp: show_int_def)

lemma json_text_head: "\<exists>c cs. json_text v = c # cs \<and> opener v c"
  using show_int_head by (cases v) (auto simp: json_string_def)

definition same_kind :: "json \<Rightarrow> json \<Rightarrow> bool" where
  "same_kind v w \<longleftrightarrow> (\<exists>c. opener v c \<and> opener w c)"

lemma json_text_same_kind: "json_text v @ s = json_text w @ t \<Longrightarrow> same_kind v w"
  using json_text_head [of v] json_text_head [of w] by (auto simp: same_kind_def)

lemma same_kind_cases:
  assumes "same_kind v w"
  obtains "v = JNull" "w = JNull" | b where "v = JBool b" "w = JBool b" | i j where "v = JInt i" "w = JInt j"
    | a b where "v = JStr a" "w = JStr b" | xs ys where "v = JArr xs" "w = JArr ys"
    | xs ys where "v = JObj xs" "w = JObj ys"
proof -
  have "\<not> is_digit (CHR ''n'')" "\<not> is_digit (CHR ''t'')" "\<not> is_digit (CHR ''f'')" "\<not> is_digit (CHR 0x22)"
    "\<not> is_digit (CHR ''['')" "\<not> is_digit (CHR ''{'')" by (simp_all add: is_digit_def)
  then show ?thesis using assms that by (cases v; cases w) (auto simp: same_kind_def split: if_splits)
qed

lemma opens_json_text: "opens json_text"
  unfolding opens_def
proof (intro allI conjI)
  fix v
  obtain c cs where "json_text v = c # cs" "opener v c" using json_text_head by blast
  then show "json_text v \<noteq> []" "\<not> delimited (json_text v)"
    by (cases v; auto simp: delimited_def is_digit_def split: if_splits)+
qed

definition member_text :: "string \<times> json \<Rightarrow> string" where
  "member_text = (\<lambda>(k, v). json_string k @ CHR '':'' # json_text v)"

lemma opens_member_text: "opens member_text"
  by (auto simp: opens_def member_text_def json_string_def delimited_def)

lemma member_text_readable: "readable json_text (snd p) \<Longrightarrow> readable member_text p"
  unfolding readable_def member_text_def
  by (cases p) (auto dest!: json_string_readable)

lemma readable_jsonI:
  assumes "\<And>w s t. same_kind v w \<Longrightarrow> json_text v @ s = json_text w @ t \<Longrightarrow> delimited s \<Longrightarrow> delimited t \<Longrightarrow> v = w \<and> s = t"
  shows "readable json_text v"
  unfolding readable_def
proof (intro allI impI)
  fix w s t assume "delimited s" "delimited t" and eq: "json_text v @ s = json_text w @ t"
  then show "v = w \<and> s = t" using assms [OF json_text_same_kind [OF eq] eq] by blast
qed

lemma json_text_readable: "readable json_text v"
proof (induction v)
  case (JArr vs)
  show ?case
  proof (rule readable_jsonI)
    fix w s t assume "same_kind (JArr vs) w" and eq: "json_text (JArr vs) @ s = json_text w @ t"
    then obtain ws where w: "w = JArr ws" by (elim same_kind_cases) auto
    show "JArr vs = w \<and> s = t"
      using seq_text_readable [OF JArr opens_json_text, of vs "CHR '']''" s ws t] eq w by simp
  qed
next
  case (JObj items)
  show ?case
  proof (rule readable_jsonI)
    fix w s t assume "same_kind (JObj items) w" and eq: "json_text (JObj items) @ s = json_text w @ t"
    then obtain ws where w: "w = JObj ws" by (elim same_kind_cases) auto
    have "readable member_text p" if "p \<in> set items" for p
      using that by (intro member_text_readable JObj [of p]) (cases p; auto)+
    then show "JObj items = w \<and> s = t"
      using seq_text_readable [OF _ opens_member_text, of items "CHR ''}''" s ws t] eq w
      by (simp add: member_text_def)
  qed
next
  case (JInt i)
  show ?case by (rule readable_jsonI) (elim same_kind_cases, auto dest: show_int_readable)
next
  case (JStr a)
  show ?case by (rule readable_jsonI) (elim same_kind_cases, auto dest: json_string_readable)
qed (rule readable_jsonI, elim same_kind_cases, auto split: if_splits)+

lemma json_text_inj: "json_text v = json_text w \<longleftrightarrow> v = w"
  using readableD [OF json_text_readable, of v "[]" w "[]"] by auto

lemma json_dumps_eq: "json_dumps v = json_dumps w \<longleftrightarrow> sort_keys v = sort_keys w"
  by (simp add: json_dumps_def json_text_inj)

end
