(* ===== verification/Calculation_Lineage.thy ===== *)
theory Calculation_Lineage
  imports Lot_State Py_Text Py_Json Sha256
begin

text \<open>
  Deterministic lineage of financial calculations: \<open>domain/calculation_lineage.py\<close>. Payloads are
  Python values of the supported kinds, over the type that stands for \<open>Decimal\<close> values; a mapping is an association list with distinct keys, where a
  key is \<open>None\<close> when it is not a string. The three digests of a lineage bind the inputs, the algorithm
  and the output of one calculation.
\<close>

section \<open>Payload values\<close>

datatype 'd payload_value =
    LNone
  | LBool bool
  | LInt int
  | LStr string
  | LFloat
  | LDecimal 'd
  | LDatetime py_datetime
  | LDate int
  | LEnum "'d payload_value"
  | LMap "(string option \<times> 'd payload_value) list"
  | LSet "'d payload_value list"
  | LSeq "'d payload_value list"
  | LOther string

type_synonym 'd payload = "(string option \<times> 'd payload_value) list"
type_synonym lineage_value = "py_decimal payload_value"

definition normalize_decimal_value :: "py_decimal \<Rightarrow> json res" where
  "normalize_decimal_value value =
     (case value of
        PyNonFinite \<Rightarrow> Inl (ValueError ''non-finite Decimal values are prohibited in calculation lineage'')
      | PyFinite neg digits exponent \<Rightarrow> Inr (JObj [(''decimal'', JStr (decimal_str neg digits exponent))]))"

definition normalize_datetime_value :: "py_datetime \<Rightarrow> json res" where
  "normalize_datetime_value value =
     (case utc_offset value of
        None \<Rightarrow> Inl (ValueError ''lineage datetime values must be timezone-aware'')
      | Some _ \<Rightarrow> Inr (JObj [(''datetime'', JStr (utc_isoformat (utc_us value)))]))"

definition require_mapping_key :: "string option \<Rightarrow> string res" where
  "require_mapping_key key =
     (case key of
        Some (c # cs) \<Rightarrow> Inr (c # cs)
      | _ \<Rightarrow> Inl (TypeError ''calculation lineage mapping keys must be nonblank strings''))"

text \<open>\<open>_canonical_sort_key\<close> is \<open>json_dumps\<close>.\<close>

fun normalize_lineage_value :: "lineage_value \<Rightarrow> json res" where
  "normalize_lineage_value LNone = Inr JNull"
| "normalize_lineage_value (LBool b) = Inr (JBool b)"
| "normalize_lineage_value (LInt i) = Inr (JInt i)"
| "normalize_lineage_value (LStr s) = Inr (JStr s)"
| "normalize_lineage_value LFloat =
     Inl (TypeError ''float values are prohibited in financial calculation lineage'')"
| "normalize_lineage_value (LDecimal d) = normalize_decimal_value d"
| "normalize_lineage_value (LDatetime t) = normalize_datetime_value t"
| "normalize_lineage_value (LDate ordinal) = Inr (JObj [(''date'', JStr (date_isoformat ordinal))])"
| "normalize_lineage_value (LEnum v) = normalize_lineage_value v"
| "normalize_lineage_value (LMap items) =
     rbind (rmap (\<lambda>item. rbind (require_mapping_key (fst item)) (\<lambda>key.
                  rbind (normalize_lineage_value (snd item)) (\<lambda>v. Inr (key, v)))) items) (\<lambda>members.
     Inr (JObj members))"
| "normalize_lineage_value (LSet items) =
     rbind (rmap normalize_lineage_value items) (\<lambda>vs. Inr (JArr (sort_key json_dumps vs)))"
| "normalize_lineage_value (LSeq items) =
     rbind (rmap normalize_lineage_value items) (\<lambda>vs. Inr (JArr vs))"
| "normalize_lineage_value (LOther type_name) =
     Inl (TypeError (''unsupported calculation lineage value: '' @ type_name))"

definition canonical_text :: "lineage_value \<Rightarrow> string res" where
  "canonical_text payload = rbind (normalize_lineage_value payload) (\<lambda>v. Inr (json_dumps v))"

definition canonical_content_hash :: "lineage_value \<Rightarrow> string res" where
  "canonical_content_hash payload = rbind (canonical_text payload) (\<lambda>text. Inr (sha256 text))"

section \<open>Lineage records\<close>

record numeric_output_policy =
  nop_name :: string
  nop_version :: string
  nop_precision :: int
  nop_scale :: int
  nop_working_precision :: int
  nop_rounding :: string

definition nonblank_stripped :: "string \<Rightarrow> string \<Rightarrow> string res" where
  "nonblank_stripped field_name value =
     rbind (require (py_strip value \<noteq> []) (ValueError (field_name @ '' must be nonblank''))) (\<lambda>_.
     Inr (py_strip value))"

definition NumericOutputPolicyLineage :: "numeric_output_policy \<Rightarrow> numeric_output_policy res" where
  "NumericOutputPolicyLineage p =
     rbind (nonblank_stripped ''name'' (nop_name p)) (\<lambda>name.
     rbind (nonblank_stripped ''version'' (nop_version p)) (\<lambda>version.
     rbind (nonblank_stripped ''rounding'' (nop_rounding p)) (\<lambda>rounding.
     rbind (require (1 \<le> nop_precision p) (ValueError ''precision must be positive'')) (\<lambda>_.
     rbind (require (\<not> (nop_scale p < 0 \<or> nop_precision p < nop_scale p))
              (ValueError ''scale must be between zero and precision'')) (\<lambda>_.
     rbind (require (nop_precision p \<le> nop_working_precision p)
              (ValueError ''working_precision must be at least precision'')) (\<lambda>_.
     Inr (p\<lparr>nop_name := name, nop_version := version, nop_rounding := rounding\<rparr>)))))))"

definition numeric_policy_payload :: "numeric_output_policy \<Rightarrow> 'd payload_value" where
  "numeric_policy_payload p =
     LMap [(Some ''name'', LStr (nop_name p)), (Some ''precision'', LInt (nop_precision p)),
           (Some ''rounding'', LStr (nop_rounding p)), (Some ''scale'', LInt (nop_scale p)),
           (Some ''version'', LStr (nop_version p)),
           (Some ''working_precision'', LInt (nop_working_precision p))]"

record calculation_lineage =
  algorithm_id :: string
  algorithm_version :: int
  intermediate_precision :: int
  input_content_hash :: string
  calculation_content_hash :: string
  output_content_hash :: string
  numeric_output_policy_of :: "numeric_output_policy option"

definition CalculationLineage :: "calculation_lineage \<Rightarrow> calculation_lineage res" where
  "CalculationLineage l =
     rbind (require (py_strip (algorithm_id l) \<noteq> []) (ValueError ''algorithm_id must be nonblank'')) (\<lambda>_.
     rbind (require (1 \<le> algorithm_version l) (ValueError ''algorithm_version must be positive'')) (\<lambda>_.
     rbind (require (1 \<le> intermediate_precision l)
              (ValueError ''intermediate_precision must be positive'')) (\<lambda>_.
     rbind (require_sha256_digest (input_content_hash l) ''input_content_hash'') (\<lambda>_.
     rbind (require_sha256_digest (calculation_content_hash l) ''calculation_content_hash'') (\<lambda>_.
     rbind (require_sha256_digest (output_content_hash l) ''output_content_hash'') (\<lambda>_.
     Inr l))))))"

definition policy_member :: "numeric_output_policy option \<Rightarrow> 'd payload" where
  "policy_member policy =
     (case policy of None \<Rightarrow> [] | Some p \<Rightarrow> [(Some ''numeric_output_policy'', numeric_policy_payload p)])"

definition lineage_payload_of :: "calculation_lineage \<Rightarrow> 'd payload_value" where
  "lineage_payload_of l =
     LMap ([(Some ''algorithm_id'', LStr (algorithm_id l)),
            (Some ''algorithm_version'', LInt (algorithm_version l)),
            (Some ''calculation_content_hash'', LStr (calculation_content_hash l)),
            (Some ''input_content_hash'', LStr (input_content_hash l)),
            (Some ''intermediate_precision'', LInt (intermediate_precision l)),
            (Some ''output_content_hash'', LStr (output_content_hash l))] @
           policy_member (numeric_output_policy_of l))"

record financial_source_reference =
  source_system :: string
  source_record_id :: string
  source_revision :: string
  source_content_hash :: string
  observed_at :: py_datetime

definition FinancialSourceReference :: "financial_source_reference \<Rightarrow> financial_source_reference res" where
  "FinancialSourceReference r =
     rbind (nonblank_stripped ''source_system'' (source_system r)) (\<lambda>system.
     rbind (nonblank_stripped ''source_record_id'' (source_record_id r)) (\<lambda>record_id.
     rbind (nonblank_stripped ''source_revision'' (source_revision r)) (\<lambda>revision.
     rbind (require_sha256_digest (source_content_hash r) ''source_content_hash'') (\<lambda>_.
     rbind (require (utc_offset (observed_at r) \<noteq> None) (ValueError ''observed_at must be timezone-aware'')) (\<lambda>_.
     Inr (r\<lparr>source_system := system, source_record_id := record_id, source_revision := revision\<rparr>))))))"

definition source_reference_payload :: "financial_source_reference \<Rightarrow> 'd payload_value" where
  "source_reference_payload r =
     LMap [(Some ''observed_at'', LDatetime (observed_at r)),
           (Some ''source_content_hash'', LStr (source_content_hash r)),
           (Some ''source_record_id'', LStr (py_strip (source_record_id r))),
           (Some ''source_revision'', LStr (py_strip (source_revision r))),
           (Some ''source_system'', LStr (py_strip (source_system r)))]"

text \<open>\<open>lineage_identity\<close> of a calculated-output policy.\<close>

definition lineage_identity :: "calc_policy \<Rightarrow> numeric_output_policy res" where
  "lineage_identity cp =
     NumericOutputPolicyLineage
       \<lparr>nop_name = cp_name cp, nop_version = cp_version cp, nop_precision = cp_precision cp,
        nop_scale = cp_scale cp, nop_working_precision = cp_working_precision cp,
        nop_rounding = cp_rounding cp\<rparr>"

section \<open>Building and verifying\<close>

text \<open>The calculation payload, which \<open>build_calculation_lineage\<close> and the verification each write out.\<close>

definition calculation_payload ::
  "string \<Rightarrow> int \<Rightarrow> string \<Rightarrow> int \<Rightarrow> numeric_output_policy option \<Rightarrow> lineage_value" where
  "calculation_payload algorithm version input_hash precision policy =
     LMap ([(Some ''algorithm_id'', LStr algorithm), (Some ''algorithm_version'', LInt version),
            (Some ''input_content_hash'', LStr input_hash),
            (Some ''intermediate_precision'', LInt precision)] @ policy_member policy)"

definition output_envelope :: "string \<Rightarrow> lineage_value \<Rightarrow> lineage_value" where
  "output_envelope calculation_hash output_payload =
     LMap [(Some ''calculation_content_hash'', LStr calculation_hash), (Some ''output'', output_payload)]"

definition build_calculation_lineage ::
  "string \<Rightarrow> int \<Rightarrow> int \<Rightarrow> lineage_value \<Rightarrow> lineage_value \<Rightarrow> numeric_output_policy option \<Rightarrow> calculation_lineage res" where
  "build_calculation_lineage algorithm version precision input_payload output_payload policy =
     (let normalized_algorithm_id = py_strip algorithm in
      rbind (require (normalized_algorithm_id \<noteq> []) (ValueError ''algorithm_id must be nonblank'')) (\<lambda>_.
      rbind (require (1 \<le> version) (ValueError ''algorithm_version must be positive'')) (\<lambda>_.
      rbind (require (1 \<le> precision) (ValueError ''intermediate_precision must be positive'')) (\<lambda>_.
      rbind (canonical_content_hash input_payload) (\<lambda>input_hash.
      rbind (canonical_content_hash
               (calculation_payload normalized_algorithm_id version input_hash precision policy)) (\<lambda>calculation_hash.
      rbind (canonical_content_hash (output_envelope calculation_hash output_payload)) (\<lambda>output_hash.
      CalculationLineage
        \<lparr>algorithm_id = normalized_algorithm_id, algorithm_version = version,
         intermediate_precision = precision, input_content_hash = input_hash,
         calculation_content_hash = calculation_hash, output_content_hash = output_hash,
         numeric_output_policy_of = policy\<rparr>)))))))"

definition calculation_lineage_binds_output :: "calculation_lineage \<Rightarrow> lineage_value \<Rightarrow> bool res" where
  "calculation_lineage_binds_output l output_payload =
     rbind (canonical_content_hash
              (calculation_payload (algorithm_id l) (algorithm_version l) (input_content_hash l)
                 (intermediate_precision l) (numeric_output_policy_of l))) (\<lambda>expected.
     if calculation_content_hash l \<noteq> expected then Inr False
     else rbind (canonical_content_hash (output_envelope expected output_payload)) (\<lambda>output_hash.
          Inr (output_content_hash l = output_hash)))"

section \<open>Rehydration\<close>

definition payload_get :: "py_decimal payload \<Rightarrow> string \<Rightarrow> lineage_value" where
  "payload_get payload key = (case map_of payload (Some key) of None \<Rightarrow> LNone | Some v \<Rightarrow> v)"

definition required_payload_string :: "py_decimal payload \<Rightarrow> string \<Rightarrow> string res" where
  "required_payload_string payload key =
     (case payload_get payload key of LStr s \<Rightarrow> Inr s | _ \<Rightarrow> Inl (TypeError (key @ '' must be a string'')))"

definition required_payload_int :: "py_decimal payload \<Rightarrow> string \<Rightarrow> int res" where
  "required_payload_int payload key =
     (case payload_get payload key of LInt i \<Rightarrow> Inr i | _ \<Rightarrow> Inl (TypeError (key @ '' must be an integer'')))"

definition numeric_policy_from_payload ::
  "lineage_value \<Rightarrow> numeric_output_policy option res" where
  "numeric_policy_from_payload value =
     (case value of
        LNone \<Rightarrow> Inr None
      | LMap payload \<Rightarrow>
          rbind (required_payload_string payload ''name'') (\<lambda>name.
          rbind (required_payload_string payload ''version'') (\<lambda>version.
          rbind (required_payload_int payload ''precision'') (\<lambda>precision.
          rbind (required_payload_int payload ''scale'') (\<lambda>scale.
          rbind (required_payload_int payload ''working_precision'') (\<lambda>working.
          rbind (required_payload_string payload ''rounding'') (\<lambda>rounding.
          rbind (NumericOutputPolicyLineage
                   \<lparr>nop_name = name, nop_version = version, nop_precision = precision, nop_scale = scale,
                    nop_working_precision = working, nop_rounding = rounding\<rparr>) (\<lambda>p.
          Inr (Some p))))))))
      | _ \<Rightarrow> Inl (TypeError ''numeric_output_policy must be an object''))"

definition calculation_lineage_from_payload :: "lineage_value \<Rightarrow> calculation_lineage option res" where
  "calculation_lineage_from_payload value =
     (case value of
        LNone \<Rightarrow> Inr None
      | LMap payload \<Rightarrow>
          rbind (numeric_policy_from_payload (payload_get payload ''numeric_output_policy'')) (\<lambda>policy.
          rbind (required_payload_string payload ''algorithm_id'') (\<lambda>algorithm.
          rbind (required_payload_int payload ''algorithm_version'') (\<lambda>version.
          rbind (required_payload_int payload ''intermediate_precision'') (\<lambda>precision.
          rbind (required_payload_string payload ''input_content_hash'') (\<lambda>input_hash.
          rbind (required_payload_string payload ''calculation_content_hash'') (\<lambda>calculation_hash.
          rbind (required_payload_string payload ''output_content_hash'') (\<lambda>output_hash.
          rbind (CalculationLineage
                   \<lparr>algorithm_id = algorithm, algorithm_version = version, intermediate_precision = precision,
                    input_content_hash = input_hash, calculation_content_hash = calculation_hash,
                    output_content_hash = output_hash, numeric_output_policy_of = policy\<rparr>) (\<lambda>l.
          Inr (Some l)))))))))
      | _ \<Rightarrow> Inl (TypeError ''calculation lineage payload must be an object''))"

end
