(* ===== verification/Canonical_Payload.thy ===== *)
theory Canonical_Payload
  imports Calculation_Lineage
begin

text \<open>
  The canonical payloads of cost-basis receipts, the first part of
  \<open>domain/cost_basis_receipt_integrity.py\<close>. A payload whose amounts are still values becomes a
  lineage payload by writing every amount at the scale of the cost-basis state policy, so its text
  depends on the value only. (A negative zero, which has the same value as zero, is outside the
  model; no \<open>Enum\<close> of the sources has amounts as values.)
\<close>

section \<open>Canonical amounts\<close>

function int_digits :: "int \<Rightarrow> nat list" where
  "int_digits i = (if i < 10 then [nat i] else int_digits (i div 10) @ [nat (i mod 10)])"
  by pat_completeness auto
termination
  by (relation "measure nat") auto

declare int_digits.simps [simp del]

text \<open>\<open>normalized.quantize(Decimal(1).scaleb(-10))\<close> of an amount with at most ten decimal places. An
  amount is its value here, so a negative zero is written as zero.\<close>

definition quantized_decimal :: "rat \<Rightarrow> py_decimal" where
  "quantized_decimal x = PyFinite (x < 0) (int_digits \<lfloor>\<bar>x\<bar> * 10 ^ 10\<rfloor>) (-10)"

definition key_text :: "string option \<Rightarrow> string" where
  "key_text key = (case key of Some k \<Rightarrow> k | None \<Rightarrow> [])"

definition index_paths :: "string \<Rightarrow> nat \<Rightarrow> string list" where
  "index_paths path n = map (\<lambda>i. path @ ''['' @ show_nat i @ '']'') [0..<n]"

lemma path_size:
  fixes v :: "rat payload_value"
  shows "item \<in> set items \<Longrightarrow> size (snd item) < Suc (size_list (size_prod (\<lambda>_. 0) size) items)"
  "v \<in> set vs \<Longrightarrow> size v < Suc (size_list size vs)"
  "(p, v) \<in> set (zip ps vs) \<Longrightarrow> size v < Suc (size_list size vs)"
proof -
  have member: "size w < Suc (size_list size ws)" if "w \<in> set ws" for w :: "rat payload_value" and ws
    using that size_list_estimation' [OF that, of "size w" size] by simp
  show "size (snd item) < Suc (size_list (size_prod (\<lambda>_. 0) size) items)" if "item \<in> set items"
    using that by (induction items) auto
  show "v \<in> set vs \<Longrightarrow> size v < Suc (size_list size vs)"
    and "(p, v) \<in> set (zip ps vs) \<Longrightarrow> size v < Suc (size_list size vs)"
    using member set_zip_rightD by fastforce+
qed

text \<open>The code returns an enum member unchanged; the enums of the payloads carry texts, so the
  conversion of amounts under \<open>LEnum\<close> only changes the type.\<close>

function canonical_cost_basis_output :: "string \<Rightarrow> rat payload_value \<Rightarrow> lineage_value res" where
  "canonical_cost_basis_output path LNone = Inr LNone"
| "canonical_cost_basis_output path (LBool b) = Inr (LBool b)"
| "canonical_cost_basis_output path (LInt i) = Inr (LInt i)"
| "canonical_cost_basis_output path (LStr s) = Inr (LStr s)"
| "canonical_cost_basis_output path LFloat = Inr LFloat"
| "canonical_cost_basis_output path (LDecimal x) =
     rbind (normalize state_policy path x) (\<lambda>n. Inr (LDecimal (quantized_decimal n)))"
| "canonical_cost_basis_output path (LDatetime t) = Inr (LDatetime t)"
| "canonical_cost_basis_output path (LDate d) = Inr (LDate d)"
| "canonical_cost_basis_output path (LEnum v) = Inr (LEnum (map_payload_value quantized_decimal v))"
| "canonical_cost_basis_output path (LMap items) =
     rbind (rmap (\<lambda>item. rbind (canonical_cost_basis_output (path @ ''.'' @ key_text (fst item)) (snd item))
              (\<lambda>v. Inr (fst item, v))) items) (\<lambda>members. Inr (LMap members))"
| "canonical_cost_basis_output path (LSet items) =
     rbind (rmap (canonical_cost_basis_output (path @ ''[]'')) items) (\<lambda>vs. Inr (LSet (remdups vs)))"
| "canonical_cost_basis_output path (LSeq items) =
     rbind (rmap (\<lambda>item. canonical_cost_basis_output (fst item) (snd item))
              (zip (index_paths path (length items)) items)) (\<lambda>vs. Inr (LSeq vs))"
| "canonical_cost_basis_output path (LOther t) = Inr (LOther t)"
  by pat_completeness auto
termination
  by (relation "measure (\<lambda>(path, v). size v)") (auto simp: path_size)

definition canonical_cost_basis_output_payload :: "rat payload \<Rightarrow> lineage_value res" where
  "canonical_cost_basis_output_payload payload =
     rbind (rmap (\<lambda>item. rbind (canonical_cost_basis_output (key_text (fst item)) (snd item))
              (\<lambda>v. Inr (fst item, v))) payload) (\<lambda>members. Inr (LMap members))"

definition cost_basis_receipt_semantic_hash :: "rat payload \<Rightarrow> string res" where
  "cost_basis_receipt_semantic_hash payload =
     rbind (canonical_cost_basis_output_payload payload) canonical_content_hash"

end
