(* ===== verification/Disposal_Allocation.thy ===== *)
theory Disposal_Allocation
  imports Canonical_Payload
begin

text \<open>
  The immutable evidence a strategy returns: \<open>disposal_allocation.py\<close> and
  \<open>basis_transfer_allocation.py\<close> of \<open>domain/cost_basis/calculation\<close>. Every constructor is a
  function that returns the validated record or raises. The lineage a successful result carries is
  not a field of the records: the constructors perform the normalisation of every amount that enters
  the lineage payload, which can raise, and \<open>Receipt_Integrity\<close> builds the lineage itself.
\<close>

section \<open>Failure reasons\<close>

text \<open>The strategies' failure messages. Those that format amounts keep the amounts as arguments.\<close>

datatype failure_reason =
    Reason string
  | SellQuantityNegative rat
  | SellExceedsHoldings rat rat
  | SellExceedsAverageHoldings rat rat
  | BasisTransferExceeds rat rat rat rat

text \<open>\<open>reason.strip()\<close>; the formatted messages neither start nor end with white space.\<close>

fun strip_reason :: "failure_reason \<Rightarrow> failure_reason" where
  "strip_reason (Reason s) = Reason (py_strip s)"
| "strip_reason r = r"

section \<open>Source-lot disposal allocations\<close>

definition required_text :: "string \<Rightarrow> string \<Rightarrow> string res" where
  "required_text value field_name =
     rbind (require (py_strip value \<noteq> []) (ValueError (field_name @ '' must be nonblank''))) (\<lambda>_.
     Inr (py_strip value))"

definition require_decimal :: "rat \<Rightarrow> string \<Rightarrow> bool \<Rightarrow> bool \<Rightarrow> unit res" where
  "require_decimal value field_name positive allow_negative =
     require (\<not> ((\<not> allow_negative \<and> value < 0) \<or> (positive \<and> value = 0)))
       (ValueError (field_name @ '' must be '' @ (if positive then ''positive'' else ''non-negative'')))"

text \<open>Carrying-amount evidence for the allocation of an amortized-cost lot.\<close>

record amortized_cost_allocation_evidence =
  ace_profile_id :: string
  ace_profile_version :: int
  ace_profile_content_hash :: string
  ace_currency :: string
  ace_disposal_date :: int
  ace_recognized_through_date :: int
  ace_original_quantity :: rat
  ace_open_quantity_before :: rat
  ace_consumed_quantity :: rat
  ace_residual_quantity :: rat
  ace_scheduled_cost_local :: rat
  ace_current_cost_local :: rat
  ace_current_cost_base :: rat
  ace_consumed_cost_local :: rat
  ace_residual_cost_local :: rat
  ace_book_cost_fx_rate_to_base :: rat
  ace_consumed_cost_base :: rat
  ace_residual_cost_base :: rat
  ace_retained_rounding_residual_local :: rat
  ace_retained_rounding_residual_base :: rat
  ace_calculation_lineage :: calculation_lineage

definition evidence_output :: "amortized_cost_allocation_evidence \<Rightarrow> rat payload" where
  "evidence_output e =
     [(Some ''consumed_cost_base'', LDecimal (ace_consumed_cost_base e)),
      (Some ''consumed_cost_local'', LDecimal (ace_consumed_cost_local e)),
      (Some ''consumed_quantity'', LDecimal (ace_consumed_quantity e)),
      (Some ''current_cost_base'', LDecimal (ace_current_cost_base e)),
      (Some ''current_cost_local'', LDecimal (ace_current_cost_local e)),
      (Some ''open_quantity_before'', LDecimal (ace_open_quantity_before e)),
      (Some ''recognized_through_date'', LDate (ace_recognized_through_date e)),
      (Some ''residual_cost_base'', LDecimal (ace_residual_cost_base e)),
      (Some ''residual_cost_local'', LDecimal (ace_residual_cost_local e)),
      (Some ''residual_quantity'', LDecimal (ace_residual_quantity e)),
      (Some ''retained_rounding_residual_base'', LDecimal (ace_retained_rounding_residual_base e)),
      (Some ''retained_rounding_residual_local'', LDecimal (ace_retained_rounding_residual_local e)),
      (Some ''scheduled_cost_local'', LDecimal (ace_scheduled_cost_local e))]"

definition evidence_output_payload :: "amortized_cost_allocation_evidence \<Rightarrow> lineage_value res" where
  "evidence_output_payload e = canonical_cost_basis_output_payload (evidence_output e)"

definition evidence_payload :: "amortized_cost_allocation_evidence \<Rightarrow> rat payload" where
  "evidence_payload e =
     [(Some ''calculation_lineage'', lineage_payload_of (ace_calculation_lineage e)),
      (Some ''consumed_cost_base'', LDecimal (ace_consumed_cost_base e)),
      (Some ''consumed_cost_local'', LDecimal (ace_consumed_cost_local e)),
      (Some ''consumed_quantity'', LDecimal (ace_consumed_quantity e)),
      (Some ''currency'', LStr (ace_currency e)),
      (Some ''current_cost_local'', LDecimal (ace_current_cost_local e)),
      (Some ''current_cost_base'', LDecimal (ace_current_cost_base e)),
      (Some ''disposal_date'', LDate (ace_disposal_date e)),
      (Some ''book_cost_fx_rate_to_base'', LDecimal (ace_book_cost_fx_rate_to_base e)),
      (Some ''original_quantity'', LDecimal (ace_original_quantity e)),
      (Some ''open_quantity_before'', LDecimal (ace_open_quantity_before e)),
      (Some ''profile_content_hash'', LStr (ace_profile_content_hash e)),
      (Some ''profile_id'', LStr (ace_profile_id e)),
      (Some ''profile_version'', LInt (ace_profile_version e)),
      (Some ''recognized_through_date'', LDate (ace_recognized_through_date e)),
      (Some ''residual_cost_base'', LDecimal (ace_residual_cost_base e)),
      (Some ''residual_cost_local'', LDecimal (ace_residual_cost_local e)),
      (Some ''residual_quantity'', LDecimal (ace_residual_quantity e)),
      (Some ''retained_rounding_residual_base'', LDecimal (ace_retained_rounding_residual_base e)),
      (Some ''retained_rounding_residual_local'', LDecimal (ace_retained_rounding_residual_local e)),
      (Some ''scheduled_cost_local'', LDecimal (ace_scheduled_cost_local e))]"

text \<open>The amounts of the evidence in the order of their validation, each with its name and whether it
  must be positive and may be negative.\<close>

definition evidence_amounts :: "amortized_cost_allocation_evidence \<Rightarrow> (string \<times> rat \<times> bool \<times> bool) list" where
  "evidence_amounts e =
     [(''original_quantity'', ace_original_quantity e, True, False),
      (''open_quantity_before'', ace_open_quantity_before e, True, False),
      (''consumed_quantity'', ace_consumed_quantity e, True, False),
      (''residual_quantity'', ace_residual_quantity e, False, False),
      (''scheduled_cost_local'', ace_scheduled_cost_local e, False, False),
      (''current_cost_local'', ace_current_cost_local e, False, False),
      (''current_cost_base'', ace_current_cost_base e, False, False),
      (''consumed_cost_local'', ace_consumed_cost_local e, False, False),
      (''residual_cost_local'', ace_residual_cost_local e, False, False),
      (''book_cost_fx_rate_to_base'', ace_book_cost_fx_rate_to_base e, True, False),
      (''consumed_cost_base'', ace_consumed_cost_base e, False, False),
      (''residual_cost_base'', ace_residual_cost_base e, False, False),
      (''retained_rounding_residual_local'', ace_retained_rounding_residual_local e, False, True),
      (''retained_rounding_residual_base'', ace_retained_rounding_residual_base e, False, True)]"

definition AmortizedCostAllocationEvidence ::
  "amortized_cost_allocation_evidence \<Rightarrow> amortized_cost_allocation_evidence res" where
  "AmortizedCostAllocationEvidence e =
     rbind (required_text (ace_profile_id e) ''profile_id'') (\<lambda>profile.
     rbind (required_text (ace_currency e) ''currency'') (\<lambda>currency_code.
     rbind (require (1 \<le> ace_profile_version e) (ValueError ''profile_version must be positive'')) (\<lambda>_.
     rbind (require_sha256_digest (ace_profile_content_hash e) ''profile_content_hash'') (\<lambda>_.
     rbind (require (\<not> ace_recognized_through_date e > ace_disposal_date e)
              (ValueError ''recognized_through_date must not be after disposal_date'')) (\<lambda>_.
     rbind (rmap (\<lambda>(f, v, positive, negative). require_decimal v f positive negative) (evidence_amounts e)) (\<lambda>_.
     rbind (require (\<not> ace_open_quantity_before e > ace_original_quantity e)
              (ValueError ''open_quantity_before must not exceed original_quantity'')) (\<lambda>_.
     rbind (require (dec_add ambient (ace_consumed_quantity e) (ace_residual_quantity e) = ace_open_quantity_before e)
              (ValueError ''amortized-cost quantity does not conserve the pre-disposal lot'')) (\<lambda>_.
     rbind (require (dec_add ambient (ace_consumed_cost_local e) (ace_residual_cost_local e) = ace_current_cost_local e)
              (ValueError ''amortized local cost does not conserve current lot cost'')) (\<lambda>_.
     rbind (require (dec_add ambient (ace_consumed_cost_base e) (ace_residual_cost_base e) = ace_current_cost_base e)
              (ValueError ''amortized base cost does not conserve current lot cost'')) (\<lambda>_.
     rbind (evidence_output_payload e) (\<lambda>output_payload.
     rbind (calculation_lineage_binds_output (ace_calculation_lineage e) output_payload) (\<lambda>bound.
     rbind (require bound (ValueError ''amortized-cost evidence does not match calculation lineage'')) (\<lambda>_.
     Inr (e\<lparr>ace_profile_id := profile, ace_currency := currency_code\<rparr>))))))))))))))"

record source_lot_disposal_allocation =
  source_lot_id :: string
  source_transaction_id :: string
  source_acquisition_date :: int
  allocation_ordinal :: nat
  consumed_quantity :: rat
  consumed_cost_local :: rat
  consumed_cost_base :: rat
  source_original_quantity :: "rat option"
  source_open_quantity_before :: "rat option"
  amortized_cost_evidence :: "amortized_cost_allocation_evidence option"

definition SourceLotDisposalAllocation ::
  "source_lot_disposal_allocation \<Rightarrow> source_lot_disposal_allocation res" where
  "SourceLotDisposalAllocation a =
     rbind (required_text (source_lot_id a) ''source_lot_id'') (\<lambda>lid.
     rbind (required_text (source_transaction_id a) ''source_transaction_id'') (\<lambda>tid.
     rbind (require (1 \<le> allocation_ordinal a) (ValueError ''allocation_ordinal must be positive'')) (\<lambda>_.
     rbind (require_decimal (consumed_quantity a) ''consumed_quantity'' True False) (\<lambda>_.
     rbind (require_decimal (consumed_cost_local a) ''consumed_cost_local'' False False) (\<lambda>_.
     rbind (require_decimal (consumed_cost_base a) ''consumed_cost_base'' False False) (\<lambda>_.
     rbind (case (source_original_quantity a, source_open_quantity_before a) of
              (None, None) \<Rightarrow> Inr ()
            | (Some original, Some open_before) \<Rightarrow>
                rbind (require_decimal original ''source_original_quantity'' True False) (\<lambda>_.
                rbind (require_decimal open_before ''source_open_quantity_before'' True False) (\<lambda>_.
                rbind (require (open_before \<le> original)
                         (ValueError ''source open quantity must not exceed original quantity'')) (\<lambda>_.
                require (consumed_quantity a \<le> open_before)
                  (ValueError ''consumed quantity must not exceed source open quantity''))))
            | _ \<Rightarrow> Inl (ValueError ''source quantity authority must be complete when supplied'')) (\<lambda>_.
     rbind (case amortized_cost_evidence a of
              None \<Rightarrow> Inr ()
            | Some e \<Rightarrow>
                require (\<not> (ace_consumed_quantity e \<noteq> consumed_quantity a \<or>
                           ace_consumed_cost_local e \<noteq> consumed_cost_local a \<or>
                           ace_consumed_cost_base e \<noteq> consumed_cost_base a))
                  (ValueError ''amortized-cost evidence must match allocated quantity and cost'')) (\<lambda>_.
     Inr (a\<lparr>source_lot_id := lid, source_transaction_id := tid\<rparr>)))))))))"

section \<open>Disposal results\<close>

record lot_disposal_result =
  ldr_cost_base :: rat
  ldr_cost_local :: rat
  ldr_consumed_quantity :: rat
  ldr_allocations :: "source_lot_disposal_allocation list"
  ldr_error_reason :: "failure_reason option"

text \<open>A running total kept with \<open>policy.add\<close>.\<close>

fun policy_sum :: "string \<Rightarrow> rat \<Rightarrow> rat list \<Rightarrow> rat res" where
  "policy_sum f acc [] = Inr acc"
| "policy_sum f acc (x # xs) = rbind (policy_add state_policy f acc x) (\<lambda>t. policy_sum f t xs)"

text \<open>The loop of \<open>_build_conserved_allocation_lineage\<close>: the three totals grow together.\<close>

fun allocated_totals ::
  "source_lot_disposal_allocation list \<Rightarrow> rat \<Rightarrow> rat \<Rightarrow> rat \<Rightarrow> (rat \<times> rat \<times> rat) res" where
  "allocated_totals [] quantity cost_local cost_base = Inr (quantity, cost_local, cost_base)"
| "allocated_totals (a # as) quantity cost_local cost_base =
     rbind (policy_add state_policy ''allocated_disposal_quantity'' quantity (consumed_quantity a)) (\<lambda>q.
     rbind (policy_add state_policy ''allocated_disposal_cost_local'' cost_local (consumed_cost_local a)) (\<lambda>l.
     rbind (policy_add state_policy ''allocated_disposal_cost_base'' cost_base (consumed_cost_base a)) (\<lambda>b.
     allocated_totals as q l b)))"

text \<open>
  \<open>canonical_cost_basis_output_payload\<close> on the named amounts of a lineage payload: every amount
  is normalised in order, and the canonical amounts are what the lineage hashes bind.
\<close>

definition canonical_amounts :: "(string \<times> rat) list \<Rightarrow> (string \<times> rat) list res" where
  "canonical_amounts payload =
     rmap (\<lambda>(path, amount). rbind (normalize state_policy path amount) (\<lambda>n. Inr (path, n))) payload"

definition allocation_path :: "nat \<Rightarrow> string \<Rightarrow> string" where
  "allocation_path i field = ''allocations['' @ show_nat i @ ''].'' @ field"

text \<open>The amounts of a flat payload, in its order.\<close>

definition payload_amounts :: "rat payload \<Rightarrow> (string \<times> rat) list" where
  "payload_amounts payload =
     concat (map (\<lambda>(key, v). case v of LDecimal amount \<Rightarrow> [(key_text key, amount)] | _ \<Rightarrow> []) payload)"

definition allocation_lineage_amounts :: "nat \<Rightarrow> source_lot_disposal_allocation \<Rightarrow> (string \<times> rat) list" where
  "allocation_lineage_amounts i a =
     [(allocation_path i ''consumed_cost_base'', consumed_cost_base a),
      (allocation_path i ''consumed_cost_local'', consumed_cost_local a),
      (allocation_path i ''consumed_quantity'', consumed_quantity a)] @
     (case amortized_cost_evidence a of
        None \<Rightarrow> []
      | Some e \<Rightarrow>
          map (\<lambda>(field, amount). (allocation_path i (''amortized_cost_evidence.'' @ field), amount))
            (payload_amounts (evidence_payload e)))"

definition lot_disposal_lineage_input_payload ::
  "source_lot_disposal_allocation list \<Rightarrow> (string \<times> rat) list" where
  "lot_disposal_lineage_input_payload as =
     concat (map (\<lambda>(i, a). allocation_lineage_amounts i a) (enumerate 0 as))"

definition lot_disposal_lineage_output_payload :: "lot_disposal_result \<Rightarrow> (string \<times> rat) list" where
  "lot_disposal_lineage_output_payload r =
     [(''consumed_cost_base'', ldr_cost_base r), (''consumed_cost_local'', ldr_cost_local r),
      (''consumed_quantity'', ldr_consumed_quantity r)]"

definition build_conserved_allocation_lineage :: "lot_disposal_result \<Rightarrow> unit res" where
  "build_conserved_allocation_lineage r =
     rbind (allocated_totals (ldr_allocations r) 0 0 0) (\<lambda>(quantity, cost_local, cost_base).
     rbind (require (quantity = ldr_consumed_quantity r)
              (ValueError ''source-lot allocation quantity does not reconcile to disposal aggregate'')) (\<lambda>_.
     rbind (require (cost_local = ldr_cost_local r)
              (ValueError ''source-lot local cost does not reconcile to disposal aggregate'')) (\<lambda>_.
     rbind (require (cost_base = ldr_cost_base r)
              (ValueError ''source-lot base cost does not reconcile to disposal aggregate'')) (\<lambda>_.
     rbind (canonical_amounts (lot_disposal_lineage_input_payload (ldr_allocations r))) (\<lambda>_.
     rbind (canonical_amounts (lot_disposal_lineage_output_payload r)) (\<lambda>_.
     Inr ()))))))"

definition LotDisposalResult :: "lot_disposal_result \<Rightarrow> lot_disposal_result res" where
  "LotDisposalResult r =
     rbind (require_decimal (ldr_cost_base r) ''cost_base'' False False) (\<lambda>_.
     rbind (require_decimal (ldr_cost_local r) ''cost_local'' False False) (\<lambda>_.
     rbind (require_decimal (ldr_consumed_quantity r) ''consumed_quantity'' False False) (\<lambda>_.
     rbind (require (map allocation_ordinal (ldr_allocations r) = [1..<length (ldr_allocations r) + 1])
              (ValueError ''allocation ordinals must be contiguous from one'')) (\<lambda>_.
     rbind (require (distinct (map source_lot_id (ldr_allocations r)))
              (ValueError ''a source lot can appear only once in one disposal result'')) (\<lambda>_.
     case ldr_error_reason r of
       Some reason \<Rightarrow>
         rbind (require (strip_reason reason \<noteq> Reason [])
                  (ValueError ''error_reason must be nonblank when supplied'')) (\<lambda>_.
         rbind (require (\<not> (ldr_cost_base r \<noteq> 0 \<or> ldr_cost_local r \<noteq> 0 \<or> ldr_consumed_quantity r \<noteq> 0 \<or>
                         ldr_allocations r \<noteq> []))
                  (ValueError ''failed disposal results cannot carry economics or allocations'')) (\<lambda>_.
         Inr (r\<lparr>ldr_error_reason := Some (strip_reason reason)\<rparr>)))
     | None \<Rightarrow>
         if ldr_consumed_quantity r = 0 then
           rbind (require (\<not> (ldr_cost_base r \<noteq> 0 \<or> ldr_cost_local r \<noteq> 0 \<or> ldr_allocations r \<noteq> []))
                    (ValueError ''zero-quantity disposal results must be empty'')) (\<lambda>_. Inr r)
         else
           rbind (require (ldr_allocations r \<noteq> [])
                    (ValueError ''successful disposal must carry source-lot allocations'')) (\<lambda>_.
           rbind (build_conserved_allocation_lineage r) (\<lambda>_. Inr r)))))))"

definition disposal_failed :: "failure_reason \<Rightarrow> lot_disposal_result res" where
  "disposal_failed reason =
     LotDisposalResult \<lparr>ldr_cost_base = 0, ldr_cost_local = 0, ldr_consumed_quantity = 0,
       ldr_allocations = [], ldr_error_reason = Some reason\<rparr>"

definition disposal_empty :: "lot_disposal_result res" where
  "disposal_empty =
     LotDisposalResult \<lparr>ldr_cost_base = 0, ldr_cost_local = 0, ldr_consumed_quantity = 0,
       ldr_allocations = [], ldr_error_reason = None\<rparr>"

definition legacy_tuple :: "lot_disposal_result \<Rightarrow> rat \<times> rat \<times> rat \<times> failure_reason option" where
  "legacy_tuple r =
     (ldr_cost_base r, ldr_cost_local r, ldr_consumed_quantity r, ldr_error_reason r)"

record transaction_lot_disposal =
  disposal_transaction_id :: string
  tld_result :: lot_disposal_result

definition TransactionLotDisposal :: "string \<Rightarrow> lot_disposal_result \<Rightarrow> transaction_lot_disposal res" where
  "TransactionLotDisposal tid r =
     rbind (required_text tid ''disposal_transaction_id'') (\<lambda>normalized.
     rbind (require (\<not> (ldr_error_reason r \<noteq> None \<or> ldr_consumed_quantity r \<le> 0))
              (ValueError ''transaction disposal evidence requires a successful positive result'')) (\<lambda>_.
     Inr \<lparr>disposal_transaction_id = normalized, tld_result = r\<rparr>))"

section \<open>Basis transfers\<close>

definition nonnegative_decimal :: "rat \<Rightarrow> string \<Rightarrow> rat res" where
  "nonnegative_decimal value field_name =
     rbind (require (0 \<le> value) (ValueError (field_name @ '' must be nonnegative''))) (\<lambda>_. Inr value)"

record source_lot_basis_transfer_allocation =
  bt_allocation_ordinal :: nat
  bt_source_lot_id :: string
  bt_source_transaction_id :: string
  bt_source_acquisition_date :: int
  retained_quantity :: rat
  source_cost_local_before :: rat
  source_cost_base_before :: rat
  transferred_cost_local :: rat
  transferred_cost_base :: rat
  retained_cost_local :: rat
  retained_cost_base :: rat

definition SourceLotBasisTransferAllocation ::
  "source_lot_basis_transfer_allocation \<Rightarrow> source_lot_basis_transfer_allocation res" where
  "SourceLotBasisTransferAllocation a =
     rbind (require (1 \<le> bt_allocation_ordinal a)
              (ValueError ''allocation_ordinal must be a positive integer'')) (\<lambda>_.
     rbind (required_text (bt_source_lot_id a) ''source_lot_id'') (\<lambda>lid.
     rbind (required_text (bt_source_transaction_id a) ''source_transaction_id'') (\<lambda>tid.
     rbind (nonnegative_decimal (retained_quantity a) ''retained_quantity'') (\<lambda>_.
     rbind (nonnegative_decimal (source_cost_local_before a) ''source_cost_local_before'') (\<lambda>_.
     rbind (nonnegative_decimal (source_cost_base_before a) ''source_cost_base_before'') (\<lambda>_.
     rbind (nonnegative_decimal (transferred_cost_local a) ''transferred_cost_local'') (\<lambda>_.
     rbind (nonnegative_decimal (transferred_cost_base a) ''transferred_cost_base'') (\<lambda>_.
     rbind (nonnegative_decimal (retained_cost_local a) ''retained_cost_local'') (\<lambda>_.
     rbind (nonnegative_decimal (retained_cost_base a) ''retained_cost_base'') (\<lambda>_.
     rbind (require (0 < retained_quantity a) (ValueError ''retained_quantity must be positive'')) (\<lambda>_.
     rbind (require (\<not> (transferred_cost_local a = 0 \<and> transferred_cost_base a = 0))
              (ValueError ''basis-transfer allocations require a positive basis movement'')) (\<lambda>_.
     rbind (require (dec_add ambient (transferred_cost_local a) (retained_cost_local a) =
                     source_cost_local_before a)
              (ValueError ''source local basis must equal transferred plus retained basis'')) (\<lambda>_.
     rbind (require (dec_add ambient (transferred_cost_base a) (retained_cost_base a) =
                     source_cost_base_before a)
              (ValueError ''source base basis must equal transferred plus retained basis'')) (\<lambda>_.
     Inr (a\<lparr>bt_source_lot_id := lid, bt_source_transaction_id := tid\<rparr>)))))))))))))))"

record lot_basis_transfer_result =
  lbt_transferred_cost_local :: rat
  lbt_transferred_cost_base :: rat
  lbt_allocations :: "source_lot_basis_transfer_allocation list"
  lbt_error_reason :: "failure_reason option"

definition basis_transfer_lineage_input_payload ::
  "source_lot_basis_transfer_allocation list \<Rightarrow> (string \<times> rat) list" where
  "basis_transfer_lineage_input_payload as =
     concat (map (\<lambda>(i, a).
       [(allocation_path i ''retained_quantity'', retained_quantity a),
        (allocation_path i ''source_cost_base_before'', source_cost_base_before a),
        (allocation_path i ''source_cost_local_before'', source_cost_local_before a),
        (allocation_path i ''transferred_cost_base'', transferred_cost_base a),
        (allocation_path i ''transferred_cost_local'', transferred_cost_local a)]) (enumerate 0 as))"

definition basis_transfer_lineage_output_payload :: "lot_basis_transfer_result \<Rightarrow> (string \<times> rat) list" where
  "basis_transfer_lineage_output_payload r =
     concat (map (\<lambda>(i, a).
       [(allocation_path i ''retained_cost_base'', retained_cost_base a),
        (allocation_path i ''retained_cost_local'', retained_cost_local a),
        (allocation_path i ''transferred_cost_base'', transferred_cost_base a),
        (allocation_path i ''transferred_cost_local'', transferred_cost_local a)])
       (enumerate 0 (lbt_allocations r))) @
     [(''transferred_cost_base'', lbt_transferred_cost_base r),
      (''transferred_cost_local'', lbt_transferred_cost_local r)]"

definition build_basis_transfer_lineage :: "lot_basis_transfer_result \<Rightarrow> unit res" where
  "build_basis_transfer_lineage r =
     rbind (policy_sum ''transferred_cost_local'' 0 (map transferred_cost_local (lbt_allocations r))) (\<lambda>local_total.
     rbind (policy_sum ''transferred_cost_base'' 0 (map transferred_cost_base (lbt_allocations r))) (\<lambda>base_total.
     rbind (require (local_total = lbt_transferred_cost_local r)
              (ValueError ''source-lot local basis does not reconcile to transfer aggregate'')) (\<lambda>_.
     rbind (require (base_total = lbt_transferred_cost_base r)
              (ValueError ''source-lot base basis does not reconcile to transfer aggregate'')) (\<lambda>_.
     rbind (canonical_amounts (basis_transfer_lineage_input_payload (lbt_allocations r))) (\<lambda>_.
     rbind (canonical_amounts (basis_transfer_lineage_output_payload r)) (\<lambda>_.
     Inr ()))))))"

definition LotBasisTransferResult :: "lot_basis_transfer_result \<Rightarrow> lot_basis_transfer_result res" where
  "LotBasisTransferResult r =
     rbind (nonnegative_decimal (lbt_transferred_cost_local r) ''transferred_cost_local'') (\<lambda>_.
     rbind (nonnegative_decimal (lbt_transferred_cost_base r) ''transferred_cost_base'') (\<lambda>_.
     case lbt_error_reason r of
       Some reason \<Rightarrow>
         rbind (require (strip_reason reason \<noteq> Reason []) (ValueError ''error_reason must be nonblank'')) (\<lambda>_.
         rbind (require (\<not> (lbt_allocations r \<noteq> [] \<or> lbt_transferred_cost_local r \<noteq> 0 \<or>
                         lbt_transferred_cost_base r \<noteq> 0))
                  (ValueError ''failed basis transfers cannot carry economics'')) (\<lambda>_.
         Inr (r\<lparr>lbt_error_reason := Some (strip_reason reason)\<rparr>)))
     | None \<Rightarrow>
         rbind (require (lbt_allocations r \<noteq> [])
                  (ValueError ''successful basis transfer requires source-lot allocations'')) (\<lambda>_.
         rbind (require (map bt_allocation_ordinal (lbt_allocations r) =
                         [1..<length (lbt_allocations r) + 1])
                  (ValueError ''basis-transfer allocation ordinals must be contiguous'')) (\<lambda>_.
         rbind (require (distinct (map bt_source_lot_id (lbt_allocations r)))
                  (ValueError ''a source lot can appear only once in one basis transfer'')) (\<lambda>_.
         rbind (build_basis_transfer_lineage r) (\<lambda>_. Inr r))))))"

definition basis_transfer_failed :: "failure_reason \<Rightarrow> lot_basis_transfer_result res" where
  "basis_transfer_failed reason =
     LotBasisTransferResult \<lparr>lbt_transferred_cost_local = 0, lbt_transferred_cost_base = 0,
       lbt_allocations = [], lbt_error_reason = Some reason\<rparr>"

record transaction_lot_basis_transfer =
  tbt_source_transaction_id :: string
  tbt_target_transaction_id :: string
  tbt_target_lot_id :: string
  tbt_result :: lot_basis_transfer_result

definition TransactionLotBasisTransfer ::
  "string \<Rightarrow> string \<Rightarrow> string \<Rightarrow> lot_basis_transfer_result \<Rightarrow> transaction_lot_basis_transfer res" where
  "TransactionLotBasisTransfer source target target_lot r =
     rbind (required_text source ''source_transaction_id'') (\<lambda>source_id.
     rbind (required_text target ''target_transaction_id'') (\<lambda>target_id.
     rbind (required_text target_lot ''target_lot_id'') (\<lambda>target_lot_id.
     rbind (require (source_id \<noteq> target_id)
              (ValueError ''source and target transaction ids must differ'')) (\<lambda>_.
     rbind (require (target_lot_id = ''LOT-'' @ target_id)
              (ValueError ''target_lot_id must derive from target_transaction_id'')) (\<lambda>_.
     rbind (require (lbt_error_reason r = None)
              (ValueError ''transaction basis-transfer evidence requires a successful result'')) (\<lambda>_.
     Inr \<lparr>tbt_source_transaction_id = source_id, tbt_target_transaction_id = target_id,
          tbt_target_lot_id = target_lot_id, tbt_result = r\<rparr>))))))"

section \<open>What the constructors guarantee\<close>

lemma required_text_Inr [simp]:
  "required_text v f = Inr t \<longleftrightarrow> t = py_strip v \<and> py_strip v \<noteq> []"
  by (auto simp: required_text_def rbind_eq_Inr)

lemma require_decimal_Inr [simp]:
  "require_decimal v f positive allow_negative = Inr u \<longleftrightarrow>
     (allow_negative \<or> 0 \<le> v) \<and> (positive \<longrightarrow> v \<noteq> 0)"
  by (auto simp: require_decimal_def)

lemma nonnegative_decimal_Inr [simp]: "nonnegative_decimal v f = Inr u \<longleftrightarrow> u = v \<and> 0 \<le> v"
  by (auto simp: nonnegative_decimal_def rbind_eq_Inr)

lemma canonical_amounts_storable:
  "(\<And>p. p \<in> set ps \<Longrightarrow> ledger_amount (snd p)) \<Longrightarrow> canonical_amounts ps = Inr ps"
  unfolding canonical_amounts_def
  by (subst rmap_total [where g = id]) (fastforce simp: cost_state.normalize_storable)+

lemma disposal_empty_eq:
  "disposal_empty = Inr \<lparr>ldr_cost_base = 0, ldr_cost_local = 0, ldr_consumed_quantity = 0,
     ldr_allocations = [], ldr_error_reason = None\<rparr>"
  by (simp add: disposal_empty_def LotDisposalResult_def require_decimal_def)

lemma disposal_failed_eq:
  "strip_reason reason \<noteq> Reason [] \<Longrightarrow>
   disposal_failed reason = Inr \<lparr>ldr_cost_base = 0, ldr_cost_local = 0, ldr_consumed_quantity = 0,
     ldr_allocations = [], ldr_error_reason = Some (strip_reason reason)\<rparr>"
  by (simp add: disposal_failed_def LotDisposalResult_def require_decimal_def)

lemma basis_transfer_failed_eq:
  "strip_reason reason \<noteq> Reason [] \<Longrightarrow>
   basis_transfer_failed reason = Inr \<lparr>lbt_transferred_cost_local = 0, lbt_transferred_cost_base = 0,
     lbt_allocations = [], lbt_error_reason = Some (strip_reason reason)\<rparr>"
  by (simp add: basis_transfer_failed_def LotBasisTransferResult_def nonnegative_decimal_def)

text \<open>Totals of storable amounts are exact as long as they stay below the limit.\<close>

lemma policy_sum_exact:
  assumes "\<And>x. x \<in> set xs \<Longrightarrow> ledger_amount x \<and> 0 \<le> x"
    and "ledger_amount acc" "0 \<le> acc" "acc + sum_list xs < ledger_limit"
  shows "policy_sum f acc xs = Inr (acc + sum_list xs)"
  using assms
proof (induction xs arbitrary: acc)
  case (Cons x xs)
  have "0 \<le> sum_list xs" using Cons.prems(1) by (intro sum_list_nonneg') auto
  then have lim: "acc + x < ledger_limit" using Cons.prems by simp
  then have "policy_add state_policy f acc x = Inr (acc + x)" "ledger_amount (acc + x)"
    using Cons.prems by (auto simp: cost_state.policy_add_exact ledger_amount_iff)
  then show ?case using Cons by (simp add: add.assoc)
qed simp

lemma policy_sum_InrD:
  assumes "policy_sum f acc xs = Inr t" and "\<And>x. x \<in> set xs \<Longrightarrow> ledger_amount x" "ledger_amount acc"
  shows "t = acc + sum_list xs" and "ledger_amount t"
proof -
  have "t = acc + sum_list xs \<and> ledger_amount t" using assms
  proof (induction xs arbitrary: acc)
    case (Cons x xs)
    obtain y where y: "policy_add state_policy f acc x = Inr y" "policy_sum f y xs = Inr t"
      using Cons.prems(1) by (auto simp: rbind_eq_Inr)
    then have "y = acc + x" "ledger_amount y"
      using Cons.prems cost_state.policy_add_InrD [OF y(1)] by auto
    then show ?case using Cons.IH [OF y(2)] Cons.prems by auto
  qed simp
  then show "t = acc + sum_list xs" and "ledger_amount t" by auto
qed

definition ledger_allocation :: "source_lot_disposal_allocation \<Rightarrow> bool" where
  "ledger_allocation a \<longleftrightarrow> amortized_cost_evidence a = None \<and> ledger_amount (consumed_quantity a) \<and> 0 \<le> consumed_quantity a \<and>
     ledger_amount (consumed_cost_local a) \<and> 0 \<le> consumed_cost_local a \<and>
     ledger_amount (consumed_cost_base a) \<and> 0 \<le> consumed_cost_base a"

lemma allocated_totals_exact:
  assumes "\<And>a. a \<in> set as \<Longrightarrow> ledger_allocation a"
    and "ledger_amount q" "0 \<le> q" "q + (\<Sum>a\<leftarrow>as. consumed_quantity a) < ledger_limit"
    and "ledger_amount l" "0 \<le> l" "l + (\<Sum>a\<leftarrow>as. consumed_cost_local a) < ledger_limit"
    and "ledger_amount b" "0 \<le> b" "b + (\<Sum>a\<leftarrow>as. consumed_cost_base a) < ledger_limit"
  shows "allocated_totals as q l b = Inr (q + (\<Sum>a\<leftarrow>as. consumed_quantity a),
    l + (\<Sum>a\<leftarrow>as. consumed_cost_local a), b + (\<Sum>a\<leftarrow>as. consumed_cost_base a))"
  using assms
proof (induction as arbitrary: q l b)
  case (Cons a as)
  have wf: "ledger_allocation a" and wfs: "\<And>x. x \<in> set as \<Longrightarrow> ledger_allocation x"
    using Cons.prems(1) by auto
  have "0 \<le> (\<Sum>a\<leftarrow>as. consumed_quantity a)" "0 \<le> (\<Sum>a\<leftarrow>as. consumed_cost_local a)"
    "0 \<le> (\<Sum>a\<leftarrow>as. consumed_cost_base a)"
    using wfs by (auto intro!: sum_list_nonneg' simp: ledger_allocation_def)
  then have lim: "q + consumed_quantity a < ledger_limit" "l + consumed_cost_local a < ledger_limit"
    "b + consumed_cost_base a < ledger_limit" using Cons.prems by simp_all
  have adds: "policy_add state_policy f x y = Inr (x + y) \<and> ledger_amount (x + y)"
    if "ledger_amount x" "0 \<le> x" "ledger_amount y" "0 \<le> y" "x + y < ledger_limit" for f x y
    using that by (auto simp: cost_state.policy_add_exact ledger_amount_iff)
  show ?case
    using Cons.IH [OF wfs, of "q + consumed_quantity a" "l + consumed_cost_local a" "b + consumed_cost_base a"]
      Cons.prems wf lim by (simp add: adds ledger_allocation_def add.assoc)
qed simp

lemma disposal_lineage_ok:
  assumes "\<And>a. a \<in> set (ldr_allocations r) \<Longrightarrow> ledger_allocation a"
    and "ldr_consumed_quantity r = (\<Sum>a\<leftarrow>ldr_allocations r. consumed_quantity a)"
      "ldr_cost_local r = (\<Sum>a\<leftarrow>ldr_allocations r. consumed_cost_local a)"
      "ldr_cost_base r = (\<Sum>a\<leftarrow>ldr_allocations r. consumed_cost_base a)"
    and "ldr_consumed_quantity r < ledger_limit" "ldr_cost_local r < ledger_limit"
      "ldr_cost_base r < ledger_limit"
  shows "build_conserved_allocation_lineage r = Inr ()"
proof -
  have amounts: "ledger_amount (ldr_consumed_quantity r)" "ledger_amount (ldr_cost_local r)"
    "ledger_amount (ldr_cost_base r)"
    unfolding assms(2-4) using assms
    by (auto intro!: ledger_amount_sum_map simp: ledger_allocation_def)
  have "allocated_totals (ldr_allocations r) 0 0 0 =
    Inr (ldr_consumed_quantity r, ldr_cost_local r, ldr_cost_base r)"
    using allocated_totals_exact [of "ldr_allocations r" 0 0 0] assms by simp
  moreover have "canonical_amounts (lot_disposal_lineage_input_payload (ldr_allocations r)) =
      Inr (lot_disposal_lineage_input_payload (ldr_allocations r))"
    by (rule canonical_amounts_storable)
      (use assms(1) in \<open>auto simp: lot_disposal_lineage_input_payload_def allocation_lineage_amounts_def ledger_allocation_def
        dest!: in_set_enumerate_eq [THEN iffD1] intro: nth_mem\<close>)
  moreover have "canonical_amounts (lot_disposal_lineage_output_payload r) =
      Inr (lot_disposal_lineage_output_payload r)"
    using amounts by (intro canonical_amounts_storable) (auto simp: lot_disposal_lineage_output_payload_def)
  ultimately show ?thesis by (simp add: build_conserved_allocation_lineage_def)
qed

end
