(* ===== verification/Fifo_Strategy.thy ===== *)
theory Fifo_Strategy
  imports Disposal_Allocation
begin

text \<open>
  The FIFO half of \<open>cost_basis_strategies.py\<close>. \<open>_open_lots\<close> and \<open>_lots_by_transaction_id\<close> of
  \<open>FIFOBasisStrategy\<close> hold references to the same mutable \<open>CostLot\<close> objects, so the state has an
  explicit store of lots and both dictionaries hold addresses into it. A raising operation returns
  the exception together with the state it leaves behind.
\<close>

section \<open>Buy-lot inputs\<close>

definition is_buy_transaction :: "cost_basis_transaction \<Rightarrow> bool" where
  "is_buy_transaction t \<longleftrightarrow> normalize_code (Some (transaction_type t)) = ''BUY''"

definition require_buy_lot_cost_basis :: "cost_basis_transaction \<Rightarrow> (rat \<times> rat) res" where
  "require_buy_lot_cost_basis t =
     (case (net_cost t, net_cost_local t) of
        (Some base, Some local) \<Rightarrow> Inr (base, local)
      | _ \<Rightarrow> Inl (ValueError (''Buy transaction '' @ transaction_id t @
               '' must have net_cost and net_cost_local calculated before adding as a lot.'')))"

definition should_skip_empty_buy_lot :: "cost_basis_transaction \<Rightarrow> rat \<Rightarrow> rat \<Rightarrow> rat \<Rightarrow> bool res" where
  "should_skip_empty_buy_lot t quantity base local =
     (if 0 < quantity then Inr False
      else if quantity = 0 \<and> base = 0 \<and> local = 0 then Inr True
      else Inl (ValueError (''Buy transaction '' @ transaction_id t @ '' must have positive lot quantity.'')))"

definition validate_non_negative_buy_lot_cost_basis ::
  "cost_basis_transaction \<Rightarrow> rat \<Rightarrow> rat \<Rightarrow> unit res" where
  "validate_non_negative_buy_lot_cost_basis t base local =
     require (0 \<le> base \<and> 0 \<le> local)
       (ValueError (''Buy transaction '' @ transaction_id t @ '' must have non-negative lot cost basis.''))"

definition validated_buy_lot_inputs :: "cost_basis_transaction \<Rightarrow> (rat \<times> rat \<times> rat) option res" where
  "validated_buy_lot_inputs t =
     rbind (require_buy_lot_cost_basis t) (\<lambda>(base, local).
     rbind (should_skip_empty_buy_lot t (txn_quantity t) base local) (\<lambda>skip.
     if skip then Inr None
     else rbind (validate_non_negative_buy_lot_cost_basis t base local) (\<lambda>_.
          Inr (Some (txn_quantity t, base, local)))))"

definition source_lot_original_quantity_of :: "cost_basis_transaction \<Rightarrow> rat \<Rightarrow> rat res" where
  "source_lot_original_quantity_of t current_quantity =
     resolve_source_lot_original_quantity (source_lot_original_quantity t)
       (source_lot_order_quantity t) current_quantity"

definition non_positive_sell_quantity_error :: "rat \<Rightarrow> failure_reason option" where
  "non_positive_sell_quantity_error sell_quantity =
     (if 0 \<le> sell_quantity then None else Some (SellQuantityNegative sell_quantity))"

definition utc_transaction_date :: "cost_basis_transaction \<Rightarrow> int" where
  "utc_transaction_date t = date_ordinal (utc_us (transaction_date t))"

section \<open>The strategy state\<close>

type_synonym lot_key = "string \<times> string"

record fifo_state =
  fifo_store :: "cost_lot list"
  fifo_open_lots :: "lot_key \<Rightarrow> nat list"
  lots_by_transaction_id :: "(string \<times> nat) list"
  available_quantities :: "lot_key \<Rightarrow> rat"

definition FIFOBasisStrategy :: fifo_state where
  "FIFOBasisStrategy = \<lparr>fifo_store = [], fifo_open_lots = (\<lambda>_. []), lots_by_transaction_id = [],
     available_quantities = (\<lambda>_. 0)\<rparr>"

definition transaction_key :: "cost_basis_transaction \<Rightarrow> lot_key" where
  "transaction_key t = (portfolio_id t, instrument_id t)"

section \<open>Acquisition\<close>

definition new_cost_lot :: "cost_basis_transaction \<Rightarrow> rat \<Rightarrow> rat \<Rightarrow> rat \<Rightarrow> cost_lot res" where
  "new_cost_lot t quantity base local =
     rbind (dec_div (context_precision state_policy) local quantity) (\<lambda>cps_local.
     rbind (dec_div (context_precision state_policy) base quantity) (\<lambda>cps_base.
     rbind (source_lot_original_quantity_of t quantity) (\<lambda>original.
     CostLot (transaction_id t) (''LOT-'' @ transaction_id t) (utc_transaction_date t)
       quantity cps_local cps_base (Some original))))"

definition fifo_append_lot :: "lot_key \<Rightarrow> cost_lot \<Rightarrow> fifo_state \<Rightarrow> fifo_state" where
  "fifo_append_lot key lot s =
     (let address = length (fifo_store s) in
      s\<lparr>fifo_store := fifo_store s @ [lot],
        fifo_open_lots := (fifo_open_lots s)(key := fifo_open_lots s key @ [address]),
        lots_by_transaction_id :=
          dict_set (lot_transaction_id lot) address (lots_by_transaction_id s)\<rparr>)"

definition fifo_add_buy_lot :: "cost_basis_transaction \<Rightarrow> fifo_state \<Rightarrow> (unit, fifo_state) outcome" where
  "fifo_add_buy_lot t s =
     (case validated_buy_lot_inputs t of
        Inl e \<Rightarrow> (Inl e, s)
      | Inr None \<Rightarrow> (Inr (), s)
      | Inr (Some (quantity, base, local)) \<Rightarrow>
          (case new_cost_lot t quantity base local of
             Inl e \<Rightarrow> (Inl e, s)
           | Inr lot \<Rightarrow>
               let key = transaction_key t; s' = fifo_append_lot key lot s in
               case policy_add state_policy ''available_quantity''
                      (available_quantities s key) quantity of
                 Inl e \<Rightarrow> (Inl e, s')
               | Inr available \<Rightarrow>
                   (Inr (), s'\<lparr>available_quantities := (available_quantities s')(key := available)\<rparr>)))"

section \<open>Disposal\<close>

text \<open>The part of the state a disposal of one book touches: the store and the book's deque.\<close>

type_synonym fifo_book = "cost_lot list \<times> nat list"

definition fifo_allocation ::
  "cost_lot \<Rightarrow> open_lot_state \<Rightarrow> open_lot_state \<Rightarrow> rat \<Rightarrow> nat \<Rightarrow> source_lot_disposal_allocation res" where
  "fifo_allocation lot before after matched_quantity ordinal =
     rbind (policy_subtract state_policy ''disposed_cost_base''
              (ols_cost_base before) (ols_cost_base after)) (\<lambda>cost_base.
     rbind (policy_subtract state_policy ''disposed_cost_local''
              (ols_cost_local before) (ols_cost_local after)) (\<lambda>cost_local.
     SourceLotDisposalAllocation
       \<lparr>source_lot_id = lot_id lot, source_transaction_id = lot_transaction_id lot,
        source_acquisition_date = acquisition_date lot, allocation_ordinal = ordinal,
        consumed_quantity = matched_quantity, consumed_cost_local = cost_local,
        consumed_cost_base = cost_base,
        source_original_quantity = Some (ols_original_quantity before),
        source_open_quantity_before = Some (ols_quantity before), amortized_cost_evidence = None\<rparr>))"

fun consume_next_fifo_lot ::
  "fifo_book \<Rightarrow> rat \<Rightarrow> nat \<Rightarrow> (source_lot_disposal_allocation \<times> rat, fifo_book) outcome" where
  "consume_next_fifo_lot (store, []) required ordinal = (Inl IndexError, (store, []))"
| "consume_next_fifo_lot (store, a # deque) required ordinal =
     (let lot = store ! a in
      case open_state lot of
        Inl e \<Rightarrow> (Inl e, (store, a # deque))
      | Inr state_before \<Rightarrow>
          let matched_quantity = min required (remaining_quantity lot) in
          case policy_subtract state_policy ''open_quantity''
                 (remaining_quantity lot) matched_quantity of
            Inl e \<Rightarrow> (Inl e, (store, a # deque))
          | Inr remaining \<Rightarrow>
              let lot' = lot\<lparr>remaining_quantity := remaining\<rparr>;
                  store' = store[a := lot'];
                  deque' = (if remaining = 0 then deque else a # deque);
                  state_after =
                    (if remaining = 0 then OpenLotState (lot_original_quantity lot) 0 0 0 None
                     else open_state lot')
              in case state_after of
                   Inl e \<Rightarrow> (Inl e, (store', a # deque))
                 | Inr after \<Rightarrow>
                     (rbind (fifo_allocation lot state_before after matched_quantity ordinal) (\<lambda>allocation.
                      rbind (policy_subtract state_policy ''remaining_disposal_quantity''
                               required matched_quantity) (\<lambda>required'.
                      Inr (allocation, required'))),
                      (store', deque')))"

type_synonym disposal_totals = "source_lot_disposal_allocation list \<times> rat \<times> rat \<times> rat"

lemma policy_subtract_self [simp]: "policy_subtract state_policy f x x = Inr 0"
  by (simp add: cost_state.policy_operations dec_sub_def sig_round_0 cost_state.normalize_storable)

text \<open>A lot that stays open has satisfied the whole requirement, so the loop ends.\<close>

lemma consume_next_progress:
  assumes "consume_next_fifo_lot (store, deque) required ordinal = (Inr (a, required'), (store', deque'))"
  shows "length deque' < length deque \<or> length deque' = length deque \<and> required' = 0"
proof (cases deque)
  case (Cons x xs)
  then show ?thesis
    using assms by (auto simp: Let_def rbind_eq_Inr min_def split: sum.splits if_splits)
qed (use assms in simp)

function (sequential) fifo_consume_loop ::
  "fifo_book \<Rightarrow> rat \<Rightarrow> disposal_totals \<Rightarrow> (disposal_totals, fifo_book) outcome" where
  "fifo_consume_loop (store, deque) required (allocations, cost_base, cost_local, consumed) =
     (if 0 < required \<and> deque \<noteq> [] then
        obind (consume_next_fifo_lot (store, deque) required (length allocations + 1)) (\<lambda>step book.
        obind (policy_add state_policy ''disposed_cost_base'' cost_base (consumed_cost_base (fst step)), book) (\<lambda>base' book.
        obind (policy_add state_policy ''disposed_cost_local'' cost_local (consumed_cost_local (fst step)), book) (\<lambda>local' book.
        obind (policy_add state_policy ''consumed_quantity'' consumed (consumed_quantity (fst step)), book) (\<lambda>consumed' book.
        fifo_consume_loop book (snd step) (allocations @ [fst step], base', local', consumed')))))
      else (Inr (allocations, cost_base, cost_local, consumed), (store, deque)))"
  by pat_completeness auto
termination
  by (relation "measure (\<lambda>((store, deque), required, totals). length deque + (if 0 < required then 1 else 0))")
    (auto dest: consume_next_progress split: prod.splits)

definition fifo_set_book :: "lot_key \<Rightarrow> fifo_book \<Rightarrow> fifo_state \<Rightarrow> fifo_state" where
  "fifo_set_book key book s =
     s\<lparr>fifo_store := fst book, fifo_open_lots := (fifo_open_lots s)(key := snd book)\<rparr>"

definition fifo_consume_sell_quantity_with_allocations ::
  "string \<Rightarrow> string \<Rightarrow> rat \<Rightarrow> fifo_state \<Rightarrow> (lot_disposal_result, fifo_state) outcome" where
  "fifo_consume_sell_quantity_with_allocations portfolio instrument sell_quantity s =
     (let key = (portfolio, instrument); available = available_quantities s key in
      case non_positive_sell_quantity_error sell_quantity of
        Some reason \<Rightarrow> (disposal_failed reason, s)
      | None \<Rightarrow>
          if available < sell_quantity then (disposal_failed (SellExceedsHoldings sell_quantity available), s)
          else if sell_quantity = 0 then (disposal_empty, s)
          else (case fifo_consume_loop (fifo_store s, fifo_open_lots s key) sell_quantity ([], 0, 0, 0) of
                  (Inl e, book) \<Rightarrow> (Inl e, fifo_set_book key book s)
                | (Inr (allocations, cost_base, cost_local, consumed), book) \<Rightarrow>
                    let s' = fifo_set_book key book s in
                    case policy_subtract state_policy ''available_quantity'' available consumed of
                      Inl e \<Rightarrow> (Inl e, s')
                    | Inr available' \<Rightarrow>
                        (LotDisposalResult \<lparr>ldr_cost_base = cost_base, ldr_cost_local = cost_local,
                           ldr_consumed_quantity = consumed, ldr_allocations = allocations,
                           ldr_error_reason = None\<rparr>,
                         s'\<lparr>available_quantities := (available_quantities s')(key := available')\<rparr>)))"

definition fifo_consume_sell_quantity ::
  "string \<Rightarrow> string \<Rightarrow> rat \<Rightarrow> fifo_state \<Rightarrow> (rat \<times> rat \<times> rat \<times> failure_reason option, fifo_state) outcome" where
  "fifo_consume_sell_quantity portfolio instrument sell_quantity s =
     obind (fifo_consume_sell_quantity_with_allocations portfolio instrument sell_quantity s)
       (\<lambda>r s'. (Inr (legacy_tuple r), s'))"

definition fifo_get_available_quantity :: "string \<Rightarrow> string \<Rightarrow> fifo_state \<Rightarrow> rat" where
  "fifo_get_available_quantity portfolio instrument s = available_quantities s (portfolio, instrument)"

section \<open>Restatement\<close>

definition fifo_proposed_lot ::
  "lot_restatement \<Rightarrow> cost_lot \<Rightarrow> (rat \<times> rat \<times> open_lot_state) res" where
  "fifo_proposed_lot r lot =
     rbind (restatement_apply r (lot_original_quantity lot) ''original_quantity'') (\<lambda>original_quantity.
     rbind (restatement_apply r (remaining_quantity lot) ''open_quantity'') (\<lambda>open_quantity.
     rbind (open_state lot) (\<lambda>state_before.
     Inr (original_quantity, open_quantity, state_before))))"

fun fifo_restate_lots ::
  "(nat \<times> rat \<times> rat \<times> open_lot_state) list \<Rightarrow> cost_lot list \<Rightarrow> (unit, cost_lot list) outcome" where
  "fifo_restate_lots [] store = (Inr (), store)"
| "fifo_restate_lots ((a, original_quantity, open_quantity, before) # proposed) store =
     (let lot = (store ! a)\<lparr>lot_original_quantity := original_quantity, remaining_quantity := open_quantity\<rparr> in
      case dec_div (context_precision state_policy) (ols_cost_local before) open_quantity of
        Inl e \<Rightarrow> (Inl e, store[a := lot])
      | Inr cps_local \<Rightarrow>
          let lot = lot\<lparr>cost_per_share_local := cps_local\<rparr> in
          case dec_div (context_precision state_policy) (ols_cost_base before) open_quantity of
            Inl e \<Rightarrow> (Inl e, store[a := lot])
          | Inr cps_base \<Rightarrow>
              fifo_restate_lots proposed (store[a := lot\<lparr>cost_per_share_base := cps_base\<rparr>]))"

definition fifo_restate_lot_quantities ::
  "string \<Rightarrow> string \<Rightarrow> rat \<Rightarrow> fifo_state \<Rightarrow> (lot_restatement, fifo_state) outcome" where
  "fifo_restate_lot_quantities portfolio instrument signed_quantity_delta s =
     (let key = (portfolio, instrument); lots = fifo_open_lots s key in
      case from_signed_delta (available_quantities s key) signed_quantity_delta of
        Inl e \<Rightarrow> (Inl e, s)
      | Inr r \<Rightarrow>
          (case rmap (\<lambda>a. fifo_proposed_lot r (fifo_store s ! a)) lots of
             Inl e \<Rightarrow> (Inl e, s)
           | Inr proposed \<Rightarrow>
               (case fifo_restate_lots (zip lots proposed) (fifo_store s) of
                  (Inl e, store) \<Rightarrow> (Inl e, s\<lparr>fifo_store := store\<rparr>)
                | (Inr _, store) \<Rightarrow>
                    (Inr r, s\<lparr>fifo_store := store,
                      available_quantities := (available_quantities s)(key := quantity_after r)\<rparr>))))"

section \<open>Basis transfer\<close>

text \<open>\<open>sum(..., Decimal(0))\<close> adds in the ambient context.\<close>

definition ambient_sum :: "rat list \<Rightarrow> rat" where
  "ambient_sum xs = foldl (dec_add ambient) 0 xs"

definition basis_transfer_amount_error :: "rat \<Rightarrow> rat \<Rightarrow> rat \<Rightarrow> rat \<Rightarrow> failure_reason option" where
  "basis_transfer_amount_error cost_base cost_local available_base available_local =
     (if cost_base < 0 \<or> cost_local < 0
      then Some (Reason ''Basis transfer amounts must not be negative.'')
      else if available_base < cost_base \<or> available_local < cost_local
      then Some (BasisTransferExceeds cost_base available_base cost_local available_local)
      else if available_base \<le> 0 \<or> available_local \<le> 0
      then Some (Reason ''No positive cost basis is available to transfer.'')
      else None)"

definition basis_transfer_error :: "cost_lot list \<Rightarrow> rat \<Rightarrow> rat \<Rightarrow> failure_reason option res" where
  "basis_transfer_error lots cost_base cost_local =
     rbind (rmap open_state lots) (\<lambda>states.
     Inr (basis_transfer_amount_error cost_base cost_local
            (ambient_sum (map ols_cost_base states)) (ambient_sum (map ols_cost_local states))))"

definition assign_fifo_lot_costs :: "cost_lot \<Rightarrow> rat \<Rightarrow> rat \<Rightarrow> (unit, cost_lot) outcome" where
  "assign_fifo_lot_costs lot cost_base cost_local =
     obind (dec_div (context_precision state_policy) cost_base (remaining_quantity lot), lot) (\<lambda>cps lot.
     let lot' = lot\<lparr>cost_per_share_base := cps\<rparr> in
     obind (dec_div (context_precision state_policy) cost_local (remaining_quantity lot'), lot') (\<lambda>cps lot'.
     (Inr (), lot'\<lparr>cost_per_share_local := cps\<rparr>)))"

definition raw_next_basis :: "rat \<Rightarrow> rat \<Rightarrow> rat \<Rightarrow> rat res" where
  "raw_next_basis cost remaining total_cost =
     dec_div (context_precision state_policy)
       (dec_mul (context_precision state_policy) cost remaining) total_cost"

record basis_totals =
  bt_total_base :: rat
  bt_total_local :: rat
  bt_remaining_base :: rat
  bt_remaining_local :: rat

definition fifo_next_basis ::
  "basis_totals \<Rightarrow> rat \<Rightarrow> rat \<Rightarrow> cost_lot \<Rightarrow> (rat \<times> rat) res" where
  "fifo_next_basis T allocated_base allocated_local lot =
     rbind (open_state lot) (\<lambda>st.
     rbind (raw_next_basis (ols_cost_base st) (bt_remaining_base T) (bt_total_base T)) (\<lambda>raw_next_base.
     rbind (raw_next_basis (ols_cost_local st) (bt_remaining_local T) (bt_total_local T)) (\<lambda>raw_next_local.
     rbind (allocate_nonnegative_storage_share raw_next_base (bt_remaining_base T) allocated_base
              ''open_cost_base'') (\<lambda>next_base.
     rbind (allocate_nonnegative_storage_share raw_next_local (bt_remaining_local T) allocated_local
              ''open_cost_local'') (\<lambda>next_local.
     Inr (next_base, next_local))))))"

definition fifo_final_basis :: "basis_totals \<Rightarrow> rat \<Rightarrow> rat \<Rightarrow> (rat \<times> rat) res" where
  "fifo_final_basis T allocated_base allocated_local =
     rbind (policy_subtract state_policy ''open_cost_base'' (bt_remaining_base T) allocated_base) (\<lambda>base.
     rbind (policy_subtract state_policy ''open_cost_local'' (bt_remaining_local T) allocated_local) (\<lambda>local.
     Inr (base, local)))"

fun allocate_fifo_loop ::
  "basis_totals \<Rightarrow> nat list \<Rightarrow> rat \<Rightarrow> rat \<Rightarrow> cost_lot list \<Rightarrow> (unit, cost_lot list) outcome" where
  "allocate_fifo_loop T [] allocated_base allocated_local store = (Inl IndexError, store)"
| "allocate_fifo_loop T [a] allocated_base allocated_local store =
     obind (fifo_final_basis T allocated_base allocated_local, store) (\<lambda>(base, local) store.
     case assign_fifo_lot_costs (store ! a) base local of
       (r, lot) \<Rightarrow> (r, store[a := lot]))"
| "allocate_fifo_loop T (a # as) allocated_base allocated_local store =
     obind (fifo_next_basis T allocated_base allocated_local (store ! a), store) (\<lambda>(base, local) store.
     obind (case assign_fifo_lot_costs (store ! a) base local of (r, lot) \<Rightarrow> (r, store[a := lot])) (\<lambda>_ store.
     obind (policy_add state_policy ''allocated_cost_base'' allocated_base base, store) (\<lambda>allocated_base' store.
     obind (policy_add state_policy ''allocated_cost_local'' allocated_local local, store) (\<lambda>allocated_local' store.
     allocate_fifo_loop T as allocated_base' allocated_local' store))))"

definition allocate_fifo_basis_transfer ::
  "nat list \<Rightarrow> rat \<Rightarrow> rat \<Rightarrow> cost_lot list \<Rightarrow> (unit, cost_lot list) outcome" where
  "allocate_fifo_basis_transfer deque cost_base cost_local store =
     (let open_lots = filter (\<lambda>a. 0 < remaining_quantity (store ! a)) deque in
      obind (rmap (\<lambda>a. open_state (store ! a)) open_lots, store) (\<lambda>states store.
      let total_base = ambient_sum (map ols_cost_base states);
          total_local = ambient_sum (map ols_cost_local states)
      in allocate_fifo_loop
           \<lparr>bt_total_base = total_base, bt_total_local = total_local,
            bt_remaining_base = dec_sub ambient total_base cost_base,
            bt_remaining_local = dec_sub ambient total_local cost_local\<rparr>
           open_lots 0 0 store))"

text \<open>\<open>_basis_transfer_result\<close>: one allocation per source whose basis moved.\<close>

fun basis_transfer_allocations ::
  "(string \<times> string \<times> int \<times> open_lot_state \<times> open_lot_state) list \<Rightarrow>
   source_lot_basis_transfer_allocation list \<Rightarrow> source_lot_basis_transfer_allocation list res" where
  "basis_transfer_allocations [] allocations = Inr allocations"
| "basis_transfer_allocations ((lid, tid, acquired, before, after) # sources) allocations =
     rbind (policy_subtract state_policy ''transferred_cost_local''
              (ols_cost_local before) (ols_cost_local after)) (\<lambda>local_delta.
     rbind (policy_subtract state_policy ''transferred_cost_base''
              (ols_cost_base before) (ols_cost_base after)) (\<lambda>base_delta.
     if local_delta = 0 \<and> base_delta = 0 then basis_transfer_allocations sources allocations
     else rbind (SourceLotBasisTransferAllocation
            \<lparr>bt_allocation_ordinal = length allocations + 1, bt_source_lot_id = lid,
             bt_source_transaction_id = tid, bt_source_acquisition_date = acquired,
             retained_quantity = ols_quantity after,
             source_cost_local_before = ols_cost_local before,
             source_cost_base_before = ols_cost_base before,
             transferred_cost_local = local_delta, transferred_cost_base = base_delta,
             retained_cost_local = ols_cost_local after, retained_cost_base = ols_cost_base after\<rparr>)
            (\<lambda>a. basis_transfer_allocations sources (allocations @ [a]))))"

definition basis_transfer_result ::
  "(string \<times> string \<times> int \<times> open_lot_state \<times> open_lot_state) list \<Rightarrow> rat \<Rightarrow> rat \<Rightarrow>
   lot_basis_transfer_result res" where
  "basis_transfer_result sources transferred_local transferred_base =
     rbind (basis_transfer_allocations sources []) (\<lambda>allocations.
     LotBasisTransferResult \<lparr>lbt_transferred_cost_local = transferred_local,
       lbt_transferred_cost_base = transferred_base, lbt_allocations = allocations,
       lbt_error_reason = None\<rparr>)"

definition fifo_transfer_basis_out_with_allocations ::
  "string \<Rightarrow> string \<Rightarrow> rat \<Rightarrow> rat \<Rightarrow> fifo_state \<Rightarrow> (lot_basis_transfer_result, fifo_state) outcome" where
  "fifo_transfer_basis_out_with_allocations portfolio instrument cost_base cost_local s =
     (let deque = fifo_open_lots s (portfolio, instrument); store = fifo_store s in
      case basis_transfer_error (map ((!) store) deque) cost_base cost_local of
        Inl e \<Rightarrow> (Inl e, s)
      | Inr (Some reason) \<Rightarrow> (basis_transfer_failed reason, s)
      | Inr None \<Rightarrow>
          let open_lots = filter (\<lambda>a. 0 < remaining_quantity (store ! a)) deque in
          case rmap (\<lambda>a. open_state (store ! a)) open_lots of
            Inl e \<Rightarrow> (Inl e, s)
          | Inr states_before \<Rightarrow>
              (case allocate_fifo_basis_transfer deque cost_base cost_local store of
                 (Inl e, store') \<Rightarrow> (Inl e, s\<lparr>fifo_store := store'\<rparr>)
               | (Inr _, store') \<Rightarrow>
                   (rbind (rmap (\<lambda>a. open_state (store' ! a)) open_lots) (\<lambda>states_after.
                    basis_transfer_result
                      (map (\<lambda>(a, before, after).
                         (lot_id (store' ! a), lot_transaction_id (store' ! a),
                          acquisition_date (store' ! a), before, after))
                         (zip open_lots (zip states_before states_after)))
                      cost_local cost_base),
                    s\<lparr>fifo_store := store'\<rparr>)))"

definition fifo_transfer_basis_out ::
  "string \<Rightarrow> string \<Rightarrow> rat \<Rightarrow> rat \<Rightarrow> fifo_state \<Rightarrow> (failure_reason option, fifo_state) outcome" where
  "fifo_transfer_basis_out portfolio instrument cost_base cost_local s =
     obind (fifo_transfer_basis_out_with_allocations portfolio instrument cost_base cost_local s)
       (\<lambda>r s'. (Inr (lbt_error_reason r), s'))"

section \<open>Restoring and reading the book\<close>

fun fifo_restore_open_lots :: "cost_basis_transaction list \<Rightarrow> fifo_state \<Rightarrow> (unit, fifo_state) outcome" where
  "fifo_restore_open_lots [] s = (Inr (), s)"
| "fifo_restore_open_lots (t # ts) s = obind (fifo_add_buy_lot t s) (\<lambda>_ s'. fifo_restore_open_lots ts s')"

definition fifo_set_initial_lots ::
  "cost_basis_transaction list \<Rightarrow> fifo_state \<Rightarrow> (unit, fifo_state) outcome" where
  "fifo_set_initial_lots ts s = fifo_restore_open_lots (filter is_buy_transaction ts) s"

definition fifo_get_open_lot_states :: "fifo_state \<Rightarrow> (string \<times> open_lot_state) list res" where
  "fifo_get_open_lot_states s =
     rmap (\<lambda>(tid, a). rbind (open_state (fifo_store s ! a)) (\<lambda>st. Inr (tid, st)))
       (lots_by_transaction_id s)"

end
