(* ===== verification/Fifo_Correctness.thy ===== *)
theory Fifo_Correctness
  imports Fifo_Strategy
begin

text \<open>
  Correctness of the FIFO strategy: the invariant of its lot books, the first-in-first-out
  specification every disposal implements, conservation of quantity and basis by acquisition,
  disposal, restatement and basis transfer, and what an exception leaves behind.
\<close>

section \<open>One FIFO step\<close>

definition lot_named :: "cost_lot \<Rightarrow> bool" where
  "lot_named l \<longleftrightarrow> py_strip (lot_id l) \<noteq> [] \<and> py_strip (lot_transaction_id l) \<noteq> []"

definition fifo_take_allocation :: "nat \<Rightarrow> cost_lot \<Rightarrow> rat \<Rightarrow> source_lot_disposal_allocation" where
  "fifo_take_allocation n l m =
     \<lparr>source_lot_id = py_strip (lot_id l), source_transaction_id = py_strip (lot_transaction_id l),
      source_acquisition_date = acquisition_date l, allocation_ordinal = n, consumed_quantity = m,
      consumed_cost_local = lot_cost_local l - lot_cost (cost_per_share_local l) (remaining_quantity l - m),
      consumed_cost_base = lot_cost_base l - lot_cost (cost_per_share_base l) (remaining_quantity l - m),
      source_original_quantity = Some (lot_original_quantity l),
      source_open_quantity_before = Some (remaining_quantity l), amortized_cost_evidence = None\<rparr>"

lemma fifo_allocation_wf:
  assumes "lot_wf l" "lot_named l" "0 < m" "m \<le> remaining_quantity l" "1 \<le> n" "on_scale 10 m"
    and before: "before = lot_view l"
    and after: "ols_cost_local after = lot_cost (cost_per_share_local l) (remaining_quantity l - m)"
      "ols_cost_base after = lot_cost (cost_per_share_base l) (remaining_quantity l - m)"
  shows "fifo_allocation l before after m n = Inr (fifo_take_allocation n l m)"
    and "ledger_allocation (fifo_take_allocation n l m)"
    and "consumed_cost_local (fifo_take_allocation n l m) \<le> lot_cost_local l"
    and "consumed_cost_base (fifo_take_allocation n l m) \<le> lot_cost_base l"
proof -
  let ?l = "l\<lparr>remaining_quantity := remaining_quantity l - m\<rparr>"
  have rest: "lot_wf ?l"
    using assms by (intro lot_wf_remaining) (auto simp: lot_wf_def ledger_amount_iff)
  note costs = lot_wf_costs [OF \<open>lot_wf l\<close>] lot_wf_costs [OF rest, simplified]
  have mono: "lot_cost (cost_per_share_local l) (remaining_quantity l - m) \<le> lot_cost_local l"
    "lot_cost (cost_per_share_base l) (remaining_quantity l - m) \<le> lot_cost_base l"
    using assms by (auto intro!: lot_cost_mono simp: lot_wf_def)
  have diffs: "ledger_amount (lot_cost_local l - lot_cost (cost_per_share_local l) (remaining_quantity l - m))"
    "ledger_amount (lot_cost_base l - lot_cost (cost_per_share_base l) (remaining_quantity l - m))"
    using costs mono by (auto intro!: cost_state.policy_subtract_le)
  have opn: "0 < remaining_quantity l" "remaining_quantity l \<le> lot_original_quantity l"
    using assms by (auto simp: lot_wf_def)
  have sub: "policy_subtract state_policy f (lot_cost_local l) (lot_cost (cost_per_share_local l) (remaining_quantity l - m))
      = Inr (lot_cost_local l - lot_cost (cost_per_share_local l) (remaining_quantity l - m))"
    "policy_subtract state_policy f (lot_cost_base l) (lot_cost (cost_per_share_base l) (remaining_quantity l - m))
      = Inr (lot_cost_base l - lot_cost (cost_per_share_base l) (remaining_quantity l - m))" for f
    using costs mono by (auto intro!: cost_state.policy_subtract_le)
  have ids: "required_text (lot_id l) f = Inr (py_strip (lot_id l))"
    "required_text (lot_transaction_id l) f = Inr (py_strip (lot_transaction_id l))" for f
    using assms by (auto simp: lot_named_def)
  have dec: "require_decimal x f p False = Inr ()" if "0 \<le> x" "p \<longrightarrow> 0 < x" for x f p
    using that by auto
  show "fifo_allocation l before after m n = Inr (fifo_take_allocation n l m)"
    using assms opn mono
    by (simp add: fifo_allocation_def sub SourceLotDisposalAllocation_def ids dec fifo_take_allocation_def)
  show "ledger_allocation (fifo_take_allocation n l m)"
    using diffs mono assms by (auto simp: ledger_allocation_def fifo_take_allocation_def lot_wf_def ledger_amount_iff)
  show "consumed_cost_local (fifo_take_allocation n l m) \<le> lot_cost_local l"
    "consumed_cost_base (fifo_take_allocation n l m) \<le> lot_cost_base l"
    using costs by (simp_all add: fifo_take_allocation_def)
qed

lemma consume_next_wf:
  assumes wf: "lot_wf l" "lot_named l" "0 < remaining_quantity l" and l: "store ! a = l"
    and req: "ledger_amount required" "0 < required" and n: "1 \<le> n"
    and m: "m = min required (remaining_quantity l)"
  shows "consume_next_fifo_lot (store, a # deque) required n =
    (Inr (fifo_take_allocation n l m, required - m),
     (store[a := l\<lparr>remaining_quantity := remaining_quantity l - m\<rparr>],
      if remaining_quantity l \<le> required then deque else a # deque))"
proof -
  have rem: "ledger_amount (remaining_quantity l)" using wf by (simp add: lot_wf_def)
  have lm: "ledger_amount m" "0 < m" "m \<le> remaining_quantity l" "m \<le> required"
    using wf req rem by (auto simp: m intro: storable_min)
  have sub: "policy_subtract state_policy f (remaining_quantity l) m = Inr (remaining_quantity l - m)"
    "policy_subtract state_policy f required m = Inr (required - m)" for f
    using rem lm req by (auto intro!: cost_state.policy_subtract_le)
  have zero: "remaining_quantity l - m = 0 \<longleftrightarrow> remaining_quantity l \<le> required"
    using m by (auto simp: min_def)
  let ?l = "l\<lparr>remaining_quantity := remaining_quantity l - m\<rparr>"
  have rest: "lot_wf ?l"
    using wf lm by (intro lot_wf_remaining) (auto simp: lot_wf_def ledger_amount_iff)
  define after where "after = (if remaining_quantity l - m = 0
    then \<lparr>ols_original_quantity = lot_original_quantity l, ols_quantity = 0, ols_cost_local = 0,
          ols_cost_base = 0, ols_amortized_cost = None\<rparr> else lot_view ?l)"
  have orig: "0 \<le> lot_original_quantity l" using wf by (auto simp: lot_wf_def)
  have after: "(if remaining_quantity l - m = 0 then OpenLotState (lot_original_quantity l) 0 0 0 None
     else open_state ?l) = Inr after"
    using open_state_wf [OF rest] orig by (simp add: after_def OpenLotState_Inr)
  have "fifo_allocation l (lot_view l) after m n = Inr (fifo_take_allocation n l m)"
    by (rule fifo_allocation_wf) (use wf lm n in \<open>auto simp: after_def ledger_amount_iff\<close>)
  then show ?thesis
    using after zero
    by (simp add: l open_state_wf [OF wf(1)] sub flip: m)
qed

section \<open>The FIFO discipline\<close>

text \<open>The specification: walk the book in acquisition order, exhaust each lot before the next.\<close>

fun fifo_take :: "nat \<Rightarrow> cost_lot list \<Rightarrow> rat \<Rightarrow> source_lot_disposal_allocation list" where
  "fifo_take n [] required = []"
| "fifo_take n (l # ls) required =
     (if required \<le> 0 then []
      else let m = min required (remaining_quantity l) in
           fifo_take_allocation n l m # fifo_take (n + 1) ls (required - m))"

fun fifo_rest :: "cost_lot list \<Rightarrow> rat \<Rightarrow> cost_lot list" where
  "fifo_rest [] required = []"
| "fifo_rest (l # ls) required =
     (if required \<le> 0 then l # ls
      else if remaining_quantity l \<le> required then fifo_rest ls (required - remaining_quantity l)
      else l\<lparr>remaining_quantity := remaining_quantity l - required\<rparr> # ls)"

abbreviation book_quantity :: "cost_lot list \<Rightarrow> rat" where
  "book_quantity ls \<equiv> (\<Sum>l\<leftarrow>ls. remaining_quantity l)"

abbreviation book_cost_local :: "cost_lot list \<Rightarrow> rat" where
  "book_cost_local ls \<equiv> (\<Sum>l\<leftarrow>ls. lot_cost_local l)"

abbreviation book_cost_base :: "cost_lot list \<Rightarrow> rat" where
  "book_cost_base ls \<equiv> (\<Sum>l\<leftarrow>ls. lot_cost_base l)"

definition open_lot_wf :: "cost_lot \<Rightarrow> bool" where
  "open_lot_wf l \<longleftrightarrow> lot_wf l \<and> lot_named l \<and> 0 < remaining_quantity l"

lemma open_lot_wfD:
  assumes "open_lot_wf l"
  shows "lot_wf l" "lot_named l" "0 < remaining_quantity l" "on_scale 10 (remaining_quantity l)"
    "ledger_amount (remaining_quantity l)"
  using assms by (auto simp: open_lot_wf_def lot_wf_def ledger_amount_iff)

lemma book_quantity_nonneg: "(\<And>l. l \<in> set ls \<Longrightarrow> open_lot_wf l) \<Longrightarrow> 0 \<le> book_quantity ls"
  by (intro sum_list_nonneg') (auto dest!: open_lot_wfD(3) intro: less_imp_le)

lemma book_costs_nonneg:
  assumes "\<And>l. l \<in> set ls \<Longrightarrow> open_lot_wf l"
  shows "0 \<le> book_cost_local ls" "0 \<le> book_cost_base ls"
proof -
  have "0 \<le> lot_cost_local l \<and> 0 \<le> lot_cost_base l" if "l \<in> set ls" for l
    using lot_wf_costs [OF open_lot_wfD(1) [OF assms [OF that]]] by simp
  then show "0 \<le> book_cost_local ls" "0 \<le> book_cost_base ls" by (auto intro!: sum_list_nonneg')
qed

lemma fifo_take_done [simp]: "required \<le> 0 \<Longrightarrow> fifo_take n ls required = []"
  by (cases ls) auto

lemma fifo_rest_done [simp]: "required \<le> 0 \<Longrightarrow> fifo_rest ls required = ls"
  by (cases ls) auto

lemma fifo_take_allocation_simps [simp]:
  "consumed_quantity (fifo_take_allocation n l m) = m"
  "allocation_ordinal (fifo_take_allocation n l m) = n"
  "source_lot_id (fifo_take_allocation n l m) = py_strip (lot_id l)"
  by (simp_all add: fifo_take_allocation_def)

lemma fifo_take_quantity:
  assumes "\<And>l. l \<in> set ls \<Longrightarrow> open_lot_wf l" "0 \<le> required"
  shows "(\<Sum>a\<leftarrow>fifo_take n ls required. consumed_quantity a) = min required (book_quantity ls)"
  using assms
proof (induction n ls required rule: fifo_take.induct)
  case (2 n l ls required)
  have "0 \<le> book_quantity ls" using "2.prems" by (intro book_quantity_nonneg) auto
  moreover have "0 < remaining_quantity l" using "2.prems" by (auto dest: open_lot_wfD)
  ultimately show ?case
    using 2 by (cases "required \<le> remaining_quantity l") (auto simp: Let_def min_def)
qed simp

lemma fifo_take_costs:
  "(\<Sum>a\<leftarrow>fifo_take n ls required. consumed_cost_local a) =
     book_cost_local ls - book_cost_local (fifo_rest ls required)"
  "(\<Sum>a\<leftarrow>fifo_take n ls required. consumed_cost_base a) =
     book_cost_base ls - book_cost_base (fifo_rest ls required)"
  by (induction n ls required rule: fifo_take.induct)
    (auto simp: Let_def min_def fifo_take_allocation_def)

lemma fifo_rest_wf:
  assumes "\<And>l. l \<in> set ls \<Longrightarrow> open_lot_wf l" "on_scale 10 required"
  shows "l \<in> set (fifo_rest ls required) \<Longrightarrow> open_lot_wf l"
  using assms
proof (induction ls required rule: fifo_rest.induct)
  case (2 l' ls required)
  have "on_scale 10 (remaining_quantity l')" using "2.prems" by (auto dest: open_lot_wfD)
  moreover have "open_lot_wf (l'\<lparr>remaining_quantity := remaining_quantity l' - required\<rparr>)"
    if "0 < required" "required < remaining_quantity l'"
    using lot_wf_remaining [of l' "remaining_quantity l' - required"] calculation 2 that
    by (auto simp: open_lot_wf_def lot_named_def)
  ultimately show ?case using 2 by (auto split: if_splits)
qed simp

lemma fifo_take_ledger:
  assumes "\<And>l. l \<in> set ls \<Longrightarrow> open_lot_wf l" "on_scale 10 required" "1 \<le> n"
  shows "a \<in> set (fifo_take n ls required) \<Longrightarrow> ledger_allocation a"
  using assms
proof (induction n ls required arbitrary: a rule: fifo_take.induct)
  case (2 n l ls required)
  define m where "m = min required (remaining_quantity l)"
  have "open_lot_wf l" using "2.prems" by simp
  then have l: "lot_wf l" "lot_named l" "0 < remaining_quantity l" and sc: "on_scale 10 (remaining_quantity l)"
    by (auto dest: open_lot_wfD)
  have "ledger_allocation (fifo_take_allocation n l m)" if "0 < required"
    by (rule fifo_allocation_wf(2) [where after = "lot_view (l\<lparr>remaining_quantity := remaining_quantity l - m\<rparr>)"])
      (use l sc that "2.prems" in \<open>auto simp: m_def\<close>)
  moreover have "on_scale 10 (required - m)" using 2 sc by (auto simp: m_def)
  ultimately show ?case
    using 2 by (auto simp: Let_def simp flip: m_def split: if_splits)
qed simp

lemma fifo_take_ordinals: "map allocation_ordinal (fifo_take n ls required) = [n..<n + length (fifo_take n ls required)]"
  by (induction n ls required rule: fifo_take.induct) (auto simp: Let_def upt_rec)

lemma fifo_take_ids: "\<exists>k. map source_lot_id (fifo_take n ls required) = map (\<lambda>l. py_strip (lot_id l)) (take k ls)"
proof (induction n ls required rule: fifo_take.induct)
  case (2 n l ls required)
  show ?case
  proof (cases "required \<le> 0")
    case False
    with 2 obtain k where "map source_lot_id (fifo_take (n + 1) ls (required - min required (remaining_quantity l))) =
      map (\<lambda>l. py_strip (lot_id l)) (take k ls)" by blast
    then have "map source_lot_id (fifo_take n (l # ls) required) = map (\<lambda>l. py_strip (lot_id l)) (take (Suc k) (l # ls))"
      using False by (simp add: Let_def)
    then show ?thesis by blast
  qed (auto intro: exI [of _ 0])
qed (auto intro: exI [of _ 0])

declare fifo_consume_loop.simps [simp del]

lemma fifo_consume_loop_done:
  "\<not> 0 < required \<or> deque = [] \<Longrightarrow>
   fifo_consume_loop (store, deque) required (as, b, l, q) = (Inr (as, b, l, q), (store, deque))"
  by (subst fifo_consume_loop.simps) simp

lemma nonneg_adds:
  "policy_add state_policy f x y = Inr (x + y)" "ledger_amount (x + y)" "0 \<le> x + y"
  if "ledger_amount x" "0 \<le> x" "ledger_amount y" "0 \<le> y" "x + y < ledger_limit" for f x y
  using that by (auto simp: cost_state.policy_add_exact ledger_amount_iff)

text \<open>What a disposal leaves of the store: other lots untouched, drained lots at zero.\<close>

definition fifo_drained :: "cost_lot list \<Rightarrow> nat list \<Rightarrow> cost_lot list \<Rightarrow> nat list \<Rightarrow> bool" where
  "fifo_drained store deque store' deque' \<longleftrightarrow>
     length store' = length store \<and> (\<exists>k. deque' = drop k deque) \<and>
     (\<forall>a. a \<notin> set deque \<longrightarrow> store' ! a = store ! a) \<and>
     (\<forall>a \<in> set deque. lot_wf (store' ! a))"

lemma fifo_drained_pop:
  assumes "fifo_drained (store[a := l]) deque store' deque'" "lot_wf l" "a \<notin> set deque" "a < length store"
  shows "fifo_drained store (a # deque) store' deque'"
proof -
  have "\<exists>k. deque' = drop k (a # deque)"
    using assms(1) by (auto simp: fifo_drained_def intro: exI [of _ "Suc k" for k])
  then show ?thesis using assms by (auto simp: fifo_drained_def)
qed

lemma fifo_drained_partial:
  assumes "lot_wf l" "\<And>b. b \<in> set deque \<Longrightarrow> lot_wf (store ! b)" "a < length store"
  shows "fifo_drained store (a # deque) (store[a := l]) (a # deque)"
  using assms by (auto simp: fifo_drained_def nth_list_update intro: exI [of _ 0])

lemma fifo_consume_loop_wf:
  assumes "distinct deque" "\<And>a. a \<in> set deque \<Longrightarrow> a < length store \<and> open_lot_wf (store ! a)"
    and "ledger_amount required" "0 \<le> required"
    and "ledger_amount b" "0 \<le> b" "b + book_cost_base (map ((!) store) deque) < ledger_limit"
    and "ledger_amount l" "0 \<le> l" "l + book_cost_local (map ((!) store) deque) < ledger_limit"
    and "ledger_amount q" "0 \<le> q" "q + required < ledger_limit"
  shows "\<exists>store' deque'. fifo_consume_loop (store, deque) required (as, b, l, q) =
      (let ts = fifo_take (length as + 1) (map ((!) store) deque) required in
       (Inr (as @ ts, b + (\<Sum>a\<leftarrow>ts. consumed_cost_base a), l + (\<Sum>a\<leftarrow>ts. consumed_cost_local a),
             q + (\<Sum>a\<leftarrow>ts. consumed_quantity a)), (store', deque'))) \<and>
    map ((!) store') deque' = fifo_rest (map ((!) store) deque) required \<and>
    fifo_drained store deque store' deque'"
  using assms
proof (induction deque arbitrary: store required as b l q)
  case Nil
  then show ?case by (auto simp: fifo_consume_loop_done fifo_drained_def)
next
  case (Cons a deque)
  show ?case
  proof (cases "0 < required")
    case False
    then show ?thesis
      using Cons.prems(2)
      by (auto simp: fifo_consume_loop_done fifo_drained_def dest: open_lot_wfD intro!: exI [of _ 0])
  next
    case True
    define lot where "lot = store ! a"
    define m where "m = min required (remaining_quantity lot)"
    define n where "n = length as + 1"
    define lot' where "lot' = lot\<lparr>remaining_quantity := remaining_quantity lot - m\<rparr>"
    define t where "t = fifo_take_allocation n lot m"
    have lot: "open_lot_wf lot" and a: "a < length store" "a \<notin> set deque"
      using Cons.prems by (auto simp: lot_def)
    note lotD = open_lot_wfD [OF lot]
    have m: "0 < m" "m \<le> remaining_quantity lot" "m \<le> required" "on_scale 10 m"
      using lotD True Cons.prems by (auto simp: m_def ledger_amount_iff)
    have lot': "lot_wf lot'" using lotD m unfolding lot'_def by (intro lot_wf_remaining) auto
    have t: "ledger_allocation t" "consumed_cost_local t \<le> lot_cost_local lot"
      "consumed_cost_base t \<le> lot_cost_base lot"
      using fifo_allocation_wf [of lot m n _ "lot_view lot'"] lotD m
      by (auto simp: t_def n_def lot'_def)
    have others: "map ((!) (store[a := lot'])) deque = map ((!) store) deque"
      using a by (intro map_cong refl nth_list_update_neq) auto
    have nonneg: "0 \<le> book_cost_base (map ((!) store) deque)" "0 \<le> book_cost_local (map ((!) store) deque)"
      using Cons.prems(2) by (intro book_costs_nonneg; auto)+
    have bounds: "b + consumed_cost_base t + book_cost_base (map ((!) store) deque) < ledger_limit"
      "l + consumed_cost_local t + book_cost_local (map ((!) store) deque) < ledger_limit"
      "q + m + (required - m) < ledger_limit"
      using Cons.prems t by (simp_all flip: lot_def)
    have step: "consume_next_fifo_lot (store, a # deque) required n =
        (Inr (t, required - m), (store[a := lot'], if remaining_quantity lot \<le> required then deque else a # deque))"
      unfolding t_def lot'_def using lotD True Cons.prems
      by (intro consume_next_wf) (auto simp: lot_def m_def n_def)
    have tD: "ledger_amount (consumed_cost_base t)" "0 \<le> consumed_cost_base t"
      "ledger_amount (consumed_cost_local t)" "0 \<le> consumed_cost_local t" "ledger_amount m" "0 \<le> m"
      "consumed_quantity t = m"
      using t(1) by (simp_all add: ledger_allocation_def t_def)
    note base = nonneg_adds [OF Cons.prems(5,6) tD(1,2)]
    note local = nonneg_adds [OF Cons.prems(8,9) tD(3,4)]
    note qty = nonneg_adds [OF Cons.prems(11,12) tD(5,6)]
    have lims: "b + consumed_cost_base t < ledger_limit" "l + consumed_cost_local t < ledger_limit"
      "q + m < ledger_limit" using bounds nonneg m by linarith+
    note adds = base [OF lims(1)] local [OF lims(2)] qty [OF lims(3)]
    let ?rec = "\<lambda>d. fifo_consume_loop (store[a := lot'], d) (required - m)
       (as @ [t], b + consumed_cost_base t, l + consumed_cost_local t, q + m)"
    have loop: "fifo_consume_loop (store, a # deque) required (as, b, l, q) =
        ?rec (if remaining_quantity lot \<le> required then deque else a # deque)"
      by (subst fifo_consume_loop.simps) (use True step in \<open>simp add: n_def adds tD(7)\<close>)
    have take: "fifo_take n (map ((!) store) (a # deque)) required =
        t # fifo_take (n + 1) (map ((!) store) deque) (required - m)"
      using True by (simp add: t_def m_def Let_def flip: lot_def)
    show ?thesis
    proof (cases "remaining_quantity lot \<le> required")
      case True': True
      have m': "m = remaining_quantity lot" using True' by (simp add: m_def)
      define ts where "ts = fifo_take (n + 1) (map ((!) store) deque) (required - m)"
      have "\<exists>store' deque'. ?rec deque =
        (let ts = fifo_take (length (as @ [t]) + 1) (map ((!) (store[a := lot'])) deque) (required - m) in
         (Inr ((as @ [t]) @ ts, b + consumed_cost_base t + (\<Sum>a\<leftarrow>ts. consumed_cost_base a),
          l + consumed_cost_local t + (\<Sum>a\<leftarrow>ts. consumed_cost_local a),
          q + m + (\<Sum>a\<leftarrow>ts. consumed_quantity a)), (store', deque'))) \<and>
        map ((!) store') deque' = fifo_rest (map ((!) (store[a := lot'])) deque) (required - m) \<and>
        fifo_drained (store[a := lot']) deque store' deque'"
      proof (rule Cons.IH)
        show "ledger_amount (required - m)"
          using Cons.prems(3) tD(5,6) m(3) by (rule cost_state.policy_subtract_le(2))
        show "distinct deque" using Cons.prems(1) by simp
        show "x < length (store[a := lot']) \<and> open_lot_wf (store[a := lot'] ! x)" if "x \<in> set deque" for x
          using Cons.prems(2) [of x] a that by (cases "x = a") auto
        show "0 \<le> required - m" using m by simp
      qed (use adds bounds in \<open>simp_all only: others\<close>)
      then obtain store' deque' where rec: "?rec deque = (Inr (as @ t # ts,
          b + consumed_cost_base t + (\<Sum>a\<leftarrow>ts. consumed_cost_base a),
          l + consumed_cost_local t + (\<Sum>a\<leftarrow>ts. consumed_cost_local a),
          q + m + (\<Sum>a\<leftarrow>ts. consumed_quantity a)), (store', deque'))"
        and rest: "map ((!) store') deque' = fifo_rest (map ((!) store) deque) (required - m)"
        and drained: "fifo_drained (store[a := lot']) deque store' deque'"
        by (auto simp: others ts_def n_def Let_def)
      have "fifo_rest (map ((!) store) (a # deque)) required = map ((!) store') deque'"
        using True True' rest by (simp add: m' flip: lot_def)
      moreover have "fifo_drained store (a # deque) store' deque'"
        by (rule fifo_drained_pop [OF drained lot' a(2,1)])
      ultimately show ?thesis
        using loop take True' rec tD(7) by (auto simp: n_def ts_def add.assoc Let_def)
    next
      case False
      then have "required - m = 0" by (simp add: m_def)
      moreover have "fifo_drained store (a # deque) (store[a := lot']) (a # deque)"
        using Cons.prems(2) a lot' by (intro fifo_drained_partial) (auto dest: open_lot_wfD)
      moreover have "map ((!) (store[a := lot'])) (a # deque) = fifo_rest (map ((!) store) (a # deque)) required"
        using True False a others by (simp add: lot'_def m_def flip: lot_def)
      ultimately show ?thesis
        using loop take False tD(7) by (auto simp: fifo_consume_loop_done n_def Let_def)
    qed
  qed
qed

section \<open>The book invariant\<close>

definition book_lots :: "fifo_state \<Rightarrow> lot_key \<Rightarrow> cost_lot list" where
  "book_lots s key = map ((!) (fifo_store s)) (fifo_open_lots s key)"

abbreviation lot_names :: "cost_lot list \<Rightarrow> string list" where
  "lot_names ls \<equiv> map (\<lambda>l. py_strip (lot_id l)) ls"

definition book_wf :: "fifo_state \<Rightarrow> lot_key \<Rightarrow> bool" where
  "book_wf s key \<longleftrightarrow>
     distinct (fifo_open_lots s key) \<and>
     (\<forall>a \<in> set (fifo_open_lots s key). a < length (fifo_store s) \<and> open_lot_wf (fifo_store s ! a)) \<and>
     distinct (lot_names (book_lots s key)) \<and>
     available_quantities s key = book_quantity (book_lots s key) \<and>
     ledger_amount (available_quantities s key)"

definition fifo_wf :: "fifo_state \<Rightarrow> bool" where
  "fifo_wf s \<longleftrightarrow>
     (\<forall>key. book_wf s key) \<and>
     (\<forall>key key'. key \<noteq> key' \<longrightarrow> set (fifo_open_lots s key) \<inter> set (fifo_open_lots s key') = {}) \<and>
     (\<forall>a < length (fifo_store s). lot_wf (fifo_store s ! a)) \<and>
     (\<forall>p \<in> set (lots_by_transaction_id s). snd p < length (fifo_store s))"

lemma fifo_wfD:
  assumes "fifo_wf s"
  shows "book_wf s key" "key \<noteq> key' \<Longrightarrow> set (fifo_open_lots s key) \<inter> set (fifo_open_lots s key') = {}"
    "a < length (fifo_store s) \<Longrightarrow> lot_wf (fifo_store s ! a)"
    "p \<in> set (lots_by_transaction_id s) \<Longrightarrow> snd p < length (fifo_store s)"
  using assms unfolding fifo_wf_def by blast+

lemma fifo_wfI:
  assumes "\<And>key. book_wf s key"
    "\<And>key key'. key \<noteq> key' \<Longrightarrow> set (fifo_open_lots s key) \<inter> set (fifo_open_lots s key') = {}"
    "\<And>a. a < length (fifo_store s) \<Longrightarrow> lot_wf (fifo_store s ! a)"
    "\<And>p. p \<in> set (lots_by_transaction_id s) \<Longrightarrow> snd p < length (fifo_store s)"
  shows "fifo_wf s"
  using assms unfolding fifo_wf_def by blast

lemma fifo_initial_wf: "fifo_wf FIFOBasisStrategy"
  by (simp add: fifo_wf_def book_wf_def book_lots_def FIFOBasisStrategy_def)

lemma book_lots_open: "book_wf s key \<Longrightarrow> l \<in> set (book_lots s key) \<Longrightarrow> open_lot_wf l"
  by (auto simp: book_wf_def book_lots_def)

text \<open>An operation on one book that only rewrites lots of that book keeps the invariant.\<close>

lemma fifo_wf_rewrite_book:
  assumes wf: "fifo_wf s"
    and sub: "set deque' \<subseteq> set (fifo_open_lots s key)" "distinct deque'"
    and store: "length store' = length (fifo_store s)"
      "\<And>a. a \<notin> set (fifo_open_lots s key) \<Longrightarrow> store' ! a = fifo_store s ! a"
    and lots: "\<And>a. a \<in> set (fifo_open_lots s key) \<Longrightarrow> lot_wf (store' ! a)"
      "\<And>a. a \<in> set deque' \<Longrightarrow> open_lot_wf (store' ! a)"
      "distinct (lot_names (map ((!) store') deque'))"
    and avail: "available' = book_quantity (map ((!) store') deque')" "ledger_amount available'"
    and s': "s' = s\<lparr>fifo_store := store', fifo_open_lots := (fifo_open_lots s)(key := deque'),
      available_quantities := (available_quantities s)(key := available')\<rparr>"
  shows "fifo_wf s' \<and> book_lots s' key = map ((!) store') deque' \<and>
    (\<forall>key'. key' \<noteq> key \<longrightarrow> book_lots s' key' = book_lots s key')"
proof -
  note disjoint = fifo_wfD(2) [OF wf]
  have other: "book_lots s' k = book_lots s k" if "k \<noteq> key" for k
  proof -
    have "store' ! a = fifo_store s ! a" if "a \<in> set (fifo_open_lots s k)" for a
      using disjoint [OF \<open>k \<noteq> key\<close>] that by (intro store(2)) auto
    then show ?thesis using that by (simp add: s' book_lots_def)
  qed
  have this_book: "book_lots s' key = map ((!) store') deque'" by (simp add: s' book_lots_def)
  have "\<forall>a \<in> set deque'. a < length store' \<and> open_lot_wf (store' ! a)"
    using sub(1) lots(2) store(1) fifo_wfD(1) [OF wf, of key] by (auto simp: book_wf_def)
  then have "book_wf s' key"
    unfolding book_wf_def this_book using sub(2) lots(3) avail by (simp add: s')
  moreover have "book_wf s' k" if k: "k \<noteq> key" for k
  proof -
    have "store' ! a = fifo_store s ! a" if "a \<in> set (fifo_open_lots s k)" for a
      using disjoint [OF k] that by (intro store(2)) auto
    then show ?thesis
      using fifo_wfD(1) [OF wf, of k] k store(1) unfolding book_wf_def other [OF k]
      by (elim conjE) (simp add: s')
  qed
  ultimately have books: "book_wf s' k" for k by (cases "k = key") auto
  have "fifo_wf s'"
  proof (rule fifo_wfI)
    show "lot_wf (fifo_store s' ! a)" if "a < length (fifo_store s')" for a
      using that store lots(1) fifo_wfD(3) [OF wf] by (cases "a \<in> set (fifo_open_lots s key)") (auto simp: s')
    show "set (fifo_open_lots s' k) \<inter> set (fifo_open_lots s' k') = {}" if "k \<noteq> k'" for k k'
      using disjoint [OF that] disjoint [of key k'] disjoint [of k key] that sub(1) by (auto simp: s')
    show "snd p < length (fifo_store s')" if "p \<in> set (lots_by_transaction_id s')" for p
      using that fifo_wfD(4) [OF wf] store(1) by (simp add: s')
  qed (rule books)
  then show ?thesis using this_book other by blast
qed

section \<open>Disposal is first in, first out and conserves the book\<close>

lemma fifo_rest_names: "\<exists>k. lot_names (fifo_rest ls required) = drop k (lot_names ls)"
proof (induction ls required rule: fifo_rest.induct)
  case (2 l ls required)
  then show ?case
    by (cases "required \<le> 0"; cases "remaining_quantity l \<le> required")
      (auto intro: exI [of _ 0] exI [of _ "Suc k" for k])
qed simp

lemma fifo_rest_quantity:
  assumes "\<And>l. l \<in> set ls \<Longrightarrow> open_lot_wf l" "0 \<le> required" "required \<le> book_quantity ls"
  shows "book_quantity (fifo_rest ls required) = book_quantity ls - required"
  using assms
proof (induction ls required rule: fifo_rest.induct)
  case (2 l ls required)
  show ?case
    using 2 by (cases "required \<le> 0"; cases "remaining_quantity l \<le> required") auto
qed simp

lemma fifo_consume_wf:
  assumes wf: "fifo_wf s" and q: "ledger_amount q" "0 < q" and key: "key = (p, i)"
    and avail: "q \<le> available_quantities s key"
    and costs: "book_cost_local (book_lots s key) < ledger_limit" "book_cost_base (book_lots s key) < ledger_limit"
  shows "\<exists>s'. fifo_consume_sell_quantity_with_allocations p i q s =
      (Inr \<lparr>ldr_cost_base = book_cost_base (book_lots s key) - book_cost_base (book_lots s' key),
        ldr_cost_local = book_cost_local (book_lots s key) - book_cost_local (book_lots s' key),
        ldr_consumed_quantity = q, ldr_allocations = fifo_take 1 (book_lots s key) q,
        ldr_error_reason = None\<rparr>, s') \<and> fifo_wf s' \<and>
    book_lots s' key = fifo_rest (book_lots s key) q \<and>
    available_quantities s' = (available_quantities s)(key := available_quantities s key - q) \<and>
    (\<forall>key'. key' \<noteq> key \<longrightarrow> book_lots s' key' = book_lots s key')"
proof -
  define ls where "ls = book_lots s key"
  define ts where "ts = fifo_take 1 ls q"
  have book: "book_wf s key" by (rule fifo_wfD(1) [OF wf])
  have lots: "\<And>l. l \<in> set ls \<Longrightarrow> open_lot_wf l" using book_lots_open [OF book] by (simp add: ls_def)
  have aq: "available_quantities s key = book_quantity ls" "ledger_amount (available_quantities s key)"
    using book by (auto simp: book_wf_def ls_def)
  have qty: "(\<Sum>a\<leftarrow>ts. consumed_quantity a) = q"
    unfolding ts_def using fifo_take_quantity [of ls q 1] lots q avail aq by simp
  have "0 + q < ledger_limit" using q by (simp add: ledger_amount_iff)
  note fifo_consume_loop_wf [of "fifo_open_lots s key" "fifo_store s" q 0 0 0 "[]"]
  from this [OF _ _ q(1) less_imp_le [OF q(2)] cost_state.storable_0 order_refl _ cost_state.storable_0
      order_refl _ cost_state.storable_0 order_refl \<open>0 + q < ledger_limit\<close>]
  obtain store' deque' where
    loop: "fifo_consume_loop (fifo_store s, fifo_open_lots s key) q ([], 0, 0, 0) =
      (Inr (ts, \<Sum>a\<leftarrow>ts. consumed_cost_base a, \<Sum>a\<leftarrow>ts. consumed_cost_local a, q), (store', deque'))"
    and rest: "map ((!) store') deque' = fifo_rest ls q"
    and drained: "fifo_drained (fifo_store s) (fifo_open_lots s key) store' deque'"
    using qty book costs by (auto simp: Let_def ts_def ls_def book_lots_def book_wf_def comp_def)
  define available' where "available' = available_quantities s key - q"
  have sub: "policy_subtract state_policy ''available_quantity'' (available_quantities s key) q = Inr available'"
    and ledger': "ledger_amount available'"
    unfolding available'_def using aq q avail by (auto intro!: cost_state.policy_subtract_le)
  define s' where "s' = s\<lparr>fifo_store := store', fifo_open_lots := (fifo_open_lots s)(key := deque'),
    available_quantities := (available_quantities s)(key := available')\<rparr>"
  obtain k where k: "deque' = drop k (fifo_open_lots s key)" using drained by (auto simp: fifo_drained_def)
  have rest_open: "\<And>l. l \<in> set (map ((!) store') deque') \<Longrightarrow> open_lot_wf l"
    unfolding rest using fifo_rest_wf [of ls q] lots q by (auto simp: ledger_amount_iff)
  obtain k' where names: "lot_names (fifo_rest ls q) = drop k' (lot_names ls)"
    using fifo_rest_names by blast
  have wf': "fifo_wf s' \<and> book_lots s' key = map ((!) store') deque' \<and>
    (\<forall>key'. key' \<noteq> key \<longrightarrow> book_lots s' key' = book_lots s key')"
  proof (rule fifo_wf_rewrite_book [OF wf _ _ _ _ _ _ _ _ ledger' s'_def])
    show "set deque' \<subseteq> set (fifo_open_lots s key)" by (simp add: k set_drop_subset)
    show "distinct deque'" using book by (simp add: k book_wf_def)
    show "distinct (lot_names (map ((!) store') deque'))"
      unfolding rest names using book by (simp add: book_wf_def ls_def)
    show "available' = book_quantity (map ((!) store') deque')"
      unfolding rest available'_def using aq avail q fifo_rest_quantity [of ls q] lots by simp
  qed (use drained rest_open in \<open>auto simp: fifo_drained_def\<close>)
  have result: "LotDisposalResult \<lparr>ldr_cost_base = \<Sum>a\<leftarrow>ts. consumed_cost_base a,
      ldr_cost_local = \<Sum>a\<leftarrow>ts. consumed_cost_local a, ldr_consumed_quantity = q,
      ldr_allocations = ts, ldr_error_reason = None\<rparr> =
    Inr \<lparr>ldr_cost_base = \<Sum>a\<leftarrow>ts. consumed_cost_base a,
      ldr_cost_local = \<Sum>a\<leftarrow>ts. consumed_cost_local a, ldr_consumed_quantity = q,
      ldr_allocations = ts, ldr_error_reason = None\<rparr>" (is "LotDisposalResult ?r = _")
  proof -
    have ledger: "\<And>a. a \<in> set ts \<Longrightarrow> ledger_allocation a"
      unfolding ts_def using fifo_take_ledger [of ls q 1] lots q by (auto simp: ledger_amount_iff)
    have rest_costs: "0 \<le> book_cost_local (fifo_rest ls q)" "0 \<le> book_cost_base (fifo_rest ls q)"
      using rest_open unfolding rest by (auto intro!: book_costs_nonneg)
    have lims: "ldr_cost_local ?r < ledger_limit" "ldr_cost_base ?r < ledger_limit" "q < ledger_limit"
      using costs q rest_costs by (auto simp: ts_def fifo_take_costs ls_def ledger_amount_iff)
    have lineage: "build_conserved_allocation_lineage ?r = Inr ()"
      by (rule disposal_lineage_ok) (use ledger qty lims in simp_all)
    have nonneg: "0 \<le> ldr_cost_local ?r" "0 \<le> ldr_cost_base ?r"
      using ledger by (auto intro!: sum_list_nonneg' simp: ledger_allocation_def)
    have "distinct (map source_lot_id ts)"
    proof -
      obtain k where "map source_lot_id ts = lot_names (take k ls)"
        using fifo_take_ids [of 1 ls q] by (auto simp: ts_def)
      then show ?thesis using book by (simp add: book_wf_def ls_def flip: take_map)
    qed
    moreover have "map allocation_ordinal ts = [1..<length ts + 1]"
      using fifo_take_ordinals [of 1 ls q] by (simp add: ts_def)
    moreover have "ts \<noteq> []" using qty q by auto
    ultimately show ?thesis
      using lineage nonneg q by (simp add: LotDisposalResult_def require_decimal_def)
  qed
  have final: "fifo_consume_sell_quantity_with_allocations p i q s = (Inr ?r, s')"
    using loop sub result q avail
    by (simp add: fifo_consume_sell_quantity_with_allocations_def Let_def
        non_positive_sell_quantity_error_def fifo_set_book_def s'_def flip: key)
  have book': "book_lots s' key = fifo_rest ls q" using wf' rest by simp
  have "(\<Sum>a\<leftarrow>ts. consumed_cost_base a) = book_cost_base (book_lots s key) - book_cost_base (book_lots s' key)"
    "(\<Sum>a\<leftarrow>ts. consumed_cost_local a) = book_cost_local (book_lots s key) - book_cost_local (book_lots s' key)"
    unfolding book' by (simp_all add: ts_def fifo_take_costs ls_def)
  then show ?thesis
    using final wf' book'
    by (intro exI [of _ s']) (simp add: ts_def ls_def s'_def available'_def)
qed

section \<open>Acquisition\<close>

lemma new_cost_lot_wf:
  assumes q: "ledger_amount q" "0 < q" and costs: "ledger_amount base" "0 \<le> base" "ledger_amount local" "0 \<le> local"
    and original: "source_lot_original_quantity_of t q = Inr original" "q \<le> original"
    and named: "py_strip (transaction_id t) \<noteq> []" "py_strip (''LOT-'' @ transaction_id t) \<noteq> []"
  obtains l where "new_cost_lot t q base local = Inr l" "open_lot_wf l"
    "lot_transaction_id l = transaction_id t" "lot_id l = ''LOT-'' @ transaction_id t"
    "acquisition_date l = utc_transaction_date t"
    "lot_view l = \<lparr>ols_original_quantity = original, ols_quantity = q, ols_cost_local = local,
       ols_cost_base = base, ols_amortized_cost = None\<rparr>"
proof -
  let ?cps = "\<lambda>c. sig_round (context_precision state_policy) (c / q)"
  let ?l = "\<lparr>lot_transaction_id = transaction_id t, lot_id = ''LOT-'' @ transaction_id t,
    acquisition_date = utc_transaction_date t, lot_original_quantity = original, remaining_quantity = q,
    cost_per_share_local = ?cps local, cost_per_share_base = ?cps base\<rparr>"
  note lot = new_lot_wf [OF q original(2) costs(3,4,1,2) refl]
  show thesis
  proof (rule that)
    show "new_cost_lot t q base local = Inr ?l"
      using q original by (simp add: new_cost_lot_def dec_div_def CostLot_def)
    show "open_lot_wf ?l" using lot(1) named q by (simp add: open_lot_wf_def lot_named_def)
    show "lot_view ?l = \<lparr>ols_original_quantity = original, ols_quantity = q, ols_cost_local = local,
       ols_cost_base = base, ols_amortized_cost = None\<rparr>"
      using lot(2,3) by (simp add: lot_view_def)
  qed simp_all
qed

lemma fifo_append_lots:
  "book_lots (fifo_append_lot key l s) key = map ((!) (fifo_store s @ [l])) (fifo_open_lots s key) @ [l]"
  by (simp add: book_lots_def fifo_append_lot_def Let_def)

lemma fifo_append_wf:
  assumes wf: "fifo_wf s" and l: "open_lot_wf l" and fresh: "py_strip (lot_id l) \<notin> set (lot_names (book_lots s key))"
    and avail: "ledger_amount (available_quantities s key + remaining_quantity l)"
    and s': "s' = (fifo_append_lot key l s)\<lparr>available_quantities :=
      (available_quantities s)(key := available_quantities s key + remaining_quantity l)\<rparr>"
  shows "fifo_wf s' \<and> book_lots s' key = book_lots s key @ [l] \<and>
    (\<forall>key'. key' \<noteq> key \<longrightarrow> book_lots s' key' = book_lots s key')"
proof -
  have valid: "a < length (fifo_store s)" if "a \<in> set (fifo_open_lots s k)" for a k
    using fifo_wfD(1) [OF wf, of k] that by (auto simp: book_wf_def)
  then have old: "(fifo_store s @ [l]) ! a = fifo_store s ! a" if "a \<in> set (fifo_open_lots s k)" for a k
    using that by (simp add: nth_append)
  have lots: "book_lots s' key = book_lots s key @ [l]"
    using old by (simp add: s' book_lots_def fifo_append_lot_def Let_def)
  have other: "book_lots s' k = book_lots s k" if "k \<noteq> key" for k
    using old that by (simp add: s' book_lots_def fifo_append_lot_def Let_def)
  have "book_wf s' k" for k
  proof (cases "k = key")
    case True
    have key: "book_wf s key" by (rule fifo_wfD(1) [OF wf])
    have "length (fifo_store s) \<notin> set (fifo_open_lots s key)" using valid by blast
    moreover have "\<forall>a \<in> set (fifo_open_lots s key). a < Suc (length (fifo_store s)) \<and> open_lot_wf ((fifo_store s @ [l]) ! a)"
      using key old valid by (auto simp: book_wf_def less_SucI)
    ultimately have "distinct (fifo_open_lots s' key)"
      "\<forall>a \<in> set (fifo_open_lots s' key). a < length (fifo_store s') \<and> open_lot_wf (fifo_store s' ! a)"
      using key l by (auto simp: s' fifo_append_lot_def Let_def book_wf_def)
    moreover have "available_quantities s' key = book_quantity (book_lots s' key)"
      using key unfolding lots by (simp add: s' book_wf_def)
    moreover have "ledger_amount (available_quantities s' key)" using avail by (simp add: s')
    moreover have "distinct (lot_names (book_lots s' key))"
      using key fresh unfolding lots by (simp add: book_wf_def)
    ultimately show ?thesis unfolding True book_wf_def by blast
  next
    case False
    then show ?thesis
      using fifo_wfD(1) [OF wf, of k] old unfolding book_wf_def other [OF False]
      by (elim conjE) (auto simp: s' fifo_append_lot_def Let_def less_SucI)
  qed
  moreover have "set (fifo_open_lots s' k) \<inter> set (fifo_open_lots s' k') = {}" if "k \<noteq> k'" for k k'
    using fifo_wfD(2) [OF wf that] valid [of "length (fifo_store s)" k]
      valid [of "length (fifo_store s)" k'] that
    by (auto simp: s' fifo_append_lot_def Let_def)
  moreover have "lot_wf (fifo_store s' ! a)" if "a < length (fifo_store s')" for a
    using that fifo_wfD(3) [OF wf, of a] open_lot_wfD(1) [OF l]
    by (cases "a < length (fifo_store s)") (auto simp: s' fifo_append_lot_def Let_def nth_append)
  moreover have "snd p < length (fifo_store s')" if "p \<in> set (lots_by_transaction_id s')" for p
    using that fifo_wfD(4) [OF wf, of p] set_dict_set_subset
    by (fastforce simp: s' fifo_append_lot_def Let_def intro: less_SucI)
  ultimately have "fifo_wf s'" by (intro fifo_wfI) auto
  then show ?thesis using lots other by blast
qed

section \<open>Restatement\<close>

definition restated_lot :: "rat \<Rightarrow> rat \<Rightarrow> cost_lot \<Rightarrow> cost_lot" where
  "restated_lot before after l =
     l\<lparr>lot_original_quantity := lot_original_quantity l * after / before,
       remaining_quantity := remaining_quantity l * after / before,
       cost_per_share_local := sig_round (context_precision state_policy)
         (lot_cost_local l / (remaining_quantity l * after / before)),
       cost_per_share_base := sig_round (context_precision state_policy)
         (lot_cost_base l / (remaining_quantity l * after / before))\<rparr>"

lemma restated_lot_wf:
  assumes l: "open_lot_wf l" and "0 < before" "0 < after"
    and "ledger_amount (remaining_quantity l * after / before)"
  shows "open_lot_wf (restated_lot before after l)"
    and "lot_cost_local (restated_lot before after l) = lot_cost_local l"
    and "lot_cost_base (restated_lot before after l) = lot_cost_base l"
proof -
  note costs = lot_wf_costs [OF open_lot_wfD(1) [OF l]]
  have pos: "0 < remaining_quantity l * after / before" using assms open_lot_wfD(3) [OF l] by simp
  show cl: "lot_cost_local (restated_lot before after l) = lot_cost_local l"
    "lot_cost_base (restated_lot before after l) = lot_cost_base l"
    unfolding restated_lot_def using lot_cost_per_share [OF assms(4) pos] costs by simp_all
  have "remaining_quantity l \<le> lot_original_quantity l"
    using open_lot_wfD(1) [OF l] by (simp add: lot_wf_def)
  then have "remaining_quantity l * after / before \<le> lot_original_quantity l * after / before"
    using assms by (simp add: divide_right_mono mult_right_mono)
  moreover have "remaining_quantity (restated_lot before after l) = remaining_quantity l * after / before"
    "lot_original_quantity (restated_lot before after l) = lot_original_quantity l * after / before"
    "0 \<le> cost_per_share_local (restated_lot before after l)"
    "0 \<le> cost_per_share_base (restated_lot before after l)"
    "lot_named (restated_lot before after l) = lot_named l"
    using cost_per_share_nonneg [OF pos costs(1)] cost_per_share_nonneg [OF pos costs(2)]
    by (simp_all add: restated_lot_def lot_named_def)
  ultimately show "open_lot_wf (restated_lot before after l)"
    using assms pos costs open_lot_wfD(2) [OF l]
    unfolding open_lot_wf_def lot_wf_def cl by (simp add: ledger_amount_iff)
qed

lemma proposed_lot_Inr:
  assumes r: "LotRestatement b a = Inr r" and l: "open_lot_wf l" and p: "fifo_proposed_lot r l = Inr p"
  shows "p = (lot_original_quantity l * a / b, remaining_quantity l * a / b, lot_view l)"
    and "ledger_amount (remaining_quantity l * a / b)" and "ledger_amount (lot_original_quantity l * a / b)"
  using p open_state_wf [OF open_lot_wfD(1) [OF l]]
  by (auto simp: fifo_proposed_lot_def rbind_eq_Inr restatement_apply_Inr [OF r])

lemma fifo_restate_lots_wf:
  assumes r: "LotRestatement b a = Inr r" and "distinct deque"
    and "\<And>x. x \<in> set deque \<Longrightarrow> x < length store \<and> open_lot_wf (store ! x)"
    and "rmap (\<lambda>x. fifo_proposed_lot r (store ! x)) deque = Inr proposed"
  shows "\<exists>store'. fifo_restate_lots (zip deque proposed) store = (Inr (), store') \<and>
    length store' = length store \<and> (\<forall>x. x \<notin> set deque \<longrightarrow> store' ! x = store ! x) \<and>
    (\<forall>x \<in> set deque. store' ! x = restated_lot b a (store ! x) \<and>
       ledger_amount (remaining_quantity (store ! x) * a / b))"
  using assms(2-)
proof (induction deque arbitrary: store proposed)
  case (Cons x deque)
  define l where "l = store ! x"
  obtain p ps where p: "fifo_proposed_lot r l = Inr p" and ps: "proposed = p # ps"
    "rmap (\<lambda>y. fifo_proposed_lot r (store ! y)) deque = Inr ps"
    using Cons.prems(3) by (auto simp: rbind_eq_Inr l_def)
  have l: "open_lot_wf l" "x < length store" using Cons.prems(2) by (auto simp: l_def)
  note pl = proposed_lot_Inr [OF r l(1) p]
  let ?q = "remaining_quantity l * a / b" and ?l = "restated_lot b a l"
  have ba: "0 < b" "0 < a" using r by (auto simp: LotRestatement_Inr)
  have q: "?q \<noteq> 0" using open_lot_wfD(3) [OF l(1)] ba by simp
  have same: "store[x := ?l] ! y = store ! y" if "y \<in> set deque" for y
    using that Cons.prems(1) by (intro nth_list_update_neq) auto
  have step: "fifo_restate_lots (zip (x # deque) proposed) store = fifo_restate_lots (zip deque ps) (store[x := ?l])"
    using q by (simp add: ps pl(1) Let_def dec_div_def restated_lot_def flip: l_def)
  have "rmap (\<lambda>y. fifo_proposed_lot r (store[x := ?l] ! y)) deque = Inr ps"
    using ps(2) same by (simp cong: rmap_cong)
  with Cons.IH [of "store[x := ?l]" ps] Cons.prems same
  obtain store' where store': "fifo_restate_lots (zip deque ps) (store[x := ?l]) = (Inr (), store')"
    "length store' = length store" "\<forall>y. y \<notin> set deque \<longrightarrow> store' ! y = store[x := ?l] ! y"
    "\<forall>y \<in> set deque. store' ! y = restated_lot b a (store[x := ?l] ! y) \<and>
       ledger_amount (remaining_quantity (store[x := ?l] ! y) * a / b)"
    by auto
  have "store' ! x = ?l" using store'(3) l(2) Cons.prems(1) by simp
  moreover have "\<forall>y. y \<notin> set (x # deque) \<longrightarrow> store' ! y = store ! y" using store'(3) by simp
  ultimately show ?case
    using step store' pl(2) same by (auto simp flip: l_def)
qed simp

lemma restated_quantity:
  "book_quantity (map (restated_lot b a) ls) = book_quantity ls * a / b"
  by (induction ls) (simp_all add: restated_lot_def add_divide_distrib distrib_right)

lemma restated_names: "lot_names (map (restated_lot b a) ls) = lot_names ls"
  by (simp add: restated_lot_def)

lemma fifo_restate_cases:
  assumes wf: "fifo_wf s" and delta: "ledger_amount delta" and key: "key = (p, i)"
  obtains (rejected) e where "fifo_restate_lot_quantities p i delta s = (Inl e, s)"
  | (restated) r s' before after where
    "fifo_restate_lot_quantities p i delta s = (Inr r, s')"
    "before = available_quantities s key" "after = before + delta"
    "r = \<lparr>quantity_before = before, quantity_after = after\<rparr>" "0 < before" "0 < after"
    "fifo_wf s'" "book_lots s' key = map (restated_lot before after) (book_lots s key)"
    "\<And>l. l \<in> set (book_lots s key) \<Longrightarrow> ledger_amount (remaining_quantity l * after / before)"
    "available_quantities s' = (available_quantities s)(key := after)"
    "\<And>key'. key' \<noteq> key \<Longrightarrow> book_lots s' key' = book_lots s key'"
proof -
  define b where "b = available_quantities s key"
  define a where "a = b + delta"
  define deque where "deque = fifo_open_lots s key"
  have book: "book_wf s key" by (rule fifo_wfD(1) [OF wf])
  then have deque: "distinct deque" "\<And>x. x \<in> set deque \<Longrightarrow> x < length (fifo_store s) \<and> open_lot_wf (fifo_store s ! x)"
    and b: "ledger_amount b" "b = book_quantity (book_lots s key)" "distinct (lot_names (book_lots s key))"
    by (auto simp: book_wf_def deque_def b_def)
  consider (no_restatement) e where "from_signed_delta b delta = Inl e"
    | (no_lots) r e where "from_signed_delta b delta = Inr r"
        "rmap (\<lambda>x. fifo_proposed_lot r (fifo_store s ! x)) deque = Inl e"
    | (ok) r ps where "from_signed_delta b delta = Inr r"
        "rmap (\<lambda>x. fifo_proposed_lot r (fifo_store s ! x)) deque = Inr ps"
    by (metis sumE)
  then show thesis
  proof cases
    case no_restatement
    then show thesis by (intro rejected) (simp add: fifo_restate_lot_quantities_def b_def key Let_def)
  next
    case no_lots
    then show thesis
      by (intro rejected) (simp add: fifo_restate_lot_quantities_def b_def deque_def key Let_def)
  next
    case ok
    have r: "LotRestatement b a = Inr r" using ok(1) b(1) delta by (simp add: from_signed_delta_Inr a_def)
    then have ba: "0 < b" "0 < a" "ledger_amount a" "r = \<lparr>quantity_before = b, quantity_after = a\<rparr>"
      by (auto simp: LotRestatement_Inr)
    obtain store' where store': "fifo_restate_lots (zip deque ps) (fifo_store s) = (Inr (), store')"
      "length store' = length (fifo_store s)" "\<And>x. x \<notin> set deque \<Longrightarrow> store' ! x = fifo_store s ! x"
      "\<And>x. x \<in> set deque \<Longrightarrow> store' ! x = restated_lot b a (fifo_store s ! x)"
      "\<And>x. x \<in> set deque \<Longrightarrow> ledger_amount (remaining_quantity (fifo_store s ! x) * a / b)"
      using fifo_restate_lots_wf [OF r deque ok(2)] by blast
    have lots: "map ((!) store') deque = map (restated_lot b a) (book_lots s key)"
      using store'(4) by (simp add: book_lots_def flip: deque_def)
    define s' where "s' = s\<lparr>fifo_store := store', fifo_open_lots := (fifo_open_lots s)(key := deque),
      available_quantities := (available_quantities s)(key := a)\<rparr>"
    have restated_wf: "open_lot_wf (store' ! x)" if "x \<in> set deque" for x
      unfolding store'(4) [OF that] using deque(2) that store'(5) ba by (intro restated_lot_wf) auto
    have wf': "fifo_wf s' \<and> book_lots s' key = map ((!) store') deque \<and>
      (\<forall>key'. key' \<noteq> key \<longrightarrow> book_lots s' key' = book_lots s key')"
    proof (rule fifo_wf_rewrite_book [OF wf _ _ store'(2) _ _ _ _ _ ba(3) s'_def])
      show "distinct (lot_names (map ((!) store') deque))"
        unfolding lots restated_names by (rule b(3))
      show "a = book_quantity (map ((!) store') deque)"
        unfolding lots restated_quantity using b(2) ba(1) by simp
    qed (use deque store' restated_wf open_lot_wfD(1) in \<open>auto simp: deque_def\<close>)
    show thesis
    proof (rule restated)
      show "fifo_restate_lot_quantities p i delta s = (Inr r, s')"
        using ok store'(1) ba(4)
        by (simp add: fifo_restate_lot_quantities_def b_def deque_def s'_def key Let_def)
      show "ledger_amount (remaining_quantity l * a / b)" if "l \<in> set (book_lots s key)" for l
        using that store'(5) by (auto simp: book_lots_def deque_def)
    qed (use wf' lots ba in \<open>auto simp: b_def a_def s'_def\<close>)
  qed
qed

end
