(* ===== verification/Fifo_Transfer.thy ===== *)
theory Fifo_Transfer
  imports Fifo_Correctness
begin

text \<open>
  Basis-only transfers out of a FIFO book: the new basis of every lot, conservation of the total,
  and the per-source evidence both strategies build from before and after states.
\<close>

section \<open>Basis transfer\<close>

lemma ambient_sum_exact:
  assumes "\<And>x. x \<in> set xs \<Longrightarrow> ledger_amount x \<and> 0 \<le> x" "sum_list xs < ledger_limit"
  shows "ambient_sum xs = sum_list xs"
proof -
  have "foldl (dec_add ambient) acc xs = acc + sum_list xs"
    if "ledger_amount acc" "0 \<le> acc" "acc + sum_list xs < ledger_limit" for acc
    using that assms(1)
  proof (induction xs arbitrary: acc)
    case (Cons x xs)
    have "0 \<le> sum_list xs" using Cons.prems(4) by (intro sum_list_nonneg') auto
    then have "acc + x < ledger_limit" using Cons.prems(3) by simp
    then have "ledger_amount (acc + x)" "0 \<le> acc + x"
      using Cons.prems by (intro nonneg_adds; simp)+
    then show ?case
      using Cons.IH [of "acc + x"] Cons.prems by (simp add: dec_add_def sig_round_ambient_ledger add.assoc)
  qed simp
  from this [of 0] show ?thesis using assms by (simp add: ambient_sum_def)
qed

definition rebased_lot :: "cost_lot \<Rightarrow> rat \<Rightarrow> rat \<Rightarrow> cost_lot" where
  "rebased_lot l base local =
     l\<lparr>cost_per_share_base := sig_round (context_precision state_policy) (base / remaining_quantity l),
       cost_per_share_local := sig_round (context_precision state_policy) (local / remaining_quantity l)\<rparr>"

lemma rebased_lot_simps [simp]:
  "remaining_quantity (rebased_lot l b c) = remaining_quantity l"
  "lot_original_quantity (rebased_lot l b c) = lot_original_quantity l"
  "lot_id (rebased_lot l b c) = lot_id l"
  "lot_transaction_id (rebased_lot l b c) = lot_transaction_id l"
  "acquisition_date (rebased_lot l b c) = acquisition_date l"
  by (simp_all add: rebased_lot_def)

lemma rebased_lot_wf:
  assumes l: "open_lot_wf l" and b: "ledger_amount b" "0 \<le> b" and c: "ledger_amount c" "0 \<le> c"
  shows "lot_cost_base (rebased_lot l b c) = b" "lot_cost_local (rebased_lot l b c) = c"
    and "open_lot_wf (rebased_lot l b c)"
proof -
  note q = open_lot_wfD [OF l]
  show cost: "lot_cost_base (rebased_lot l b c) = b" "lot_cost_local (rebased_lot l b c) = c"
    using lot_cost_per_share [OF q(5,3)] b c by (simp_all add: rebased_lot_def)
  have "0 \<le> cost_per_share_base (rebased_lot l b c)" "0 \<le> cost_per_share_local (rebased_lot l b c)"
    using cost_per_share_nonneg [OF q(3)] b c by (simp_all add: rebased_lot_def)
  then show "open_lot_wf (rebased_lot l b c)"
    using q b c unfolding open_lot_wf_def lot_wf_def cost by (simp add: lot_named_def ledger_amount_iff)
qed

lemma assign_fifo_lot_costs_eq:
  "remaining_quantity l \<noteq> 0 \<Longrightarrow> assign_fifo_lot_costs l b c = (Inr (), rebased_lot l b c)"
  by (simp add: assign_fifo_lot_costs_def dec_div_def rebased_lot_def Let_def)

text \<open>The totals a transfer works with.\<close>

definition basis_totals_wf :: "basis_totals \<Rightarrow> bool" where
  "basis_totals_wf T \<longleftrightarrow>
     ledger_amount (bt_total_base T) \<and> 0 < bt_total_base T \<and>
     ledger_amount (bt_remaining_base T) \<and> 0 \<le> bt_remaining_base T \<and> bt_remaining_base T \<le> bt_total_base T \<and>
     ledger_amount (bt_total_local T) \<and> 0 < bt_total_local T \<and>
     ledger_amount (bt_remaining_local T) \<and> 0 \<le> bt_remaining_local T \<and> bt_remaining_local T \<le> bt_total_local T"

lemma next_share:
  assumes c: "ledger_amount c" "0 \<le> c" "c \<le> t" and t: "ledger_amount t" "0 < t"
    and r: "ledger_amount r" "0 \<le> r" and alloc: "ledger_amount alloc" "0 \<le> alloc" "alloc \<le> r"
  obtains raw x where "raw_next_basis c r t = Inr raw"
    "allocate_nonnegative_storage_share raw r alloc f = Inr x"
    "ledger_amount x" "0 \<le> x" "x \<le> r - alloc" "policy_add state_policy g alloc x = Inr (alloc + x)"
    "ledger_amount (alloc + x)"
proof -
  let ?s = "sig_round (context_precision state_policy)"
  have raw: "raw_next_basis c r t = Inr (?s (c * r / t))"
    using t c r by (simp add: raw_next_basis_def dec_div_def dec_mul_def cost_state.sig_round_storable_mult)
  have "c * r \<le> t * r" using c r by (intro mult_right_mono) auto
  then have "c * r / t \<le> r" using t by (simp add: pos_divide_le_eq mult.commute)
  then have le: "?s (c * r / t) \<le> r"
    using sig_round_mono [OF _ cost_state.context_pos, of "c * r / t" r] cost_state.sig_round_storable [OF r(1)] by simp
  have nonneg: "0 \<le> ?s (c * r / t)" using c r t by (intro sig_round_nonneg) simp
  obtain n where n: "normalize state_policy f (?s (c * r / t)) = Inr n" "0 \<le> n" "n \<le> r"
    using cost_state.normalize_between [OF nonneg le cost_state.normalize_storable [OF r(1), of f]] by blast
  have nl: "ledger_amount n" using n(1) by (rule cost_state.normalize_Inr_storable)
  have rest: "policy_subtract state_policy g r alloc = Inr (r - alloc)" "ledger_amount (r - alloc)" for g
    using r alloc by (auto intro!: cost_state.policy_subtract_le)
  define x where "x = min n (r - alloc)"
  have x: "ledger_amount x" "0 \<le> x" "x \<le> r - alloc"
    using nl rest n alloc by (auto simp: x_def intro: storable_min)
  have "alloc + x < ledger_limit" using x r by (simp add: ledger_amount_iff)
  then have add: "policy_add state_policy g alloc x = Inr (alloc + x)" "ledger_amount (alloc + x)"
    using alloc x by (auto intro!: nonneg_adds)
  show thesis
  proof (rule that [OF raw _ x add])
    show "allocate_nonnegative_storage_share (?s (c * r / t)) r alloc f = Inr x"
      using n rest alloc by (simp add: allocate_nonnegative_storage_share_def x_def)
  qed
qed

definition rebased :: "cost_lot \<Rightarrow> cost_lot \<Rightarrow> bool" where
  "rebased l l' \<longleftrightarrow> (\<exists>b c. l' = rebased_lot l b c \<and> open_lot_wf l')"

lemma rebasedD:
  assumes "rebased l l'"
  shows "open_lot_wf l'" "remaining_quantity l' = remaining_quantity l"
    "lot_original_quantity l' = lot_original_quantity l" "lot_id l' = lot_id l"
    "lot_transaction_id l' = lot_transaction_id l" "acquisition_date l' = acquisition_date l"
  using assms by (auto simp: rebased_def)

lemma fifo_next_basis_wf:
  assumes T: "basis_totals_wf T" and l: "open_lot_wf l"
    and le: "lot_cost_base l \<le> bt_total_base T" "lot_cost_local l \<le> bt_total_local T"
    and ab: "ledger_amount ab" "0 \<le> ab" "ab \<le> bt_remaining_base T"
    and al: "ledger_amount al" "0 \<le> al" "al \<le> bt_remaining_local T"
  obtains x y where "fifo_next_basis T ab al l = Inr (x, y)"
    "ledger_amount x" "0 \<le> x" "x \<le> bt_remaining_base T - ab" "policy_add state_policy f ab x = Inr (ab + x)"
    "ledger_amount (ab + x)"
    "ledger_amount y" "0 \<le> y" "y \<le> bt_remaining_local T - al" "policy_add state_policy g al y = Inr (al + y)"
    "ledger_amount (al + y)"
proof -
  note costs = lot_wf_costs [OF open_lot_wfD(1) [OF l]]
  obtain rb x where x: "raw_next_basis (lot_cost_base l) (bt_remaining_base T) (bt_total_base T) = Inr rb"
    "allocate_nonnegative_storage_share rb (bt_remaining_base T) ab ''open_cost_base'' = Inr x"
    "ledger_amount x" "0 \<le> x" "x \<le> bt_remaining_base T - ab" "policy_add state_policy f ab x = Inr (ab + x)"
    "ledger_amount (ab + x)"
    using next_share [OF costs(4,2) le(1), where f = "''open_cost_base''" and g = f] T ab
    unfolding basis_totals_wf_def by metis
  obtain rl y where y: "raw_next_basis (lot_cost_local l) (bt_remaining_local T) (bt_total_local T) = Inr rl"
    "allocate_nonnegative_storage_share rl (bt_remaining_local T) al ''open_cost_local'' = Inr y"
    "ledger_amount y" "0 \<le> y" "y \<le> bt_remaining_local T - al" "policy_add state_policy g al y = Inr (al + y)"
    "ledger_amount (al + y)"
    using next_share [OF costs(3,1) le(2), where f = "''open_cost_local''" and g = g] T al
    unfolding basis_totals_wf_def by metis
  have "fifo_next_basis T ab al l = Inr (x, y)"
    using x(1,2) y(1,2) by (simp add: fifo_next_basis_def open_state_wf [OF open_lot_wfD(1) [OF l]])
  then show thesis using x(3-) y(3-) by (rule that)
qed

lemma allocate_fifo_loop_wf:
  assumes T: "basis_totals_wf T" and "deque \<noteq> []" "distinct deque"
    and "\<And>a. a \<in> set deque \<Longrightarrow> a < length store \<and> open_lot_wf (store ! a) \<and>
      lot_cost_base (store ! a) \<le> bt_total_base T \<and> lot_cost_local (store ! a) \<le> bt_total_local T"
    and "ledger_amount ab" "0 \<le> ab" "ab \<le> bt_remaining_base T"
    and "ledger_amount al" "0 \<le> al" "al \<le> bt_remaining_local T"
  shows "\<exists>store'. allocate_fifo_loop T deque ab al store = (Inr (), store') \<and>
    length store' = length store \<and> (\<forall>a. a \<notin> set deque \<longrightarrow> store' ! a = store ! a) \<and>
    (\<forall>a \<in> set deque. rebased (store ! a) (store' ! a)) \<and>
    book_cost_base (map ((!) store') deque) = bt_remaining_base T - ab \<and>
    book_cost_local (map ((!) store') deque) = bt_remaining_local T - al"
  using assms(2-)
proof (induction deque arbitrary: store ab al)
  case (Cons a deque)
  have l: "open_lot_wf (store ! a)" "a < length store" "remaining_quantity (store ! a) \<noteq> 0"
    using Cons.prems(3) [of a] open_lot_wfD(3) [of "store ! a"] by auto
  show ?case
  proof (cases deque)
    case Nil
    let ?b = "bt_remaining_base T - ab" and ?c = "bt_remaining_local T - al"
    have b: "policy_subtract state_policy f (bt_remaining_base T) ab = Inr ?b" "ledger_amount ?b" "0 \<le> ?b"
      and c: "policy_subtract state_policy f (bt_remaining_local T) al = Inr ?c" "ledger_amount ?c" "0 \<le> ?c" for f
      using T Cons.prems unfolding basis_totals_wf_def by (auto intro!: cost_state.policy_subtract_le)
    have "allocate_fifo_loop T (a # deque) ab al store = (Inr (), store[a := rebased_lot (store ! a) ?b ?c])"
      using b c l(3) by (simp add: Nil fifo_final_basis_def assign_fifo_lot_costs_eq)
    then show ?thesis
      using rebased_lot_wf [OF l(1) b(2,3) c(2,3)] l(2) by (auto simp: Nil rebased_def)
  next
    case (Cons a' deque')
    obtain x y where xy: "fifo_next_basis T ab al (store ! a) = Inr (x, y)"
      "ledger_amount x" "0 \<le> x" "x \<le> bt_remaining_base T - ab"
      "policy_add state_policy ''allocated_cost_base'' ab x = Inr (ab + x)" "ledger_amount (ab + x)"
      "ledger_amount y" "0 \<le> y" "y \<le> bt_remaining_local T - al"
      "policy_add state_policy ''allocated_cost_local'' al y = Inr (al + y)" "ledger_amount (al + y)"
      by (rule fifo_next_basis_wf [OF T l(1), of ab al "''allocated_cost_base''" "''allocated_cost_local''"])
        (use Cons.prems in auto)
    let ?l = "rebased_lot (store ! a) x y"
    note lot = rebased_lot_wf [OF l(1) xy(2,3,7,8)]
    have same: "store[a := ?l] ! d = store ! d" if "d \<in> set deque" for d
      using that Cons.prems(2) by (intro nth_list_update_neq) auto
    have step: "allocate_fifo_loop T (a # deque) ab al store =
        allocate_fifo_loop T deque (ab + x) (al + y) (store[a := ?l])"
      using xy l(3) by (simp add: Cons assign_fifo_lot_costs_eq)
    have "\<exists>store'. allocate_fifo_loop T deque (ab + x) (al + y) (store[a := ?l]) = (Inr (), store') \<and>
      length store' = length (store[a := ?l]) \<and> (\<forall>d. d \<notin> set deque \<longrightarrow> store' ! d = store[a := ?l] ! d) \<and>
      (\<forall>d \<in> set deque. rebased (store[a := ?l] ! d) (store' ! d)) \<and>
      book_cost_base (map ((!) store') deque) = bt_remaining_base T - (ab + x) \<and>
      book_cost_local (map ((!) store') deque) = bt_remaining_local T - (al + y)"
      by (rule Cons.IH) (use Cons.prems xy Cons same in \<open>simp_all add: add_nonneg_nonneg\<close>)
    then obtain store' where store': "allocate_fifo_loop T deque (ab + x) (al + y) (store[a := ?l]) = (Inr (), store')"
      "length store' = length store" "\<And>d. d \<notin> set deque \<Longrightarrow> store' ! d = store[a := ?l] ! d"
      "\<And>d. d \<in> set deque \<Longrightarrow> rebased (store ! d) (store' ! d)"
      "book_cost_base (map ((!) store') deque) = bt_remaining_base T - (ab + x)"
      "book_cost_local (map ((!) store') deque) = bt_remaining_local T - (al + y)"
      using same by auto
    have at: "store' ! a = ?l" using store'(3) [of a] Cons.prems(2) l(2) by simp
    then have "rebased (store ! a) (store' ! a)" using lot(3) by (auto simp: rebased_def)
    then show ?thesis
      using step store' at lot by (intro exI [of _ store']) auto
  qed
qed simp

lemma ledger_amount_diff: "ledger_amount x \<Longrightarrow> ledger_amount y \<Longrightarrow> 0 \<le> y \<Longrightarrow> y \<le> x \<Longrightarrow> ledger_amount (x - y)"
  by (rule cost_state.policy_subtract_le(2))

lemma rmap_open_state:
  "(\<And>l. l \<in> set ls \<Longrightarrow> open_lot_wf l) \<Longrightarrow> rmap open_state ls = Inr (map lot_view ls)"
  by (rule rmap_total) (blast intro: open_state_wf open_lot_wfD(1))

lemma rmap_map: "rmap f (map g xs) = rmap (\<lambda>x. f (g x)) xs"
  by (induction xs) auto

lemma book_totals:
  assumes "\<And>l. l \<in> set ls \<Longrightarrow> open_lot_wf l" "book_cost_base ls < ledger_limit" "book_cost_local ls < ledger_limit"
  shows "ambient_sum (map ols_cost_base (map lot_view ls)) = book_cost_base ls"
    "ambient_sum (map ols_cost_local (map lot_view ls)) = book_cost_local ls"
    "ledger_amount (book_cost_base ls)" "ledger_amount (book_cost_local ls)"
    "l \<in> set ls \<Longrightarrow> lot_cost_base l \<le> book_cost_base ls \<and> lot_cost_local l \<le> book_cost_local ls"
proof -
  have costs: "ledger_amount (lot_cost_base l) \<and> 0 \<le> lot_cost_base l \<and> ledger_amount (lot_cost_local l) \<and> 0 \<le> lot_cost_local l"
    if "l \<in> set ls" for l
    using lot_wf_costs [OF open_lot_wfD(1) [OF assms(1) [OF that]]] by simp
  then show "ambient_sum (map ols_cost_base (map lot_view ls)) = book_cost_base ls"
    "ambient_sum (map ols_cost_local (map lot_view ls)) = book_cost_local ls"
    using assms(2,3) ambient_sum_exact [of "map lot_cost_base ls"] ambient_sum_exact [of "map lot_cost_local ls"]
    by (auto simp: comp_def)
  show "ledger_amount (book_cost_base ls)" "ledger_amount (book_cost_local ls)"
    using costs assms(2,3) by (auto intro!: ledger_amount_sum_map)
  show "lot_cost_base l \<le> book_cost_base ls \<and> lot_cost_local l \<le> book_cost_local ls" if "l \<in> set ls"
    using costs that by (auto intro!: member_le_sum_list')
qed

text \<open>The per-source evidence: the sources whose basis moved, with their before and after amounts.\<close>

definition transfer_sources ::
  "cost_lot list \<Rightarrow> cost_lot list \<Rightarrow> (string \<times> string \<times> int \<times> open_lot_state \<times> open_lot_state) list" where
  "transfer_sources ls ls' = map (\<lambda>(l, l'). (lot_id l', lot_transaction_id l', acquisition_date l',
     lot_view l, lot_view l')) (zip ls ls')"

lemma fifo_transfer_wf:
  assumes wf: "fifo_wf s" and key: "key = (p, i)"
    and cb: "ledger_amount cb" "0 \<le> cb" "cb \<le> book_cost_base (book_lots s key)"
    and cl: "ledger_amount cl" "0 \<le> cl" "cl \<le> book_cost_local (book_lots s key)"
    and lim: "book_cost_base (book_lots s key) < ledger_limit" "book_cost_local (book_lots s key) < ledger_limit"
    and pos: "0 < book_cost_base (book_lots s key)" "0 < book_cost_local (book_lots s key)"
  obtains s' where "fifo_transfer_basis_out_with_allocations p i cb cl s =
      (basis_transfer_result (transfer_sources (book_lots s key) (book_lots s' key)) cl cb, s')"
    "fifo_wf s'" "list_all2 rebased (book_lots s key) (book_lots s' key)"
    "book_cost_base (book_lots s' key) = book_cost_base (book_lots s key) - cb"
    "book_cost_local (book_lots s' key) = book_cost_local (book_lots s key) - cl"
    "available_quantities s' = available_quantities s"
    "\<And>key'. key' \<noteq> key \<Longrightarrow> book_lots s' key' = book_lots s key'"
proof -
  define deque store ls where "deque = fifo_open_lots s key" and "store = fifo_store s" and "ls = book_lots s key"
  have ls: "ls = map ((!) store) deque" by (simp add: ls_def book_lots_def deque_def store_def)
  have book: "book_wf s key" by (rule fifo_wfD(1) [OF wf])
  have deque: "distinct deque" "\<And>a. a \<in> set deque \<Longrightarrow> a < length store \<and> open_lot_wf (store ! a)"
    using book by (auto simp: book_wf_def deque_def store_def)
  have wfs: "\<And>l. l \<in> set ls \<Longrightarrow> open_lot_wf l" using deque(2) by (auto simp: ls)
  have lim': "book_cost_base ls < ledger_limit" "book_cost_local ls < ledger_limit"
    using lim by (simp_all add: ls_def)
  note totals = book_totals [OF wfs lim']
  have states: "rmap (\<lambda>a. open_state (store ! a)) deque = Inr (map lot_view ls)"
    using rmap_open_state [of ls, OF wfs] by (simp add: ls rmap_map)
  have all_open: "filter (\<lambda>a. 0 < remaining_quantity (store ! a)) deque = deque"
    using deque(2) open_lot_wfD(3) by (intro filter_True) auto
  have no_error: "basis_transfer_error (map ((!) store) deque) cb cl = Inr None"
    using rmap_open_state [of ls, OF wfs] totals(1,2) cb cl pos
    by (simp add: basis_transfer_error_def basis_transfer_amount_error_def ls_def flip: ls)
  define T where "T = \<lparr>bt_total_base = book_cost_base ls, bt_total_local = book_cost_local ls,
    bt_remaining_base = book_cost_base ls - cb, bt_remaining_local = book_cost_local ls - cl\<rparr>"
  have rem: "ledger_amount (book_cost_base ls - cb)" "ledger_amount (book_cost_local ls - cl)"
    using totals(3,4) cb cl by (auto intro!: ledger_amount_diff simp: ls_def)
  have T: "basis_totals_wf T" using totals(3,4) rem cb cl pos by (simp add: T_def basis_totals_wf_def ls_def)
  have "deque \<noteq> []" using pos by (auto simp: ls ls_def [symmetric])
  then obtain store' where loop: "allocate_fifo_loop T deque 0 0 store = (Inr (), store')"
    and store': "length store' = length store" "\<And>a. a \<notin> set deque \<Longrightarrow> store' ! a = store ! a"
      "\<And>a. a \<in> set deque \<Longrightarrow> rebased (store ! a) (store' ! a)"
    and costs': "book_cost_base (map ((!) store') deque) = book_cost_base ls - cb"
      "book_cost_local (map ((!) store') deque) = book_cost_local ls - cl"
    using allocate_fifo_loop_wf [OF T _ deque(1), of store 0 0] deque(2) totals(5) T
    by (auto simp: T_def ls basis_totals_wf_def)
  have allocate: "allocate_fifo_basis_transfer deque cb cl store = (Inr (), store')"
    using loop states totals(1,2) rem
    by (simp add: allocate_fifo_basis_transfer_def all_open T_def dec_sub_def sig_round_ambient_ledger)
  define s' where "s' = s\<lparr>fifo_store := store', fifo_open_lots := (fifo_open_lots s)(key := deque),
    available_quantities := (available_quantities s)(key := available_quantities s key)\<rparr>"
  have s': "s' = s\<lparr>fifo_store := store'\<rparr>" by (simp add: s'_def deque_def)
  have lots': "\<And>l. l \<in> set (map ((!) store') deque) \<Longrightarrow> open_lot_wf l"
    using rebasedD(1) store'(3) by auto
  have same: "lot_id (store' ! a) = lot_id (store ! a)"
    "remaining_quantity (store' ! a) = remaining_quantity (store ! a)" if "a \<in> set deque" for a
    using rebasedD(2,4) [OF store'(3) [OF that]] by simp_all
  have names: "lot_names (map ((!) store') deque) = lot_names ls"
    and qty: "book_quantity (map ((!) store') deque) = book_quantity ls"
    using same by (simp_all add: ls comp_def cong: map_cong)
  have wf': "fifo_wf s' \<and> book_lots s' key = map ((!) store') deque \<and>
    (\<forall>key'. key' \<noteq> key \<longrightarrow> book_lots s' key' = book_lots s key')"
  proof (rule fifo_wf_rewrite_book [OF wf _ _ _ _ _ _ _ _ _ s'_def])
    show "distinct (lot_names (map ((!) store') deque))"
      using book unfolding names by (simp add: book_wf_def ls_def)
    show "available_quantities s key = book_quantity (map ((!) store') deque)"
      using book unfolding qty by (simp add: book_wf_def ls_def)
  qed (use deque store' lots' book open_lot_wfD(1) in \<open>auto simp: deque_def store_def book_wf_def\<close>)
  have states': "rmap (\<lambda>a. open_state (store' ! a)) deque = Inr (map lot_view (map ((!) store') deque))"
    using rmap_open_state [of "map ((!) store') deque", OF lots'] by (simp add: rmap_map)
  have "map (\<lambda>(a, before, after). (lot_id (store' ! a), lot_transaction_id (store' ! a),
          acquisition_date (store' ! a), before, after))
        (zip deque (zip (map lot_view ls) (map lot_view (map ((!) store') deque)))) =
      transfer_sources ls (map ((!) store') deque)"
    unfolding ls transfer_sources_def by (induction deque) auto
  then have final: "fifo_transfer_basis_out_with_allocations p i cb cl s =
      (basis_transfer_result (transfer_sources ls (map ((!) store') deque)) cl cb, s')"
    using no_error states states' allocate s'
    by (simp add: fifo_transfer_basis_out_with_allocations_def Let_def all_open
        flip: key deque_def store_def)
  have "list_all2 rebased ls (map ((!) store') deque)"
    using store'(3) by (auto simp: ls list_all2_conv_all_nth)
  then show thesis
    using final wf' costs' by (intro that [of s']) (auto simp: ls_def s'_def)
qed

section \<open>Basis-transfer evidence\<close>

type_synonym transfer_source = "string \<times> string \<times> int \<times> open_lot_state \<times> open_lot_state"

fun transfer_source_ok :: "transfer_source \<Rightarrow> bool" where
  "transfer_source_ok (lid, tid, acquired, before, after) \<longleftrightarrow>
     py_strip lid \<noteq> [] \<and> py_strip tid \<noteq> [] \<and> 0 < ols_quantity after \<and> ledger_amount (ols_quantity after) \<and>
     ledger_amount (ols_cost_local before) \<and> ledger_amount (ols_cost_local after) \<and>
     0 \<le> ols_cost_local after \<and> ols_cost_local after \<le> ols_cost_local before \<and>
     ledger_amount (ols_cost_base before) \<and> ledger_amount (ols_cost_base after) \<and>
     0 \<le> ols_cost_base after \<and> ols_cost_base after \<le> ols_cost_base before"

fun moved_local :: "transfer_source \<Rightarrow> rat" where
  "moved_local (lid, tid, acquired, before, after) = ols_cost_local before - ols_cost_local after"

fun moved_base :: "transfer_source \<Rightarrow> rat" where
  "moved_base (lid, tid, acquired, before, after) = ols_cost_base before - ols_cost_base after"

definition moved :: "transfer_source \<Rightarrow> bool" where
  "moved x \<longleftrightarrow> moved_local x \<noteq> 0 \<or> moved_base x \<noteq> 0"

fun transfer_evidence :: "nat \<Rightarrow> transfer_source \<Rightarrow> source_lot_basis_transfer_allocation" where
  "transfer_evidence n (lid, tid, acquired, before, after) =
     \<lparr>bt_allocation_ordinal = n, bt_source_lot_id = py_strip lid, bt_source_transaction_id = py_strip tid,
      bt_source_acquisition_date = acquired, retained_quantity = ols_quantity after,
      source_cost_local_before = ols_cost_local before, source_cost_base_before = ols_cost_base before,
      transferred_cost_local = ols_cost_local before - ols_cost_local after,
      transferred_cost_base = ols_cost_base before - ols_cost_base after,
      retained_cost_local = ols_cost_local after, retained_cost_base = ols_cost_base after\<rparr>"

lemma transfer_evidence_simps [simp]:
  "bt_allocation_ordinal (transfer_evidence n x) = n"
  "bt_source_lot_id (transfer_evidence n x) = py_strip (fst x)"
  "transferred_cost_local (transfer_evidence n x) = moved_local x"
  "transferred_cost_base (transfer_evidence n x) = moved_base x"
  by (cases x; simp)+

lemma transfer_evidence_ok:
  assumes "transfer_source_ok (lid, tid, acquired, before, after)" "moved (lid, tid, acquired, before, after)" "1 \<le> n"
  shows "SourceLotBasisTransferAllocation
    \<lparr>bt_allocation_ordinal = n, bt_source_lot_id = lid, bt_source_transaction_id = tid,
      bt_source_acquisition_date = acquired, retained_quantity = ols_quantity after,
      source_cost_local_before = ols_cost_local before, source_cost_base_before = ols_cost_base before,
      transferred_cost_local = ols_cost_local before - ols_cost_local after,
      transferred_cost_base = ols_cost_base before - ols_cost_base after,
      retained_cost_local = ols_cost_local after, retained_cost_base = ols_cost_base after\<rparr> =
    Inr (transfer_evidence n (lid, tid, acquired, before, after))"
  using assms
  by (auto simp: SourceLotBasisTransferAllocation_def rbind_eq_Inr moved_def dec_add_def sig_round_ambient_ledger)

lemma basis_transfer_allocations_ok:
  assumes "\<And>x. x \<in> set srcs \<Longrightarrow> transfer_source_ok x"
  shows "basis_transfer_allocations srcs acc =
    Inr (acc @ map (\<lambda>(n, x). transfer_evidence n x) (enumerate (length acc + 1) (filter moved srcs)))"
  using assms
proof (induction srcs acc rule: basis_transfer_allocations.induct)
  case (2 lid tid acquired before after srcs acc)
  have ok: "transfer_source_ok (lid, tid, acquired, before, after)" by (rule "2.prems") simp
  then have sub: "policy_subtract state_policy f (ols_cost_local before) (ols_cost_local after) =
      Inr (ols_cost_local before - ols_cost_local after)"
    "policy_subtract state_policy f (ols_cost_base before) (ols_cost_base after) =
      Inr (ols_cost_base before - ols_cost_base after)" for f
    by (auto intro!: cost_state.policy_subtract_le)
  show ?case
  proof (cases "moved (lid, tid, acquired, before, after)")
    case True
    then have nz: "\<not> (ols_cost_local before - ols_cost_local after = 0 \<and> ols_cost_base before - ols_cost_base after = 0)"
      by (auto simp: moved_def)
    note ev = transfer_evidence_ok [OF ok True, of "length acc + 1"]
    show ?thesis
      using 2 sub nz True ev by (auto simp: simp del: transfer_evidence.simps)
  next
    case False
    then have z: "ols_cost_local before - ols_cost_local after = 0 \<and> ols_cost_base before - ols_cost_base after = 0"
      by (auto simp: moved_def)
    show ?thesis using 2 sub z False by auto
  qed
qed simp

lemma moved_sums:
  "(\<Sum>x\<leftarrow>filter moved srcs. moved_local x) = (\<Sum>x\<leftarrow>srcs. moved_local x)"
  "(\<Sum>x\<leftarrow>filter moved srcs. moved_base x) = (\<Sum>x\<leftarrow>srcs. moved_base x)"
  by (induction srcs) (auto simp: moved_def)

lemma map_enumerate_snd: "map (\<lambda>(n, x). f x) (enumerate k xs) = map f xs"
  by (induction xs arbitrary: k) auto

lemma map_enumerate_fst: "map (\<lambda>(n, x). n) (enumerate k xs) = [k..<k + length xs]"
  by (induction xs arbitrary: k) (auto simp: upt_rec)

lemma transfer_evidence_amounts:
  assumes "transfer_source_ok x" and a: "a = transfer_evidence n x"
  shows "ledger_amount (retained_quantity a) \<and> ledger_amount (source_cost_base_before a) \<and>
    ledger_amount (source_cost_local_before a) \<and> ledger_amount (transferred_cost_base a) \<and>
    ledger_amount (transferred_cost_local a) \<and> ledger_amount (retained_cost_base a) \<and>
    ledger_amount (retained_cost_local a) \<and> 0 \<le> transferred_cost_base a \<and> 0 \<le> transferred_cost_local a"
proof (cases x)
  case (fields lid tid acquired before after)
  then show ?thesis using assms by (auto intro!: ledger_amount_diff)
qed

lemma basis_transfer_result_ok:
  assumes ok: "\<And>x. x \<in> set srcs \<Longrightarrow> transfer_source_ok x"
    and names: "distinct (map (\<lambda>x. py_strip (fst x)) srcs)"
    and sums: "(\<Sum>x\<leftarrow>srcs. moved_local x) = cl" "(\<Sum>x\<leftarrow>srcs. moved_base x) = cb"
    and amounts: "ledger_amount cl" "0 \<le> cl" "ledger_amount cb" "0 \<le> cb" "0 < cl \<or> 0 < cb"
  shows "basis_transfer_result srcs cl cb =
    Inr \<lparr>lbt_transferred_cost_local = cl, lbt_transferred_cost_base = cb,
         lbt_allocations = map (\<lambda>(n, x). transfer_evidence n x) (enumerate 1 (filter moved srcs)),
         lbt_error_reason = None\<rparr>"
proof -
  define as where "as = map (\<lambda>(n, x). transfer_evidence n x) (enumerate 1 (filter moved srcs))"
  let ?r = "\<lparr>lbt_transferred_cost_local = cl, lbt_transferred_cost_base = cb, lbt_allocations = as,
    lbt_error_reason = None\<rparr>"
  have proj: "map f as = map g (filter moved srcs)" if "\<And>n x. f (transfer_evidence n x) = g x" for f g
    using that map_enumerate_snd [of g 1 "filter moved srcs"] unfolding as_def
    by (simp add: comp_def split_def)
  have ords: "map bt_allocation_ordinal as = [1..<length as + 1]"
    unfolding as_def using map_enumerate_fst [of 1 "filter moved srcs"] by (simp add: comp_def split_def)
  have ids: "map bt_source_lot_id as = map (\<lambda>x. py_strip (fst x)) (filter moved srcs)" by (rule proj) simp
  have moves: "map transferred_cost_local as = map moved_local (filter moved srcs)"
    "map transferred_cost_base as = map moved_base (filter moved srcs)" by (rule proj; simp)+
  have "filter moved srcs \<noteq> []" using amounts(5) sums moved_sums [of srcs] by auto
  then have nonempty: "as \<noteq> []" using moves(1) by auto
  have distinct: "distinct (map bt_source_lot_id as)"
    unfolding ids using names by (induction srcs) auto
  have ev: "ledger_amount (retained_quantity a) \<and> ledger_amount (source_cost_base_before a) \<and>
    ledger_amount (source_cost_local_before a) \<and> ledger_amount (transferred_cost_base a) \<and>
    ledger_amount (transferred_cost_local a) \<and> ledger_amount (retained_cost_base a) \<and>
    ledger_amount (retained_cost_local a) \<and> 0 \<le> transferred_cost_base a \<and> 0 \<le> transferred_cost_local a"
    if mem: "a \<in> set as" for a
  proof -
    obtain p where p: "p \<in> set (enumerate 1 (filter moved srcs))" "a = transfer_evidence (fst p) (snd p)"
      using mem by (force simp: as_def split_def simp del: transfer_evidence.simps)
    then have "snd p \<in> set (filter moved srcs)" by (metis enumerate_eq_zip in_set_zip nth_mem)
    then show ?thesis using ok p(2) by (intro transfer_evidence_amounts) auto
  qed
  have lims: "0 + (\<Sum>a\<leftarrow>as. transferred_cost_local a) < ledger_limit" "0 + (\<Sum>a\<leftarrow>as. transferred_cost_base a) < ledger_limit"
    unfolding moves moved_sums sums using amounts by (simp_all add: ledger_amount_iff)
  have each: "\<And>x. x \<in> set (map transferred_cost_local as) \<Longrightarrow> ledger_amount x \<and> 0 \<le> x"
    "\<And>x. x \<in> set (map transferred_cost_base as) \<Longrightarrow> ledger_amount x \<and> 0 \<le> x"
    using ev by auto
  have sums': "(\<Sum>a\<leftarrow>as. transferred_cost_local a) = cl" "(\<Sum>a\<leftarrow>as. transferred_cost_base a) = cb"
    unfolding moves moved_sums sums by simp_all
  have totals: "policy_sum f 0 (map transferred_cost_local as) = Inr cl"
    "policy_sum f 0 (map transferred_cost_base as) = Inr cb" for f
    using policy_sum_exact [OF each(1) cost_state.storable_0 order_refl lims(1), of f]
      policy_sum_exact [OF each(2) cost_state.storable_0 order_refl lims(2), of f] sums' by simp_all
  have canon: "canonical_amounts (basis_transfer_lineage_input_payload as) = Inr (basis_transfer_lineage_input_payload as)"
    "canonical_amounts (basis_transfer_lineage_output_payload ?r) = Inr (basis_transfer_lineage_output_payload ?r)"
    by (rule canonical_amounts_storable;
        use ev amounts in \<open>auto simp: basis_transfer_lineage_input_payload_def
          basis_transfer_lineage_output_payload_def in_set_enumerate_eq\<close>)+
  have "LotBasisTransferResult ?r = Inr ?r"
    using nonempty ords distinct totals canon amounts
    by (simp add: LotBasisTransferResult_def build_basis_transfer_lineage_def nonnegative_decimal_def
        del: upt_Suc)
  moreover have "basis_transfer_allocations srcs [] = Inr as"
    using basis_transfer_allocations_ok [of srcs "[]", OF ok] by (simp add: as_def)
  ultimately show ?thesis unfolding as_def [symmetric] basis_transfer_result_def by simp
qed

end
