(* ===== verification/Average_Cost_Pool.thy ===== *)
theory Average_Cost_Pool
  imports Fifo_Transfer
begin

text \<open>
  The aggregate side of the average-cost method: \<open>AverageCostPool\<close> of
  \<open>average_cost_source_allocation.py\<close>. A pool remembers the quantity and costs at the start of
  the current disposal segment (the last acquisition or basis transfer), and every disposal prices
  the remainder from that segment, so repeated disposals do not accumulate rounding.
\<close>

section \<open>The pool\<close>

record average_cost_pool =
  pool_quantity :: rat
  pool_cost_local :: rat
  pool_cost_base :: rat
  segment_start_quantity :: rat
  segment_start_cost_local :: rat
  segment_start_cost_base :: rat

definition AverageCostPool :: average_cost_pool where
  "AverageCostPool = \<lparr>pool_quantity = 0, pool_cost_local = 0, pool_cost_base = 0,
     segment_start_quantity = 0, segment_start_cost_local = 0, segment_start_cost_base = 0\<rparr>"

definition start_segment :: "average_cost_pool \<Rightarrow> average_cost_pool" where
  "start_segment p = p\<lparr>segment_start_quantity := pool_quantity p,
     segment_start_cost_local := pool_cost_local p, segment_start_cost_base := pool_cost_base p\<rparr>"

definition pool_add :: "rat \<Rightarrow> rat \<Rightarrow> rat \<Rightarrow> average_cost_pool \<Rightarrow> (unit, average_cost_pool) outcome" where
  "pool_add quantity cost_local cost_base p =
     obind (policy_add state_policy ''pool_quantity'' (pool_quantity p) quantity, p) (\<lambda>q p.
     let p = p\<lparr>pool_quantity := q\<rparr> in
     obind (policy_add state_policy ''pool_cost_local'' (pool_cost_local p) cost_local, p) (\<lambda>l p.
     let p = p\<lparr>pool_cost_local := l\<rparr> in
     obind (policy_add state_policy ''pool_cost_base'' (pool_cost_base p) cost_base, p) (\<lambda>b p.
     (Inr (), start_segment (p\<lparr>pool_cost_base := b\<rparr>)))))"

text \<open>The price of what remains of the segment, at working precision.\<close>

definition segment_remaining_cost :: "rat \<Rightarrow> rat \<Rightarrow> rat \<Rightarrow> rat res" where
  "segment_remaining_cost start_cost after_quantity start_quantity =
     dec_div (context_precision state_policy)
       (dec_mul (context_precision state_policy) start_cost after_quantity) start_quantity"

definition pool_dispose :: "rat \<Rightarrow> average_cost_pool \<Rightarrow> (rat \<times> rat, average_cost_pool) outcome" where
  "pool_dispose quantity p =
     obind (policy_subtract state_policy ''pool_quantity'' (pool_quantity p) quantity, p) (\<lambda>after_quantity p0.
     obind
       (if after_quantity = 0 then (Inr (), p0\<lparr>pool_cost_local := 0, pool_cost_base := 0\<rparr>)
        else
          obind (segment_remaining_cost (segment_start_cost_local p0) after_quantity
                   (segment_start_quantity p0), p0) (\<lambda>remaining_local p0.
          obind (segment_remaining_cost (segment_start_cost_base p0) after_quantity
                   (segment_start_quantity p0), p0) (\<lambda>remaining_base p0.
          obind (normalize state_policy ''pool_cost_local'' remaining_local, p0) (\<lambda>l p0.
          let p1 = p0\<lparr>pool_cost_local := l\<rparr> in
          obind (normalize state_policy ''pool_cost_base'' remaining_base, p1) (\<lambda>b p1.
          (Inr (), p1\<lparr>pool_cost_base := b\<rparr>)))))) (\<lambda>_ p2.
     let p3 = p2\<lparr>pool_quantity := after_quantity\<rparr> in
     (rbind (policy_subtract state_policy ''disposed_cost_base'' (pool_cost_base p) (pool_cost_base p3)) (\<lambda>b.
      rbind (policy_subtract state_policy ''disposed_cost_local'' (pool_cost_local p) (pool_cost_local p3)) (\<lambda>l.
      Inr (b, l))), p3)))"

definition pool_transfer_basis_out :: "rat \<Rightarrow> rat \<Rightarrow> average_cost_pool \<Rightarrow> (unit, average_cost_pool) outcome" where
  "pool_transfer_basis_out cost_local cost_base p =
     obind (policy_subtract state_policy ''pool_cost_local'' (pool_cost_local p) cost_local, p) (\<lambda>l p.
     let p = p\<lparr>pool_cost_local := l\<rparr> in
     obind (policy_subtract state_policy ''pool_cost_base'' (pool_cost_base p) cost_base, p) (\<lambda>b p.
     (Inr (), start_segment (p\<lparr>pool_cost_base := b\<rparr>))))"

section \<open>The pool invariant\<close>

text \<open>The cost of a pool is the segment-start cost pro rata of the quantity that is left.\<close>

definition segment_cost :: "rat \<Rightarrow> rat \<Rightarrow> rat \<Rightarrow> rat" where
  "segment_cost start_cost quantity start_quantity =
     (if start_quantity = 0 then 0
      else round_to_scale (cp_scale state_policy)
             (sig_round (context_precision state_policy) (start_cost * quantity / start_quantity)))"

definition pool_wf :: "average_cost_pool \<Rightarrow> bool" where
  "pool_wf p \<longleftrightarrow>
     ledger_amount (pool_quantity p) \<and> 0 \<le> pool_quantity p \<and>
     ledger_amount (segment_start_quantity p) \<and> pool_quantity p \<le> segment_start_quantity p \<and>
     ledger_amount (segment_start_cost_local p) \<and> 0 \<le> segment_start_cost_local p \<and>
     ledger_amount (segment_start_cost_base p) \<and> 0 \<le> segment_start_cost_base p \<and>
     pool_cost_local p = segment_cost (segment_start_cost_local p) (pool_quantity p) (segment_start_quantity p) \<and>
     pool_cost_base p = segment_cost (segment_start_cost_base p) (pool_quantity p) (segment_start_quantity p)"

lemma segment_cost_zero [simp]: "segment_cost c 0 s = 0"
  by (simp add: segment_cost_def sig_round_0 round_to_scale_id)

lemma segment_cost_full: "ledger_amount c \<Longrightarrow> s \<noteq> 0 \<Longrightarrow> segment_cost c s s = c"
  by (simp add: segment_cost_def cost_state.sig_round_storable) (simp add: ledger_amount_iff round_to_scale_id)

lemma segment_cost_mono:
  assumes "0 \<le> c" "0 \<le> s" "q \<le> q'"
  shows "segment_cost c q s \<le> segment_cost c q' s"
  unfolding segment_cost_def using assms
  by (auto intro!: round_to_scale_mono sig_round_mono cost_state.context_pos divide_right_mono mult_left_mono)

lemma segment_cost_bounds:
  assumes "ledger_amount c" "0 \<le> c" "0 \<le> q" "q \<le> s" "ledger_amount s"
  shows "0 \<le> segment_cost c q s" "segment_cost c q s \<le> c" "ledger_amount (segment_cost c q s)"
proof -
  show nonneg: "0 \<le> segment_cost c q s"
    using segment_cost_mono [of c s 0 q] assms by simp
  show le: "segment_cost c q s \<le> c"
  proof (cases "s = 0")
    case False
    then show ?thesis using segment_cost_mono [of c s q s] assms by (simp add: segment_cost_full)
  qed (use assms in \<open>simp add: segment_cost_def\<close>)
  have "on_scale 10 (segment_cost c q s)"
    using on_scale_round_to_scale [of "cp_scale state_policy"] by (simp add: segment_cost_def)
  then show "ledger_amount (segment_cost c q s)"
    using nonneg le assms(1) by (simp add: ledger_amount_iff)
qed

lemma pool_wf_costs:
  assumes "pool_wf p"
  shows "0 \<le> pool_cost_local p" "ledger_amount (pool_cost_local p)"
    "0 \<le> pool_cost_base p" "ledger_amount (pool_cost_base p)"
  using assms segment_cost_bounds unfolding pool_wf_def by auto

lemma pool_empty_wf: "pool_wf AverageCostPool"
  by (simp add: pool_wf_def AverageCostPool_def)

lemma start_segment_wf:
  assumes "ledger_amount (pool_quantity p)" "0 \<le> pool_quantity p"
    "ledger_amount (pool_cost_local p)" "0 \<le> pool_cost_local p" "ledger_amount (pool_cost_base p)" "0 \<le> pool_cost_base p"
    and "pool_quantity p = 0 \<Longrightarrow> pool_cost_local p = 0 \<and> pool_cost_base p = 0"
  shows "pool_wf (start_segment p)"
  using assms by (cases "pool_quantity p = 0") (auto simp: pool_wf_def start_segment_def segment_cost_full)

section \<open>Operations on well-formed pools\<close>

lemma pool_add_wf:
  assumes wf: "pool_wf p" and q: "ledger_amount q" "0 < q"
    and c: "ledger_amount cl" "0 \<le> cl" "ledger_amount cb" "0 \<le> cb"
    and lim: "pool_quantity p + q < ledger_limit" "pool_cost_local p + cl < ledger_limit"
      "pool_cost_base p + cb < ledger_limit"
  shows "\<exists>p'. pool_add q cl cb p = (Inr (), p') \<and> pool_wf p' \<and> pool_quantity p' = pool_quantity p + q \<and>
    pool_cost_local p' = pool_cost_local p + cl \<and> pool_cost_base p' = pool_cost_base p + cb \<and>
    segment_start_quantity p' = pool_quantity p'"
proof -
  note costs = pool_wf_costs [OF wf]
  have pq: "ledger_amount (pool_quantity p)" "0 \<le> pool_quantity p" using wf by (auto simp: pool_wf_def)
  note adds = nonneg_adds [OF pq q(1) less_imp_le [OF q(2)] lim(1)]
    nonneg_adds [OF costs(2,1) c(1,2) lim(2)] nonneg_adds [OF costs(4,3) c(3,4) lim(3)]
  let ?p = "p\<lparr>pool_quantity := pool_quantity p + q, pool_cost_local := pool_cost_local p + cl,
    pool_cost_base := pool_cost_base p + cb\<rparr>"
  have "pool_add q cl cb p = (Inr (), start_segment ?p)"
    using adds by (simp add: pool_add_def Let_def)
  moreover have "pool_wf (start_segment ?p)"
    using adds q pq by (intro start_segment_wf) auto
  ultimately show ?thesis by (auto simp: start_segment_def)
qed

lemma segment_remaining_cost_eq:
  assumes "ledger_amount c" "0 \<le> c" "ledger_amount q" "0 \<le> q" "q \<le> s" "ledger_amount s" "s \<noteq> 0"
  shows "\<exists>x. segment_remaining_cost c q s = Inr x \<and> normalize state_policy f x = Inr (segment_cost c q s)"
proof -
  note b = segment_cost_bounds [OF assms(1,2,4,5,6)]
  let ?x = "sig_round (context_precision state_policy) (c * q / s)"
  have "segment_remaining_cost c q s = Inr ?x"
    using assms by (simp add: segment_remaining_cost_def dec_div_def dec_mul_def cost_state.sig_round_storable_mult)
  moreover have "normalize state_policy f ?x = Inr (segment_cost c q s)"
    using b assms by (simp add: cost_state.normalize_eq segment_cost_def Let_def ledger_amount_iff)
  ultimately show ?thesis by blast
qed

text \<open>Disposing within the pool always succeeds; what is disposed and what stays add up.\<close>

lemma pool_dispose_wf:
  assumes wf: "pool_wf p" and q: "ledger_amount q" "0 < q" "q \<le> pool_quantity p"
  shows "\<exists>b l p'. pool_dispose q p = (Inr (b, l), p') \<and> pool_wf p' \<and> pool_quantity p' = pool_quantity p - q \<and>
    b = pool_cost_base p - pool_cost_base p' \<and> l = pool_cost_local p - pool_cost_local p' \<and>
    0 \<le> b \<and> ledger_amount b \<and> 0 \<le> l \<and> ledger_amount l \<and>
    segment_start_quantity p' = segment_start_quantity p \<and>
    segment_start_cost_local p' = segment_start_cost_local p \<and>
    segment_start_cost_base p' = segment_start_cost_base p"
proof -
  define a where "a = pool_quantity p - q"
  let ?S = "segment_start_quantity p" and ?L = "segment_start_cost_local p" and ?B = "segment_start_cost_base p"
  define p' where "p' = p\<lparr>pool_cost_local := segment_cost ?L a ?S, pool_cost_base := segment_cost ?B a ?S,
    pool_quantity := a\<rparr>"
  have pw: "ledger_amount (pool_quantity p)" "ledger_amount ?S" "pool_quantity p \<le> ?S"
    "ledger_amount ?L" "0 \<le> ?L" "ledger_amount ?B" "0 \<le> ?B"
    "pool_cost_local p = segment_cost ?L (pool_quantity p) ?S"
    "pool_cost_base p = segment_cost ?B (pool_quantity p) ?S"
    using wf by (auto simp: pool_wf_def)
  have sub: "policy_subtract state_policy f (pool_quantity p) q = Inr a" and a: "ledger_amount a" for f
    unfolding a_def using pw q by (auto intro!: cost_state.policy_subtract_le)
  have ab: "0 \<le> a" "a \<le> pool_quantity p" "a \<le> ?S" "?S \<noteq> 0" using q pw by (auto simp: a_def)
  have wf': "pool_wf p'" using pw a ab by (simp add: pool_wf_def p'_def)
  note costs = pool_wf_costs [OF wf] pool_wf_costs [OF wf']
  have le: "pool_cost_local p' \<le> pool_cost_local p" "pool_cost_base p' \<le> pool_cost_base p"
    using pw ab by (auto simp: p'_def intro!: segment_cost_mono)
  have subs: "policy_subtract state_policy f (pool_cost_base p) (pool_cost_base p') = Inr (pool_cost_base p - pool_cost_base p')"
    "policy_subtract state_policy f (pool_cost_local p) (pool_cost_local p') = Inr (pool_cost_local p - pool_cost_local p')"
    "ledger_amount (pool_cost_base p - pool_cost_base p')" "ledger_amount (pool_cost_local p - pool_cost_local p')" for f
    using costs le by (auto intro!: cost_state.policy_subtract_le)
  obtain xl xb where x: "segment_remaining_cost ?L a ?S = Inr xl"
    "normalize state_policy ''pool_cost_local'' xl = Inr (segment_cost ?L a ?S)"
    "segment_remaining_cost ?B a ?S = Inr xb"
    "normalize state_policy ''pool_cost_base'' xb = Inr (segment_cost ?B a ?S)"
    using segment_remaining_cost_eq [OF pw(4,5) a ab(1,3) pw(2) ab(4), of "''pool_cost_local''"]
      segment_remaining_cost_eq [OF pw(6,7) a ab(1,3) pw(2) ab(4), of "''pool_cost_base''"] by blast
  have "pool_dispose q p = (Inr (pool_cost_base p - pool_cost_base p', pool_cost_local p - pool_cost_local p'), p')"
    using sub subs(1,2) x by (cases "a = 0") (simp_all add: pool_dispose_def Let_def p'_def)
  moreover have "pool_quantity p' = pool_quantity p - q" "segment_start_quantity p' = ?S"
    "segment_start_cost_local p' = ?L" "segment_start_cost_base p' = ?B"
    by (simp_all add: p'_def a_def)
  ultimately show ?thesis using wf' subs(3,4) le by auto
qed

lemma pool_transfer_wf:
  assumes wf: "pool_wf p" and open_pool: "0 < pool_quantity p"
    and c: "ledger_amount cl" "0 \<le> cl" "cl \<le> pool_cost_local p" "ledger_amount cb" "0 \<le> cb" "cb \<le> pool_cost_base p"
  shows "\<exists>p'. pool_transfer_basis_out cl cb p = (Inr (), p') \<and> pool_wf p' \<and> pool_quantity p' = pool_quantity p \<and>
    pool_cost_local p' = pool_cost_local p - cl \<and> pool_cost_base p' = pool_cost_base p - cb \<and>
    segment_start_quantity p' = pool_quantity p'"
proof -
  note costs = pool_wf_costs [OF wf]
  have subs: "policy_subtract state_policy f (pool_cost_local p) cl = Inr (pool_cost_local p - cl)"
    "policy_subtract state_policy f (pool_cost_base p) cb = Inr (pool_cost_base p - cb)"
    "ledger_amount (pool_cost_local p - cl)" "ledger_amount (pool_cost_base p - cb)" for f
    using costs c by (auto intro!: cost_state.policy_subtract_le)
  let ?p = "p\<lparr>pool_cost_local := pool_cost_local p - cl, pool_cost_base := pool_cost_base p - cb\<rparr>"
  have "pool_transfer_basis_out cl cb p = (Inr (), start_segment ?p)"
    using subs by (simp add: pool_transfer_basis_out_def Let_def)
  moreover have "pool_wf (start_segment ?p)"
    using subs c wf open_pool by (intro start_segment_wf) (auto simp: pool_wf_def)
  ultimately show ?thesis by (auto simp: start_segment_def)
qed

end
