(* ===== verification/Average_Cost_Allocation.thy ===== *)
theory Average_Cost_Allocation
  imports Average_Cost_Pool
begin

text \<open>
  \<open>AverageCostSourceAllocation\<close> of \<open>average_cost_source_allocation.py\<close>: every acquisition is a
  source contribution, scaled lazily by the disposal and basis-transfer scales of its book, and
  \<open>materialize_book\<close> turns the contributions of one book into lot states that add up to the pool.
  The per-book \<open>defaultdict\<close>s of scalars are total functions with the default as the initial
  value. Reading a missing key of the two \<open>defaultdict(list)\<close>s returns the empty list; that such a
  read also stores it is not tracked (only \<open>restore_checkpoint\<close>, which is called on a fresh
  engine, looks at their key sets).
\<close>

section \<open>Contributions and allocation state\<close>

record source_contribution =
  ctb_book_key :: lot_key
  ctb_source_lot_id :: string
  ctb_source_acquisition_date :: int
  ctb_generation :: int
  ctb_original_quantity :: rat
  ctb_quantity :: rat
  ctb_cost_local :: rat
  ctb_cost_base :: rat
  disposal_scale_at_entry :: rat
  cost_local_scale_at_entry :: rat
  cost_base_scale_at_entry :: rat
  ctb_cost_local_generation :: int
  ctb_cost_base_generation :: int

record source_allocation =
  contributions :: "(string \<times> source_contribution) list"
  source_ids_by_key :: "(lot_key \<times> string list) list"
  active_source_ids_by_key :: "(lot_key \<times> string list) list"
  generation_by_key :: "lot_key \<Rightarrow> int"
  disposal_scale_by_key :: "lot_key \<Rightarrow> rat"
  segment_start_scale_by_key :: "lot_key \<Rightarrow> rat"
  segment_start_quantity_by_key :: "lot_key \<Rightarrow> rat"
  cost_local_scale_by_key :: "lot_key \<Rightarrow> rat"
  cost_base_scale_by_key :: "lot_key \<Rightarrow> rat"
  cost_local_generation_by_key :: "lot_key \<Rightarrow> int"
  cost_base_generation_by_key :: "lot_key \<Rightarrow> int"

definition AverageCostSourceAllocation :: source_allocation where
  "AverageCostSourceAllocation = \<lparr>contributions = [], source_ids_by_key = [],
     active_source_ids_by_key = [], generation_by_key = (\<lambda>_. 0), disposal_scale_by_key = (\<lambda>_. 1),
     segment_start_scale_by_key = (\<lambda>_. 1), segment_start_quantity_by_key = (\<lambda>_. 0),
     cost_local_scale_by_key = (\<lambda>_. 1), cost_base_scale_by_key = (\<lambda>_. 1),
     cost_local_generation_by_key = (\<lambda>_. 0), cost_base_generation_by_key = (\<lambda>_. 0)\<rparr>"

definition ids_of :: "lot_key \<Rightarrow> (lot_key \<times> string list) list \<Rightarrow> string list" where
  "ids_of key d = (case map_of d key of Some ids \<Rightarrow> ids | None \<Rightarrow> [])"

definition contribution_of :: "source_allocation \<Rightarrow> string \<Rightarrow> source_contribution res" where
  "contribution_of A tid = (case map_of (contributions A) tid of Some c \<Rightarrow> Inr c | None \<Rightarrow> Inl (KeyError tid))"

section \<open>State changes\<close>

definition add_source ::
  "lot_key \<Rightarrow> string \<Rightarrow> string \<Rightarrow> int \<Rightarrow> rat \<Rightarrow> rat option \<Rightarrow> rat \<Rightarrow> rat \<Rightarrow> rat \<Rightarrow> source_allocation \<Rightarrow>
   (unit, source_allocation) outcome" where
  "add_source key tid lid acquired quantity original_quantity cost_local cost_base pool_quantity_after A =
     (if map_of (contributions A) tid \<noteq> None
      then (Inl (ValueError ''AVCO source transaction identity must be unique''), A)
      else
        (Inr (), A\<lparr>contributions := dict_set tid
             \<lparr>ctb_book_key = key, ctb_source_lot_id = lid, ctb_source_acquisition_date = acquired,
              ctb_generation = generation_by_key A key,
              ctb_original_quantity = (case original_quantity of None \<Rightarrow> quantity | Some q \<Rightarrow> q),
              ctb_quantity = quantity, ctb_cost_local = cost_local, ctb_cost_base = cost_base,
              disposal_scale_at_entry = disposal_scale_by_key A key,
              cost_local_scale_at_entry = cost_local_scale_by_key A key,
              cost_base_scale_at_entry = cost_base_scale_by_key A key,
              ctb_cost_local_generation = cost_local_generation_by_key A key,
              ctb_cost_base_generation = cost_base_generation_by_key A key\<rparr> (contributions A),
           source_ids_by_key :=
             dict_set key (ids_of key (source_ids_by_key A) @ [tid]) (source_ids_by_key A),
           active_source_ids_by_key :=
             dict_set key (ids_of key (active_source_ids_by_key A) @ [tid]) (active_source_ids_by_key A),
           segment_start_scale_by_key := (segment_start_scale_by_key A)(key := disposal_scale_by_key A key),
           segment_start_quantity_by_key := (segment_start_quantity_by_key A)(key := pool_quantity_after)\<rparr>))"

definition reset_book :: "lot_key \<Rightarrow> source_allocation \<Rightarrow> source_allocation" where
  "reset_book key A =
     A\<lparr>active_source_ids_by_key := dict_set key [] (active_source_ids_by_key A),
       generation_by_key := (generation_by_key A)(key := generation_by_key A key + 1),
       disposal_scale_by_key := (disposal_scale_by_key A)(key := 1),
       segment_start_scale_by_key := (segment_start_scale_by_key A)(key := 1),
       segment_start_quantity_by_key := (segment_start_quantity_by_key A)(key := 0),
       cost_local_scale_by_key := (cost_local_scale_by_key A)(key := 1),
       cost_base_scale_by_key := (cost_base_scale_by_key A)(key := 1),
       cost_local_generation_by_key := (cost_local_generation_by_key A)(key := cost_local_generation_by_key A key + 1),
       cost_base_generation_by_key := (cost_base_generation_by_key A)(key := cost_base_generation_by_key A key + 1)\<rparr>"

definition apply_disposal ::
  "lot_key \<Rightarrow> rat \<Rightarrow> rat \<Rightarrow> source_allocation \<Rightarrow> (unit, source_allocation) outcome" where
  "apply_disposal key before after A =
     (if before \<le> 0 then (Inl (ValueError ''AVCO source allocation requires positive quantity_before''), A)
      else if after < 0 \<or> before < after
      then (Inl (ValueError ''AVCO source allocation quantity_after is outside the pool''), A)
      else if after = 0 then (Inr (), reset_book key A)
      else
        let segment_quantity = segment_start_quantity_by_key A key in
        if segment_quantity \<le> 0
        then (Inl (ValueError ''AVCO source allocation disposal segment is not initialized''), A)
        else
          obind (dec_div (context_precision state_policy)
                   (dec_mul (context_precision state_policy) (segment_start_scale_by_key A key) after)
                   segment_quantity, A) (\<lambda>scale A.
          (Inr (), A\<lparr>disposal_scale_by_key := (disposal_scale_by_key A)(key := scale)\<rparr>)))"

definition restated_contribution ::
  "lot_restatement \<Rightarrow> source_allocation \<Rightarrow> string \<Rightarrow> (string \<times> source_contribution) res" where
  "restated_contribution r A tid =
     rbind (contribution_of A tid) (\<lambda>c.
     rbind (restatement_apply r (ctb_original_quantity c) ''original_quantity'') (\<lambda>original_quantity.
     rbind (restatement_apply r (ctb_quantity c) ''source_quantity'') (\<lambda>quantity.
     Inr (tid, c\<lparr>ctb_original_quantity := original_quantity, ctb_quantity := quantity\<rparr>))))"

definition apply_quantity_restatement ::
  "lot_key \<Rightarrow> lot_restatement \<Rightarrow> source_allocation \<Rightarrow> (unit, source_allocation) outcome" where
  "apply_quantity_restatement key r A =
     obind (rmap (restated_contribution r A) (ids_of key (active_source_ids_by_key A)), A) (\<lambda>proposed A.
     obind (restatement_apply r (segment_start_quantity_by_key A key)
              ''source_allocation_segment_start_quantity'', A) (\<lambda>segment_quantity A.
     (Inr (), A\<lparr>contributions := fold (\<lambda>(tid, c). dict_set tid c) proposed (contributions A),
        segment_start_quantity_by_key := (segment_start_quantity_by_key A)(key := segment_quantity)\<rparr>)))"

definition scaled_basis_factor :: "rat \<Rightarrow> rat \<Rightarrow> rat \<Rightarrow> string \<Rightarrow> rat res" where
  "scaled_basis_factor current_scale cost_before cost_after currency_basis =
     rbind (require (0 < cost_before)
              (ValueError (''AVCO '' @ currency_basis @ '' cost basis must be positive before transfer''))) (\<lambda>_.
     rbind (require (\<not> (cost_after < 0 \<or> cost_before < cost_after))
              (ValueError (''AVCO '' @ currency_basis @ '' cost basis after transfer is invalid''))) (\<lambda>_.
     dec_div (context_precision state_policy)
       (dec_mul (context_precision state_policy) current_scale cost_after) cost_before))"

definition apply_basis_transfer ::
  "lot_key \<Rightarrow> rat \<Rightarrow> rat \<Rightarrow> rat \<Rightarrow> rat \<Rightarrow> source_allocation \<Rightarrow> (unit, source_allocation) outcome" where
  "apply_basis_transfer key local_before local_after base_before base_after A =
     obind (scaled_basis_factor (cost_local_scale_by_key A key) local_before local_after ''local'', A) (\<lambda>local_scale A.
     obind (scaled_basis_factor (cost_base_scale_by_key A key) base_before base_after ''base'', A) (\<lambda>base_scale A.
     (Inr (), A\<lparr>
        cost_local_scale_by_key := (cost_local_scale_by_key A)(key := if local_scale = 0 then 1 else local_scale),
        cost_base_scale_by_key := (cost_base_scale_by_key A)(key := if base_scale = 0 then 1 else base_scale),
        cost_local_generation_by_key := (cost_local_generation_by_key A)
          (key := cost_local_generation_by_key A key + (if local_scale = 0 then 1 else 0)),
        cost_base_generation_by_key := (cost_base_generation_by_key A)
          (key := cost_base_generation_by_key A key + (if base_scale = 0 then 1 else 0))\<rparr>)))"

section \<open>Materialisation\<close>

definition named_contributions :: "source_allocation \<Rightarrow> string list \<Rightarrow> (string \<times> source_contribution) list res" where
  "named_contributions A = rmap (\<lambda>tid. rbind (contribution_of A tid) (\<lambda>c. Inr (tid, c)))"

definition source_contributions ::
  "source_allocation \<Rightarrow> lot_key \<Rightarrow> (string \<times> source_contribution) list res" where
  "source_contributions A key = named_contributions A (ids_of key (source_ids_by_key A))"

definition active_source_contributions ::
  "source_allocation \<Rightarrow> lot_key \<Rightarrow> (string \<times> source_contribution) list res" where
  "active_source_contributions A key = named_contributions A (ids_of key (active_source_ids_by_key A))"

definition disposal_factor :: "source_allocation \<Rightarrow> source_contribution \<Rightarrow> rat res" where
  "disposal_factor A c =
     (if ctb_generation c \<noteq> generation_by_key A (ctb_book_key c) then Inr 0
      else dec_div (context_precision state_policy)
             (disposal_scale_by_key A (ctb_book_key c)) (disposal_scale_at_entry c))"

definition materialized_quantity ::
  "source_contribution \<Rightarrow> int \<Rightarrow> rat \<Rightarrow> rat \<Rightarrow> rat \<Rightarrow> rat res" where
  "materialized_quantity c current_generation factor aggregate allocated =
     (if ctb_generation c \<noteq> current_generation then Inr 0
      else
        rbind (dec_quantize round_down (context_precision state_policy) 10
                 (dec_mul (context_precision state_policy) (ctb_quantity c) factor)) (\<lambda>quantity.
        rbind (allocate_nonnegative_storage_share quantity aggregate allocated ''open_quantity'') (\<lambda>share.
        Inr (min share (ctb_original_quantity c)))))"

text \<open>The first loop of \<open>materialize_book\<close>: the quantities in source order and their total.\<close>

fun materialize_quantities ::
  "source_allocation \<Rightarrow> int \<Rightarrow> rat \<Rightarrow> source_contribution list \<Rightarrow> rat \<Rightarrow> (rat list \<times> rat) res" where
  "materialize_quantities A gen aggregate [] allocated = Inr ([], allocated)"
| "materialize_quantities A gen aggregate (c # cs) allocated =
     rbind (disposal_factor A c) (\<lambda>factor.
     rbind (materialized_quantity c gen factor aggregate allocated) (\<lambda>quantity.
     rbind (policy_add state_policy ''allocated_quantity'' allocated quantity) (\<lambda>allocated'.
     rbind (materialize_quantities A gen aggregate cs allocated') (\<lambda>(quantities, total).
     Inr (quantity # quantities, total)))))"

text \<open>\<open>_assign_quantity_residual\<close>: the loop runs over the sources in reverse order.\<close>

fun assign_residual_loop :: "int \<Rightarrow> (source_contribution \<times> rat) list \<Rightarrow> rat \<Rightarrow> rat list res" where
  "assign_residual_loop gen [] remaining =
     rbind (require (remaining = 0)
       (ValueError ''AVCO pool quantity exceeds source original quantity authority'')) (\<lambda>_. Inr [])"
| "assign_residual_loop gen ((c, current) # rest) remaining =
     (if remaining = 0 then Inr (current # map snd rest)
      else if ctb_generation c \<noteq> gen
      then rbind (assign_residual_loop gen rest remaining) (\<lambda>qs. Inr (current # qs))
      else
        rbind (policy_subtract state_policy ''source_quantity_headroom''
                 (ctb_original_quantity c) current) (\<lambda>headroom.
        let assigned = min remaining headroom in
        rbind (policy_add state_policy ''open_quantity'' current assigned) (\<lambda>quantity.
        rbind (policy_subtract state_policy ''unallocated_open_quantity'' remaining assigned) (\<lambda>remaining'.
        rbind (assign_residual_loop gen rest remaining') (\<lambda>qs.
        Inr (quantity # qs))))))"

definition assign_quantity_residual ::
  "int \<Rightarrow> (source_contribution \<times> rat) list \<Rightarrow> rat \<Rightarrow> rat \<Rightarrow> rat list res" where
  "assign_quantity_residual gen sources aggregate allocated =
     rbind (policy_subtract state_policy ''unallocated_open_quantity'' aggregate allocated) (\<lambda>remaining.
     rbind (assign_residual_loop gen (rev sources) remaining) (\<lambda>qs. Inr (rev qs)))"

text \<open>The last source in order that is open and whose cost generation is current.\<close>

definition last_cost_source ::
  "(source_contribution \<Rightarrow> int) \<Rightarrow> int \<Rightarrow> (string \<times> source_contribution \<times> rat) list \<Rightarrow> string option" where
  "last_cost_source generation_of gen sources =
     foldl (\<lambda>found (tid, c, q). if 0 < q \<and> generation_of c = gen then Some tid else found) None sources"

definition materialized_cost ::
  "bool \<Rightarrow> rat \<Rightarrow> int \<Rightarrow> int \<Rightarrow> string \<Rightarrow> string option \<Rightarrow> rat \<Rightarrow> rat \<Rightarrow> rat \<Rightarrow> rat \<Rightarrow> rat \<Rightarrow> string \<Rightarrow> rat res" where
  "materialized_cost eligible source_cost source_generation current_generation tid last_source_id
     scale scale_at_entry factor aggregate allocated field_name =
     (if \<not> eligible \<or> source_generation \<noteq> current_generation then Inr 0
      else if Some tid = last_source_id then policy_subtract state_policy field_name aggregate allocated
      else
        rbind (dec_div (context_precision state_policy)
                 (dec_mul (context_precision state_policy)
                    (dec_mul (context_precision state_policy) source_cost factor) scale)
                 scale_at_entry) (\<lambda>cost.
        allocate_nonnegative_storage_share cost aggregate allocated field_name))"

text \<open>The last loop of \<open>materialize_book\<close>; \<open>allocated\<close> is the scratch pool it accumulates into.\<close>

fun materialize_states ::
  "source_allocation \<Rightarrow> lot_key \<Rightarrow> average_cost_pool \<Rightarrow> string option \<Rightarrow> string option \<Rightarrow>
   (string \<times> source_contribution \<times> rat) list \<Rightarrow> average_cost_pool \<Rightarrow> (string \<times> open_lot_state) list res" where
  "materialize_states A key pool last_local last_base [] allocated = Inr []"
| "materialize_states A key pool last_local last_base ((tid, c, quantity) # sources) allocated =
     rbind (disposal_factor A c) (\<lambda>factor.
     rbind (materialized_cost (0 < quantity) (ctb_cost_local c) (ctb_cost_local_generation c)
              (cost_local_generation_by_key A key) tid last_local (cost_local_scale_by_key A key)
              (cost_local_scale_at_entry c) factor (pool_cost_local pool) (pool_cost_local allocated)
              ''lot_cost_local'') (\<lambda>cost_local.
     rbind (materialized_cost (0 < quantity) (ctb_cost_base c) (ctb_cost_base_generation c)
              (cost_base_generation_by_key A key) tid last_base (cost_base_scale_by_key A key)
              (cost_base_scale_at_entry c) factor (pool_cost_base pool) (pool_cost_base allocated)
              ''lot_cost_base'') (\<lambda>cost_base.
     rbind (OpenLotState (ctb_original_quantity c) quantity cost_local cost_base None) (\<lambda>st.
     case pool_add (ols_quantity st) (ols_cost_local st) (ols_cost_base st) allocated of
       (Inl e, _) \<Rightarrow> Inl e
     | (Inr _, allocated') \<Rightarrow>
         rbind (materialize_states A key pool last_local last_base sources allocated') (\<lambda>states.
         Inr ((tid, st) # states))))))"

definition materialize_book ::
  "lot_key \<Rightarrow> average_cost_pool \<Rightarrow> source_allocation \<Rightarrow> (string \<times> open_lot_state) list res" where
  "materialize_book key pool A =
     rbind (active_source_contributions A key) (\<lambda>sources.
     rbind (materialize_quantities A (generation_by_key A key) (pool_quantity pool) (map snd sources) 0)
       (\<lambda>(quantities, allocated).
     rbind (assign_quantity_residual (generation_by_key A key) (zip (map snd sources) quantities)
              (pool_quantity pool) allocated) (\<lambda>quantities.
     let rows = map (\<lambda>((tid, c), q). (tid, c, q)) (zip sources quantities) in
     materialize_states A key pool
       (last_cost_source ctb_cost_local_generation (cost_local_generation_by_key A key) rows)
       (last_cost_source ctb_cost_base_generation (cost_base_generation_by_key A key) rows)
       rows AverageCostPool)))"

definition closed_state :: "rat \<Rightarrow> open_lot_state res" where
  "closed_state original_quantity = OpenLotState original_quantity 0 0 0 None"

text \<open>\<open>materialize\<close> over the book keys in insertion order; a pool that is missing is the empty pool
  of the \<open>defaultdict\<close>. The default argument of \<open>dict.get\<close> is evaluated in either case.\<close>

definition state_or_closed ::
  "source_allocation \<Rightarrow> (string \<times> open_lot_state) list \<Rightarrow> string \<Rightarrow> (string \<times> open_lot_state) res" where
  "state_or_closed A states tid =
     rbind (contribution_of A tid) (\<lambda>c.
     rbind (closed_state (ctb_original_quantity c)) (\<lambda>closed.
     Inr (tid, case map_of states tid of Some st \<Rightarrow> st | None \<Rightarrow> closed)))"

fun materialize_books ::
  "(lot_key \<Rightarrow> average_cost_pool) \<Rightarrow> source_allocation \<Rightarrow> (lot_key \<times> string list) list \<Rightarrow>
   (string \<times> open_lot_state) list \<Rightarrow> (string \<times> open_lot_state) list res" where
  "materialize_books pools A [] states = Inr states"
| "materialize_books pools A ((key, ids) # books) states =
     rbind (materialize_book key (pools key) A) (\<lambda>active_states.
     rbind (rmap (state_or_closed A active_states) ids) (\<lambda>book_states.
     materialize_books pools A books (fold (\<lambda>(tid, st). dict_set tid st) book_states states)))"

definition materialize ::
  "(lot_key \<Rightarrow> average_cost_pool) \<Rightarrow> source_allocation \<Rightarrow> (string \<times> open_lot_state) list res" where
  "materialize pools A = materialize_books pools A (source_ids_by_key A) []"

end
