(* ===== verification/Average_Cost_Strategy.thy ===== *)
theory Average_Cost_Strategy
  imports Average_Cost_Allocation
begin

text \<open>
  \<open>AverageCostBasisStrategy\<close> of \<open>cost_basis_strategies.py\<close>: a pool per book beside the lazy source
  allocation. \<open>_pools\<close> is a \<open>defaultdict\<close> whose key set is observable (the checkpoint export and
  the materialisation look at it), so a read of a missing book stores an empty pool.
\<close>

record avco_state =
  avco_pools :: "(lot_key \<times> average_cost_pool) list"
  avco_allocation :: source_allocation

definition AverageCostBasisStrategy :: avco_state where
  "AverageCostBasisStrategy = \<lparr>avco_pools = [], avco_allocation = AverageCostSourceAllocation\<rparr>"

definition pool_of :: "avco_state \<Rightarrow> lot_key \<Rightarrow> average_cost_pool" where
  "pool_of s key = (case map_of (avco_pools s) key of Some p \<Rightarrow> p | None \<Rightarrow> AverageCostPool)"

definition touch_pool :: "lot_key \<Rightarrow> avco_state \<Rightarrow> avco_state" where
  "touch_pool key s = s\<lparr>avco_pools := dict_set key (pool_of s key) (avco_pools s)\<rparr>"

text \<open>An operation on the pool of a book, or on the source allocation, as an operation of the
  strategy.\<close>

definition on_pool ::
  "lot_key \<Rightarrow> (average_cost_pool \<Rightarrow> ('a, average_cost_pool) outcome) \<Rightarrow> avco_state \<Rightarrow> ('a, avco_state) outcome" where
  "on_pool key f s =
     (case f (pool_of s key) of (r, p) \<Rightarrow> (r, s\<lparr>avco_pools := dict_set key p (avco_pools s)\<rparr>))"

definition on_allocation ::
  "(source_allocation \<Rightarrow> ('a, source_allocation) outcome) \<Rightarrow> avco_state \<Rightarrow> ('a, avco_state) outcome" where
  "on_allocation f s = (case f (avco_allocation s) of (r, A) \<Rightarrow> (r, s\<lparr>avco_allocation := A\<rparr>))"

section \<open>Acquisition\<close>

definition avco_add_buy_lot :: "cost_basis_transaction \<Rightarrow> avco_state \<Rightarrow> (unit, avco_state) outcome" where
  "avco_add_buy_lot t s =
     (case validated_buy_lot_inputs t of
        Inl e \<Rightarrow> (Inl e, s)
      | Inr None \<Rightarrow> (Inr (), s)
      | Inr (Some (quantity, base, local)) \<Rightarrow>
          let key = transaction_key t in
          obind (on_pool key (pool_add quantity local base) s) (\<lambda>_ s.
          obind (source_lot_original_quantity_of t quantity, s) (\<lambda>original s.
          on_allocation
            (add_source key (transaction_id t) (''LOT-'' @ transaction_id t) (utc_transaction_date t)
               quantity (Some original) local base (pool_quantity (pool_of s key))) s)))"

section \<open>Disposal\<close>

record unreconciled_allocation =
  unr_source_lot_id :: string
  unr_source_transaction_id :: string
  unr_source_acquisition_date :: int
  unr_consumed_quantity :: rat
  unr_consumed_cost_local :: rat
  unr_consumed_cost_base :: rat
  unr_source_original_quantity :: rat
  unr_source_open_quantity_before :: rat

definition state_of :: "(string \<times> open_lot_state) list \<Rightarrow> string \<Rightarrow> open_lot_state res" where
  "state_of states tid = (case map_of states tid of Some st \<Rightarrow> Inr st | None \<Rightarrow> Inl (KeyError tid))"

definition unreconciled_source_disposal ::
  "(string \<times> open_lot_state) list \<Rightarrow> (string \<times> open_lot_state) list \<Rightarrow> string \<times> source_contribution \<Rightarrow>
   unreconciled_allocation res" where
  "unreconciled_source_disposal states_before states_after source =
     (case source of (tid, c) \<Rightarrow>
     rbind (state_of states_before tid) (\<lambda>before.
     rbind (closed_state (ctb_quantity c)) (\<lambda>closed.
     let after = (case map_of states_after tid of Some st \<Rightarrow> st | None \<Rightarrow> closed) in
     rbind (policy_subtract state_policy ''consumed_quantity'' (ols_quantity before) (ols_quantity after)) (\<lambda>quantity.
     rbind (policy_subtract state_policy ''disposed_cost_local''
              (ols_cost_local before) (ols_cost_local after)) (\<lambda>cost_local.
     rbind (policy_subtract state_policy ''disposed_cost_base''
              (ols_cost_base before) (ols_cost_base after)) (\<lambda>cost_base.
     Inr \<lparr>unr_source_lot_id = ctb_source_lot_id c, unr_source_transaction_id = tid,
          unr_source_acquisition_date = ctb_source_acquisition_date c,
          unr_consumed_quantity = quantity, unr_consumed_cost_local = cost_local,
          unr_consumed_cost_base = cost_base,
          unr_source_original_quantity = ols_original_quantity before,
          unr_source_open_quantity_before = ols_quantity before\<rparr>))))))"

definition reconciled_allocation ::
  "nat \<times> (unreconciled_allocation \<times> rat) \<times> rat \<times> rat \<Rightarrow> source_lot_disposal_allocation res" where
  "reconciled_allocation row =
     (case row of (ordinal, (a, quantity), cost_local, cost_base) \<Rightarrow>
      SourceLotDisposalAllocation
       \<lparr>source_lot_id = unr_source_lot_id a, source_transaction_id = unr_source_transaction_id a,
        source_acquisition_date = unr_source_acquisition_date a, allocation_ordinal = ordinal,
        consumed_quantity = quantity, consumed_cost_local = cost_local, consumed_cost_base = cost_base,
        source_original_quantity = Some (unr_source_original_quantity a),
        source_open_quantity_before = Some (unr_source_open_quantity_before a), amortized_cost_evidence = None\<rparr>)"

definition reconcile_disposal_allocation_residuals ::
  "unreconciled_allocation list \<Rightarrow> rat \<Rightarrow> rat \<Rightarrow> rat \<Rightarrow> source_lot_disposal_allocation list res" where
  "reconcile_disposal_allocation_residuals allocations cost_base cost_local quantity =
     (let quantity_sources = filter (\<lambda>a. 0 < unr_consumed_quantity a) allocations in
      rbind (apportion_nonnegative_disposal_values (map unr_consumed_quantity quantity_sources)
               quantity ''consumed_quantity'') (\<lambda>quantities.
      let quantity_allocations = filter (\<lambda>(a, q). 0 < q) (zip quantity_sources quantities) in
      rbind (apportion_nonnegative_disposal_values
               (map (unr_consumed_cost_local \<circ> fst) quantity_allocations) cost_local ''disposed_cost_local'') (\<lambda>local_costs.
      rbind (apportion_nonnegative_disposal_values
               (map (unr_consumed_cost_base \<circ> fst) quantity_allocations) cost_base ''disposed_cost_base'') (\<lambda>base_costs.
      rmap reconciled_allocation
        (enumerate 1 (zip quantity_allocations (zip local_costs base_costs)))))))"

definition avco_consume_sell_quantity_with_allocations ::
  "string \<Rightarrow> string \<Rightarrow> rat \<Rightarrow> avco_state \<Rightarrow> (lot_disposal_result, avco_state) outcome" where
  "avco_consume_sell_quantity_with_allocations portfolio instrument sell_quantity s =
     (let key = (portfolio, instrument); s = touch_pool key s; total = pool_quantity (pool_of s key) in
      case non_positive_sell_quantity_error sell_quantity of
        Some reason \<Rightarrow> (disposal_failed reason, s)
      | None \<Rightarrow>
          if total < sell_quantity then (disposal_failed (SellExceedsAverageHoldings sell_quantity total), s)
          else if total = 0
          then (disposal_failed (Reason ''No holdings to sell against (Average Cost method).''), s)
          else if sell_quantity = 0 then (disposal_empty, s)
          else
            obind (active_source_contributions (avco_allocation s) key, s) (\<lambda>sources s.
            obind (materialize_book key (pool_of s key) (avco_allocation s), s) (\<lambda>states_before s.
            obind (on_pool key (pool_dispose sell_quantity) s) (\<lambda>(cogs_base, cogs_local) s.
            obind (on_allocation (apply_disposal key total (pool_quantity (pool_of s key))) s) (\<lambda>_ s.
            obind (materialize_book key (pool_of s key) (avco_allocation s), s) (\<lambda>states_after s.
            (rbind (rmap (unreconciled_source_disposal states_before states_after) sources) (\<lambda>allocations.
             rbind (reconcile_disposal_allocation_residuals allocations cogs_base cogs_local sell_quantity) (\<lambda>reconciled.
             LotDisposalResult \<lparr>ldr_cost_base = cogs_base, ldr_cost_local = cogs_local,
               ldr_consumed_quantity = sell_quantity, ldr_allocations = reconciled,
               ldr_error_reason = None\<rparr>)), s)))))))"

definition avco_consume_sell_quantity ::
  "string \<Rightarrow> string \<Rightarrow> rat \<Rightarrow> avco_state \<Rightarrow> (rat \<times> rat \<times> rat \<times> failure_reason option, avco_state) outcome" where
  "avco_consume_sell_quantity portfolio instrument sell_quantity s =
     obind (avco_consume_sell_quantity_with_allocations portfolio instrument sell_quantity s)
       (\<lambda>r s'. (Inr (legacy_tuple r), s'))"

definition avco_get_available_quantity :: "string \<Rightarrow> string \<Rightarrow> avco_state \<Rightarrow> rat \<times> avco_state" where
  "avco_get_available_quantity portfolio instrument s =
     (let key = (portfolio, instrument) in (pool_quantity (pool_of s key), touch_pool key s))"

section \<open>Restatement and basis transfer\<close>

definition avco_restate_lot_quantities ::
  "string \<Rightarrow> string \<Rightarrow> rat \<Rightarrow> avco_state \<Rightarrow> (lot_restatement, avco_state) outcome" where
  "avco_restate_lot_quantities portfolio instrument signed_quantity_delta s =
     (let key = (portfolio, instrument); s = touch_pool key s; pool = pool_of s key in
      obind (from_signed_delta (pool_quantity pool) signed_quantity_delta, s) (\<lambda>r s.
      obind (restatement_apply r (segment_start_quantity pool) ''segment_start_quantity'', s) (\<lambda>segment_quantity s.
      obind (on_allocation (apply_quantity_restatement key r) s) (\<lambda>_ s.
      on_pool key (\<lambda>p. (Inr r, p\<lparr>pool_quantity := quantity_after r,
                                 segment_start_quantity := segment_quantity\<rparr>)) s))))"

definition pool_basis_transfer_error :: "average_cost_pool \<Rightarrow> rat \<Rightarrow> rat \<Rightarrow> failure_reason option" where
  "pool_basis_transfer_error pool cost_base cost_local =
     basis_transfer_amount_error cost_base cost_local (pool_cost_base pool) (pool_cost_local pool)"

definition basis_transfer_source ::
  "(string \<times> open_lot_state) list \<Rightarrow> (string \<times> open_lot_state) list \<Rightarrow> string \<times> source_contribution \<Rightarrow>
   (string \<times> string \<times> int \<times> open_lot_state \<times> open_lot_state) res" where
  "basis_transfer_source states_before states_after source =
     (case source of (tid, c) \<Rightarrow>
     rbind (state_of states_before tid) (\<lambda>before.
     rbind (state_of states_after tid) (\<lambda>after.
     Inr (ctb_source_lot_id c, tid, ctb_source_acquisition_date c, before, after))))"

definition avco_transfer_basis_out_with_allocations ::
  "string \<Rightarrow> string \<Rightarrow> rat \<Rightarrow> rat \<Rightarrow> avco_state \<Rightarrow> (lot_basis_transfer_result, avco_state) outcome" where
  "avco_transfer_basis_out_with_allocations portfolio instrument cost_base cost_local s =
     (let key = (portfolio, instrument); s = touch_pool key s; pool = pool_of s key in
      case pool_basis_transfer_error pool cost_base cost_local of
        Some reason \<Rightarrow> (basis_transfer_failed reason, s)
      | None \<Rightarrow>
          obind (materialize_book key pool (avco_allocation s), s) (\<lambda>states_before s.
          obind (active_source_contributions (avco_allocation s) key, s) (\<lambda>sources s.
          obind (on_pool key (pool_transfer_basis_out cost_local cost_base) s) (\<lambda>_ s.
          obind (on_allocation
                   (apply_basis_transfer key (pool_cost_local pool) (pool_cost_local (pool_of s key))
                      (pool_cost_base pool) (pool_cost_base (pool_of s key))) s) (\<lambda>_ s.
          obind (materialize_book key (pool_of s key) (avco_allocation s), s) (\<lambda>states_after s.
          (rbind (rmap (basis_transfer_source states_before states_after) sources) (\<lambda>rows.
           basis_transfer_result rows cost_local cost_base), s)))))))"

definition avco_transfer_basis_out ::
  "string \<Rightarrow> string \<Rightarrow> rat \<Rightarrow> rat \<Rightarrow> avco_state \<Rightarrow> (failure_reason option, avco_state) outcome" where
  "avco_transfer_basis_out portfolio instrument cost_base cost_local s =
     obind (avco_transfer_basis_out_with_allocations portfolio instrument cost_base cost_local s)
       (\<lambda>r s'. (Inr (lbt_error_reason r), s'))"

section \<open>Restoring and reading lots\<close>

fun avco_restore_open_lots :: "cost_basis_transaction list \<Rightarrow> avco_state \<Rightarrow> (unit, avco_state) outcome" where
  "avco_restore_open_lots [] s = (Inr (), s)"
| "avco_restore_open_lots (t # ts) s =
     obind (avco_add_buy_lot t s) (\<lambda>_ s'. avco_restore_open_lots ts s')"

definition avco_set_initial_lots :: "cost_basis_transaction list \<Rightarrow> avco_state \<Rightarrow> (unit, avco_state) outcome" where
  "avco_set_initial_lots ts s = avco_restore_open_lots (filter is_buy_transaction ts) s"

text \<open>Every book that has sources has a pool (both \<open>add_buy_lot\<close> and the restore store it), so reading
  \<open>pools[book_key]\<close> here stores none.\<close>

definition avco_get_open_lot_states :: "avco_state \<Rightarrow> (string \<times> open_lot_state) list res" where
  "avco_get_open_lot_states s = materialize (pool_of s) (avco_allocation s)"

end
