(* ===== verification/Average_Cost_Checkpoint.thy ===== *)
theory Average_Cost_Checkpoint
  imports Average_Cost_Strategy
begin

text \<open>
  The persisted state of an average-cost book: \<open>average_cost_pool_checkpoint.py\<close> and
  \<open>average_cost_allocation_checkpoint.py\<close> with their validations, the export and the restore of a
  strategy's book, the pool transition of an incremental write, and the reconciliation assessment of
  \<open>average_cost_pool_reconciliation.py\<close>. The optional calculation lineage of a pool checkpoint is
  evidence beside the state and is not part of the model.
\<close>

section \<open>Pool checkpoints\<close>

definition AVERAGE_COST_POOL_STATE_VERSION :: string where
  "AVERAGE_COST_POOL_STATE_VERSION = ''avco-pool-v1''"

definition require_nonnegative_finite :: "rat \<Rightarrow> string \<Rightarrow> unit res" where
  "require_nonnegative_finite value field_name =
     require (0 \<le> value) (ValueError (field_name @ '' must be nonnegative''))"

record pool_checkpoint =
  pcp_portfolio_id :: string
  pcp_instrument_id :: string
  pcp_security_id :: string
  representative_source_transaction_id :: "string option"
  pcp_quantity :: rat
  pcp_cost_local :: rat
  pcp_cost_base :: rat
  pcp_state_version :: string

text \<open>An absent and an empty representative are both falsy.\<close>

definition AverageCostPoolCheckpoint ::
  "string \<Rightarrow> string \<Rightarrow> string \<Rightarrow> string option \<Rightarrow> rat \<Rightarrow> rat \<Rightarrow> rat \<Rightarrow> pool_checkpoint res" where
  "AverageCostPoolCheckpoint portfolio instrument security representative quantity cost_local cost_base =
     rbind (require_nonnegative_finite quantity ''Average cost pool quantity'') (\<lambda>_.
     rbind (require_nonnegative_finite cost_local ''Average cost pool local basis'') (\<lambda>_.
     rbind (require_nonnegative_finite cost_base ''Average cost pool base basis'') (\<lambda>_.
     rbind (require (\<not> (0 < quantity \<and> representative \<in> {None, Some []}))
              (ValueError ''Positive average cost pool requires representative source lineage'')) (\<lambda>_.
     rbind (require (\<not> (quantity = 0 \<and> (cost_local \<noteq> 0 \<or> cost_base \<noteq> 0)))
              (ValueError ''Closed average cost pool must have zero local and base basis'')) (\<lambda>_.
     Inr \<lparr>pcp_portfolio_id = portfolio, pcp_instrument_id = instrument, pcp_security_id = security,
          representative_source_transaction_id = representative, pcp_quantity = quantity,
          pcp_cost_local = cost_local, pcp_cost_base = cost_base,
          pcp_state_version = AVERAGE_COST_POOL_STATE_VERSION\<rparr>)))))"

fun sum_state_field :: "string \<Rightarrow> (open_lot_state \<Rightarrow> rat) \<Rightarrow> open_lot_state list \<Rightarrow> rat \<Rightarrow> rat res" where
  "sum_state_field field_name field [] running = Inr running"
| "sum_state_field field_name field (st # states) running =
     rbind (policy_add state_policy (''pool_'' @ field_name) running (field st)) (\<lambda>running'.
     sum_state_field field_name field states running')"

text \<open>The last source that is still open, else the given default.\<close>

definition last_open_source :: "string option \<Rightarrow> (string \<times> open_lot_state) list \<Rightarrow> string option" where
  "last_open_source dflt states =
     (case find (\<lambda>(tid, st). 0 < ols_quantity st) (rev states) of Some (tid, _) \<Rightarrow> Some tid | None \<Rightarrow> dflt)"

definition from_open_lot_states ::
  "string \<Rightarrow> string \<Rightarrow> string \<Rightarrow> (string \<times> open_lot_state) list \<Rightarrow> pool_checkpoint res" where
  "from_open_lot_states portfolio instrument security states =
     rbind (sum_state_field ''quantity'' ols_quantity (map snd states) 0) (\<lambda>quantity.
     rbind (sum_state_field ''cost_local'' ols_cost_local (map snd states) 0) (\<lambda>cost_local.
     rbind (sum_state_field ''cost_base'' ols_cost_base (map snd states) 0) (\<lambda>cost_base.
     AverageCostPoolCheckpoint portfolio instrument security (last_open_source None states)
       quantity cost_local cost_base)))"

definition is_compatible :: "pool_checkpoint \<Rightarrow> string \<Rightarrow> string \<Rightarrow> string \<Rightarrow> bool" where
  "is_compatible cp portfolio instrument security \<longleftrightarrow>
     pcp_state_version cp = AVERAGE_COST_POOL_STATE_VERSION \<and> pcp_portfolio_id cp = portfolio \<and>
     pcp_instrument_id cp = instrument \<and> pcp_security_id cp = security"

definition as_open_lot_state :: "pool_checkpoint \<Rightarrow> open_lot_state res" where
  "as_open_lot_state cp =
     OpenLotState (pcp_quantity cp) (pcp_quantity cp) (pcp_cost_local cp) (pcp_cost_base cp) None"

section \<open>Pool transitions\<close>

record pool_transition =
  transition_before :: pool_checkpoint
  existing_sources_after :: open_lot_state
  explicit_sources_after :: "(string \<times> open_lot_state) list"

definition validate_open_lot_state :: "open_lot_state \<Rightarrow> string \<Rightarrow> unit res" where
  "validate_open_lot_state st field_name =
     rbind (require_nonnegative_finite (ols_quantity st) (field_name @ '' quantity'')) (\<lambda>_.
     rbind (require_nonnegative_finite (ols_cost_local st) (field_name @ '' local basis'')) (\<lambda>_.
     rbind (require_nonnegative_finite (ols_cost_base st) (field_name @ '' base basis'')) (\<lambda>_.
     require (\<not> (ols_quantity st = 0 \<and> (ols_cost_local st \<noteq> 0 \<or> ols_cost_base st \<noteq> 0)))
       (ValueError (field_name @ '' closed quantity must have zero basis'')))))"

definition validate_explicit_source :: "string \<times> open_lot_state \<Rightarrow> unit res" where
  "validate_explicit_source source =
     (case source of (tid, st) \<Rightarrow>
      rbind (require (py_strip tid \<noteq> [])
               (ValueError ''Explicit average cost source transaction ID must not be blank'')) (\<lambda>_.
      validate_open_lot_state st (''explicit source '' @ tid)))"

definition AverageCostPoolTransition ::
  "pool_checkpoint \<Rightarrow> open_lot_state \<Rightarrow> (string \<times> open_lot_state) list \<Rightarrow> pool_transition res" where
  "AverageCostPoolTransition before existing explicit =
     rbind (validate_open_lot_state existing ''existing_sources_after'') (\<lambda>_.
     rbind (rmap validate_explicit_source explicit) (\<lambda>_.
     rbind (require (representative_source_transaction_id before \<notin> Some ` set (map fst explicit))
              (ValueError ''Existing representative source cannot also be an explicit new source'')) (\<lambda>_.
     rbind (require (\<not> (pcp_quantity before < ols_quantity existing \<or>
                       pcp_cost_local before < ols_cost_local existing \<or>
                       pcp_cost_base before < ols_cost_base existing))
              (ValueError ''Existing average cost sources cannot increase during a transition'')) (\<lambda>_.
     Inr \<lparr>transition_before = before, existing_sources_after = existing,
          explicit_sources_after = explicit\<rparr>))))"

definition transition_after :: "pool_transition \<Rightarrow> pool_checkpoint res" where
  "transition_after t =
     (let before = transition_before t; existing = existing_sources_after t;
          explicit = explicit_sources_after t in
      rbind (sum_state_field ''quantity'' ols_quantity (map snd explicit) 0) (\<lambda>explicit_quantity.
      rbind (sum_state_field ''cost_local'' ols_cost_local (map snd explicit) 0) (\<lambda>explicit_local.
      rbind (sum_state_field ''cost_base'' ols_cost_base (map snd explicit) 0) (\<lambda>explicit_base.
      rbind (policy_add state_policy ''pool_quantity'' (ols_quantity existing) explicit_quantity) (\<lambda>quantity.
      rbind (policy_add state_policy ''pool_cost_local'' (ols_cost_local existing) explicit_local) (\<lambda>cost_local.
      rbind (policy_add state_policy ''pool_cost_base'' (ols_cost_base existing) explicit_base) (\<lambda>cost_base.
      AverageCostPoolCheckpoint (pcp_portfolio_id before) (pcp_instrument_id before) (pcp_security_id before)
        (last_open_source
          (if 0 < ols_quantity existing then representative_source_transaction_id before else None) explicit)
        quantity cost_local cost_base)))))))"

section \<open>Allocation checkpoints\<close>

definition AVERAGE_COST_ALLOCATION_STATE_VERSION :: string where
  "AVERAGE_COST_ALLOCATION_STATE_VERSION = ''avco-source-allocation-v1''"

definition checkpoint_require_decimal :: "rat \<Rightarrow> string \<Rightarrow> bool \<Rightarrow> unit res" where
  "checkpoint_require_decimal value field_name positive =
     require (\<not> (value < 0 \<or> (positive \<and> value = 0)))
       (ValueError (field_name @ '' must be '' @ (if positive then ''positive'' else ''nonnegative'')))"

definition require_nonnegative_integer :: "int \<Rightarrow> string \<Rightarrow> unit res" where
  "require_nonnegative_integer value field_name =
     require (0 \<le> value) (ValueError (field_name @ '' must be nonnegative''))"

record source_accumulator =
  acc_source_transaction_id :: string
  acc_source_lot_id :: string
  acc_source_acquisition_date :: int
  acc_source_sequence :: int
  acc_generation :: int
  acc_original_quantity :: rat
  acc_quantity :: rat
  acc_cost_local :: rat
  acc_cost_base :: rat
  acc_disposal_scale_at_entry :: rat
  acc_cost_local_scale_at_entry :: rat
  acc_cost_base_scale_at_entry :: rat
  acc_cost_local_generation :: int
  acc_cost_base_generation :: int

definition AverageCostSourceAccumulator :: "source_accumulator \<Rightarrow> source_accumulator res" where
  "AverageCostSourceAccumulator a =
     rbind (required_text (acc_source_transaction_id a) ''source_transaction_id'') (\<lambda>tid.
     rbind (required_text (acc_source_lot_id a) ''source_lot_id'') (\<lambda>lid.
     rbind (require_nonnegative_integer (acc_source_sequence a) ''source_sequence'') (\<lambda>_.
     rbind (require (1 \<le> acc_source_sequence a) (ValueError ''source_sequence must be positive'')) (\<lambda>_.
     rbind (require_nonnegative_integer (acc_generation a) ''generation'') (\<lambda>_.
     rbind (require_nonnegative_integer (acc_cost_local_generation a) ''cost_local_generation'') (\<lambda>_.
     rbind (require_nonnegative_integer (acc_cost_base_generation a) ''cost_base_generation'') (\<lambda>_.
     rbind (checkpoint_require_decimal (acc_original_quantity a) ''original_quantity'' False) (\<lambda>_.
     rbind (checkpoint_require_decimal (acc_quantity a) ''quantity'' False) (\<lambda>_.
     rbind (checkpoint_require_decimal (acc_cost_local a) ''cost_local'' False) (\<lambda>_.
     rbind (checkpoint_require_decimal (acc_cost_base a) ''cost_base'' False) (\<lambda>_.
     rbind (require (acc_quantity a \<le> acc_original_quantity a)
              (ValueError ''AVCO source quantity must not exceed original_quantity'')) (\<lambda>_.
     rbind (require (acc_quantity a \<noteq> 0) (ValueError ''active AVCO source quantity must be positive'')) (\<lambda>_.
     rbind (checkpoint_require_decimal (acc_disposal_scale_at_entry a) ''disposal_scale_at_entry'' True) (\<lambda>_.
     rbind (checkpoint_require_decimal (acc_cost_local_scale_at_entry a) ''cost_local_scale_at_entry'' True) (\<lambda>_.
     rbind (checkpoint_require_decimal (acc_cost_base_scale_at_entry a) ''cost_base_scale_at_entry'' True) (\<lambda>_.
     Inr (a\<lparr>acc_source_transaction_id := tid, acc_source_lot_id := lid\<rparr>)))))))))))))))))"

record allocation_checkpoint =
  cp_pool :: pool_checkpoint
  cp_segment_start_quantity :: rat
  cp_segment_start_cost_local :: rat
  cp_segment_start_cost_base :: rat
  source_allocation_segment_start_quantity :: rat
  allocation_generation :: int
  cp_disposal_scale :: rat
  cp_segment_start_scale :: rat
  cp_cost_local_scale :: rat
  cp_cost_base_scale :: rat
  cp_cost_local_generation :: int
  cp_cost_base_generation :: int
  cp_sources :: "source_accumulator list"
  cp_state_version :: string

text \<open>\<open>_normalize_checkpoint_value\<close> quantizes at the storage scale without a magnitude check.\<close>

definition normalize_checkpoint_value :: "rat \<Rightarrow> rat res" where
  "normalize_checkpoint_value value =
     dec_quantize round_half_even (context_precision state_policy) 10 value"

text \<open>One source's materialised value: a cost of another generation is skipped. \<open>scale\<close> and
  \<open>scale_at_entry\<close> are absent for the quantity.\<close>

fun materialized_sum ::
  "rat \<Rightarrow> (source_accumulator \<Rightarrow> rat) \<Rightarrow> (rat \<times> (source_accumulator \<Rightarrow> rat)) option \<Rightarrow>
   ((source_accumulator \<Rightarrow> int) \<times> int) option \<Rightarrow> source_accumulator list \<Rightarrow> rat \<Rightarrow> rat res" where
  "materialized_sum disposal_scale field scaling generation [] running = Inr running"
| "materialized_sum disposal_scale field scaling generation (a # sources) running =
     (if (case generation of None \<Rightarrow> False | Some (generation_of, current) \<Rightarrow> generation_of a \<noteq> current)
      then materialized_sum disposal_scale field scaling generation sources running
      else
        rbind (dec_div (context_precision state_policy)
                 (dec_mul (context_precision state_policy) (field a) disposal_scale)
                 (acc_disposal_scale_at_entry a)) (\<lambda>materialized.
        rbind (case scaling of
                 None \<Rightarrow> Inr materialized
               | Some (scale, at_entry) \<Rightarrow>
                   dec_div (context_precision state_policy)
                     (dec_mul (context_precision state_policy) materialized scale) (at_entry a)) (\<lambda>materialized.
        materialized_sum disposal_scale field scaling generation sources
          (dec_add (context_precision state_policy) running materialized))))"

definition materialized_total ::
  "allocation_checkpoint \<Rightarrow> (source_accumulator \<Rightarrow> rat) \<Rightarrow> (rat \<times> (source_accumulator \<Rightarrow> rat)) option \<Rightarrow>
   ((source_accumulator \<Rightarrow> int) \<times> int) option \<Rightarrow> rat res" where
  "materialized_total cp field scaling generation =
     rbind (materialized_sum (cp_disposal_scale cp) field scaling generation (cp_sources cp) 0)
       normalize_checkpoint_value"

definition validate_materialized_totals :: "allocation_checkpoint \<Rightarrow> unit res" where
  "validate_materialized_totals cp =
     (let p = context_precision state_policy; pool = cp_pool cp in
      rbind (dec_div p (dec_mul p (cp_segment_start_scale cp) (pcp_quantity pool))
               (source_allocation_segment_start_quantity cp)) (\<lambda>expected_scale.
      rbind (normalize_checkpoint_value expected_scale) (\<lambda>expected_scale.
      rbind (normalize_checkpoint_value (cp_disposal_scale cp)) (\<lambda>actual_scale.
      rbind (require (expected_scale = actual_scale)
               (ValueError ''AVCO disposal scale conflicts with source-allocation segment'')) (\<lambda>_.
      rbind (require (pcp_quantity pool \<le> cp_segment_start_quantity cp)
               (ValueError ''AVCO pool quantity exceeds its disposal segment'')) (\<lambda>_.
      rbind (segment_remaining_cost (cp_segment_start_cost_local cp) (pcp_quantity pool)
               (cp_segment_start_quantity cp)) (\<lambda>expected_local.
      rbind (segment_remaining_cost (cp_segment_start_cost_base cp) (pcp_quantity pool)
               (cp_segment_start_quantity cp)) (\<lambda>expected_base.
      rbind (normalize_checkpoint_value expected_local) (\<lambda>expected_local.
      rbind (if expected_local \<noteq> pcp_cost_local pool then Inr True
             else rbind (normalize_checkpoint_value expected_base) (\<lambda>expected_base.
                  Inr (expected_base \<noteq> pcp_cost_base pool))) (\<lambda>conflict.
      rbind (require (\<not> conflict) (ValueError ''AVCO pool costs conflict with disposal segment state'')) (\<lambda>_.
      rbind (materialized_total cp acc_quantity None None) (\<lambda>quantity.
      rbind (materialized_total cp acc_cost_local (Some (cp_cost_local_scale cp, acc_cost_local_scale_at_entry))
               (Some (acc_cost_local_generation, cp_cost_local_generation cp))) (\<lambda>cost_local.
      rbind (materialized_total cp acc_cost_base (Some (cp_cost_base_scale cp, acc_cost_base_scale_at_entry))
               (Some (acc_cost_base_generation, cp_cost_base_generation cp))) (\<lambda>cost_base.
      require (quantity = pcp_quantity pool \<and> cost_local = pcp_cost_local pool \<and> cost_base = pcp_cost_base pool)
        (ValueError ''AVCO source accumulators conflict with aggregate pool state'')))))))))))))))"

definition AverageCostAllocationCheckpoint :: "allocation_checkpoint \<Rightarrow> allocation_checkpoint res" where
  "AverageCostAllocationCheckpoint cp =
     rbind (checkpoint_require_decimal (cp_segment_start_quantity cp) ''segment_start_quantity'' False) (\<lambda>_.
     rbind (checkpoint_require_decimal (cp_segment_start_cost_local cp) ''segment_start_cost_local'' False) (\<lambda>_.
     rbind (checkpoint_require_decimal (cp_segment_start_cost_base cp) ''segment_start_cost_base'' False) (\<lambda>_.
     rbind (checkpoint_require_decimal (source_allocation_segment_start_quantity cp)
              ''source_allocation_segment_start_quantity'' False) (\<lambda>_.
     rbind (require_nonnegative_integer (allocation_generation cp) ''allocation_generation'') (\<lambda>_.
     rbind (require_nonnegative_integer (cp_cost_local_generation cp) ''cost_local_generation'') (\<lambda>_.
     rbind (require_nonnegative_integer (cp_cost_base_generation cp) ''cost_base_generation'') (\<lambda>_.
     rbind (checkpoint_require_decimal (cp_disposal_scale cp) ''disposal_scale'' True) (\<lambda>_.
     rbind (checkpoint_require_decimal (cp_segment_start_scale cp) ''segment_start_scale'' True) (\<lambda>_.
     rbind (checkpoint_require_decimal (cp_cost_local_scale cp) ''cost_local_scale'' True) (\<lambda>_.
     rbind (checkpoint_require_decimal (cp_cost_base_scale cp) ''cost_base_scale'' True) (\<lambda>_.
     rbind (require (cp_state_version cp = AVERAGE_COST_ALLOCATION_STATE_VERSION)
              (ValueError ''unsupported AVCO source-allocation checkpoint version'')) (\<lambda>_.
     let sources = cp_sources cp; ids = map acc_source_transaction_id sources;
         lots = map acc_source_lot_id sources in
     rbind (require (distinct ids \<and> distinct lots)
              (ValueError ''AVCO source-allocation identities must be unique'')) (\<lambda>_.
     rbind (require (map acc_source_sequence sources = map int [1..<length sources + 1])
              (ValueError ''AVCO source sequences must be contiguous from one'')) (\<lambda>_.
     rbind (require (list_all (\<lambda>a. acc_generation a = allocation_generation cp) sources)
              (ValueError ''active AVCO sources must match the allocation generation'')) (\<lambda>_.
     rbind (require (list_all (\<lambda>a. acc_cost_local_generation a \<le> cp_cost_local_generation cp \<and>
                                 acc_cost_base_generation a \<le> cp_cost_base_generation cp) sources)
              (ValueError ''active AVCO source cost generation cannot be in the future'')) (\<lambda>_.
     if pcp_quantity (cp_pool cp) = 0 then
       rbind (require (sources = []) (ValueError ''closed AVCO checkpoint cannot retain active sources'')) (\<lambda>_.
       rbind (require (cp_segment_start_quantity cp = 0 \<and> cp_segment_start_cost_local cp = 0 \<and>
                       cp_segment_start_cost_base cp = 0 \<and> source_allocation_segment_start_quantity cp = 0)
                (ValueError ''closed AVCO checkpoint must have zero segment state'')) (\<lambda>_.
       Inr cp))
     else
       rbind (require (sources \<noteq> []) (ValueError ''open AVCO checkpoint requires active source accumulators'')) (\<lambda>_.
       rbind (require (representative_source_transaction_id (cp_pool cp) \<in> Some ` set ids)
                (ValueError ''AVCO representative source is absent from the accumulator'')) (\<lambda>_.
       rbind (require (0 < cp_segment_start_quantity cp)
                (ValueError ''open AVCO checkpoint requires positive segment quantity'')) (\<lambda>_.
       rbind (require (0 < source_allocation_segment_start_quantity cp)
                (ValueError ''open AVCO checkpoint requires positive source-allocation segment'')) (\<lambda>_.
       rbind (validate_materialized_totals cp) (\<lambda>_.
       Inr cp)))))))))))))))))))))"

section \<open>Export and restore\<close>

definition accumulator_of :: "nat \<times> string \<times> source_contribution \<Rightarrow> source_accumulator res" where
  "accumulator_of row =
     (case row of (sequence, tid, c) \<Rightarrow>
      AverageCostSourceAccumulator
       \<lparr>acc_source_transaction_id = tid, acc_source_lot_id = ctb_source_lot_id c,
        acc_source_acquisition_date = ctb_source_acquisition_date c, acc_source_sequence = int sequence,
        acc_generation = ctb_generation c, acc_original_quantity = ctb_original_quantity c,
        acc_quantity = ctb_quantity c, acc_cost_local = ctb_cost_local c, acc_cost_base = ctb_cost_base c,
        acc_disposal_scale_at_entry = disposal_scale_at_entry c,
        acc_cost_local_scale_at_entry = cost_local_scale_at_entry c,
        acc_cost_base_scale_at_entry = cost_base_scale_at_entry c,
        acc_cost_local_generation = ctb_cost_local_generation c,
        acc_cost_base_generation = ctb_cost_base_generation c\<rparr>)"

definition export_checkpoint ::
  "lot_key \<Rightarrow> string \<Rightarrow> average_cost_pool \<Rightarrow> source_allocation \<Rightarrow> allocation_checkpoint res" where
  "export_checkpoint key security pool A =
     rbind (active_source_contributions A key) (\<lambda>sources.
     let representative =
           (if 0 < pool_quantity pool \<and> sources \<noteq> [] then Some (fst (last sources)) else None) in
     rbind (AverageCostPoolCheckpoint (fst key) (snd key) security representative
              (pool_quantity pool) (pool_cost_local pool) (pool_cost_base pool)) (\<lambda>pool_cp.
     let closed = (pool_quantity pool = 0) in
     rbind (rmap accumulator_of (enumerate 1 sources)) (\<lambda>accumulators.
     AverageCostAllocationCheckpoint
       \<lparr>cp_pool = pool_cp,
        cp_segment_start_quantity = (if closed then 0 else segment_start_quantity pool),
        cp_segment_start_cost_local = (if closed then 0 else segment_start_cost_local pool),
        cp_segment_start_cost_base = (if closed then 0 else segment_start_cost_base pool),
        source_allocation_segment_start_quantity =
          (if closed then 0 else segment_start_quantity_by_key A key),
        allocation_generation = generation_by_key A key, cp_disposal_scale = disposal_scale_by_key A key,
        cp_segment_start_scale = segment_start_scale_by_key A key,
        cp_cost_local_scale = cost_local_scale_by_key A key, cp_cost_base_scale = cost_base_scale_by_key A key,
        cp_cost_local_generation = cost_local_generation_by_key A key,
        cp_cost_base_generation = cost_base_generation_by_key A key, cp_sources = accumulators,
        cp_state_version = AVERAGE_COST_ALLOCATION_STATE_VERSION\<rparr>)))"

definition contribution_from :: "lot_key \<Rightarrow> source_accumulator \<Rightarrow> source_contribution" where
  "contribution_from key a =
     \<lparr>ctb_book_key = key, ctb_source_lot_id = acc_source_lot_id a,
      ctb_source_acquisition_date = acc_source_acquisition_date a, ctb_generation = acc_generation a,
      ctb_original_quantity = acc_original_quantity a, ctb_quantity = acc_quantity a,
      ctb_cost_local = acc_cost_local a, ctb_cost_base = acc_cost_base a,
      disposal_scale_at_entry = acc_disposal_scale_at_entry a,
      cost_local_scale_at_entry = acc_cost_local_scale_at_entry a,
      cost_base_scale_at_entry = acc_cost_base_scale_at_entry a,
      ctb_cost_local_generation = acc_cost_local_generation a,
      ctb_cost_base_generation = acc_cost_base_generation a\<rparr>"

definition checkpoint_key :: "allocation_checkpoint \<Rightarrow> lot_key" where
  "checkpoint_key cp = (pcp_portfolio_id (cp_pool cp), pcp_instrument_id (cp_pool cp))"

definition restore_checkpoint ::
  "allocation_checkpoint \<Rightarrow> source_allocation \<Rightarrow> (average_cost_pool, source_allocation) outcome" where
  "restore_checkpoint cp A =
     (let key = checkpoint_key cp; ids = map acc_source_transaction_id (cp_sources cp) in
      if contributions A \<noteq> []
      then (Inl (ValueError ''AVCO source-allocation restore requires an empty engine''), A)
      else if map_of (source_ids_by_key A) key \<noteq> None \<or> map_of (active_source_ids_by_key A) key \<noteq> None
      then (Inl (ValueError ''AVCO source-allocation checkpoint book already exists''), A)
      else
        (Inr \<lparr>pool_quantity = pcp_quantity (cp_pool cp), pool_cost_local = pcp_cost_local (cp_pool cp),
             pool_cost_base = pcp_cost_base (cp_pool cp),
             segment_start_quantity = cp_segment_start_quantity cp,
             segment_start_cost_local = cp_segment_start_cost_local cp,
             segment_start_cost_base = cp_segment_start_cost_base cp\<rparr>,
         A\<lparr>contributions :=
             fold (\<lambda>a. dict_set (acc_source_transaction_id a) (contribution_from key a)) (cp_sources cp) (contributions A),
           source_ids_by_key := dict_set key ids (source_ids_by_key A),
           active_source_ids_by_key := dict_set key ids (active_source_ids_by_key A),
           generation_by_key := (generation_by_key A)(key := allocation_generation cp),
           disposal_scale_by_key := (disposal_scale_by_key A)(key := cp_disposal_scale cp),
           segment_start_scale_by_key := (segment_start_scale_by_key A)(key := cp_segment_start_scale cp),
           segment_start_quantity_by_key :=
             (segment_start_quantity_by_key A)(key := source_allocation_segment_start_quantity cp),
           cost_local_scale_by_key := (cost_local_scale_by_key A)(key := cp_cost_local_scale cp),
           cost_base_scale_by_key := (cost_base_scale_by_key A)(key := cp_cost_base_scale cp),
           cost_local_generation_by_key := (cost_local_generation_by_key A)(key := cp_cost_local_generation cp),
           cost_base_generation_by_key := (cost_base_generation_by_key A)(key := cp_cost_base_generation cp)\<rparr>))"

definition export_allocation_checkpoint ::
  "string \<Rightarrow> string \<Rightarrow> string \<Rightarrow> avco_state \<Rightarrow> allocation_checkpoint res" where
  "export_allocation_checkpoint portfolio instrument security s =
     (let key = (portfolio, instrument) in
      case map_of (avco_pools s) key of
        None \<Rightarrow> Inl (ValueError ''Average cost allocation checkpoint book was not found'')
      | Some pool \<Rightarrow> export_checkpoint key security pool (avco_allocation s))"

definition from_allocation_checkpoint :: "allocation_checkpoint \<Rightarrow> avco_state res" where
  "from_allocation_checkpoint cp =
     (case restore_checkpoint cp (avco_allocation AverageCostBasisStrategy) of
        (Inl e, _) \<Rightarrow> Inl e
      | (Inr pool, A) \<Rightarrow>
          Inr \<lparr>avco_pools = dict_set (checkpoint_key cp) pool (avco_pools AverageCostBasisStrategy),
               avco_allocation = A\<rparr>)"

section \<open>Reconciliation assessments\<close>

datatype reconciliation_status = RS_CURRENT | RS_DRIFTED | RS_RECONCILED | RS_FAILED

record pool_key =
  pk_portfolio_id :: string
  pk_security_id :: string

definition AverageCostPoolKey :: "string \<Rightarrow> string \<Rightarrow> pool_key res" where
  "AverageCostPoolKey portfolio security =
     rbind (require (py_strip portfolio \<noteq> [] \<and> py_strip security \<noteq> [])
              (ValueError ''Average cost pool key identifiers must not be blank'')) (\<lambda>_.
     Inr \<lparr>pk_portfolio_id = portfolio, pk_security_id = security\<rparr>)"

record pool_assessment =
  as_key :: pool_key
  as_status :: reconciliation_status
  expected_source_count :: int
  expected_quantity :: rat
  expected_cost_local :: rat
  expected_cost_base :: rat
  as_source_count :: int
  as_pool_quantity :: "rat option"
  as_pool_cost_local :: "rat option"
  as_pool_cost_base :: "rat option"
  as_source_quantity :: rat
  as_source_cost_local :: rat
  as_source_cost_base :: rat
  reason_code :: "string option"

definition pool_matches_sources :: "pool_assessment \<Rightarrow> bool" where
  "pool_matches_sources a \<longleftrightarrow>
     as_source_count a = expected_source_count a \<and>
     as_pool_quantity a = Some (expected_quantity a) \<and> expected_quantity a = as_source_quantity a \<and>
     as_pool_cost_local a = Some (expected_cost_local a) \<and> expected_cost_local a = as_source_cost_local a \<and>
     as_pool_cost_base a = Some (expected_cost_base a) \<and> expected_cost_base a = as_source_cost_base a"

definition AverageCostPoolReconciliationAssessment :: "pool_assessment \<Rightarrow> pool_assessment res" where
  "AverageCostPoolReconciliationAssessment a =
     rbind (require (0 \<le> expected_source_count a \<and> 0 \<le> as_source_count a)
              (ValueError ''Average cost source count must be nonnegative'')) (\<lambda>_.
     rbind (require (list_all (\<lambda>x. 0 \<le> x)
                [expected_quantity a, expected_cost_local a, expected_cost_base a,
                 as_source_quantity a, as_source_cost_local a, as_source_cost_base a] \<and>
              list_all (pred_option (\<lambda>x. 0 \<le> x))
                [as_pool_quantity a, as_pool_cost_local a, as_pool_cost_base a])
              (ValueError ''Average cost reconciliation amounts must be nonnegative'')) (\<lambda>_.
     let reason = (case reason_code a of None \<Rightarrow> None | Some [] \<Rightarrow> None | Some r \<Rightarrow> Some (py_strip r));
         a = a\<lparr>reason_code := reason\<rparr> in
     if as_status a \<in> {RS_CURRENT, RS_RECONCILED} then
       rbind (require (pool_matches_sources a)
                (ValueError ''Current average cost state must reconcile exactly'')) (\<lambda>_.
       rbind (require (reason = None)
                (ValueError ''Current average cost state must not carry a failure reason'')) (\<lambda>_.
       Inr a))
     else
       rbind (require (reason \<noteq> None)
                (ValueError ''Drifted or failed average cost state requires a reason code'')) (\<lambda>_.
       Inr a)))"

end
