(* ===== verification/Average_Cost_Correctness.thy ===== *)
theory Average_Cost_Correctness
  imports Average_Cost_Strategy
begin

text \<open>
  Correctness of the average-cost allocation: the invariant that ties the source contributions of a
  book to its pool, and that materialising a book always succeeds and adds up to the pool.
\<close>

section \<open>The allocation invariant\<close>

definition source_wf :: "source_allocation \<Rightarrow> lot_key \<Rightarrow> source_contribution \<Rightarrow> bool" where
  "source_wf A key c \<longleftrightarrow>
     ctb_book_key c = key \<and> ctb_generation c = generation_by_key A key \<and>
     ledger_amount (ctb_quantity c) \<and> 0 < ctb_quantity c \<and>
     ledger_amount (ctb_original_quantity c) \<and> ctb_quantity c \<le> ctb_original_quantity c \<and>
     ledger_amount (ctb_cost_local c) \<and> 0 \<le> ctb_cost_local c \<and>
     ledger_amount (ctb_cost_base c) \<and> 0 \<le> ctb_cost_base c \<and>
     segment_start_scale_by_key A key \<le> disposal_scale_at_entry c \<and>
     0 < cost_local_scale_at_entry c \<and> 0 < cost_base_scale_at_entry c \<and>
     (ctb_cost_local_generation c = cost_local_generation_by_key A key \<longrightarrow>
        cost_local_scale_by_key A key \<le> cost_local_scale_at_entry c) \<and>
     (ctb_cost_base_generation c = cost_base_generation_by_key A key \<longrightarrow>
        cost_base_scale_by_key A key \<le> cost_base_scale_at_entry c)"

definition scales_wf :: "source_allocation \<Rightarrow> lot_key \<Rightarrow> bool" where
  "scales_wf A key \<longleftrightarrow> 0 < disposal_scale_by_key A key \<and>
     disposal_scale_by_key A key \<le> segment_start_scale_by_key A key \<and>
     0 < cost_local_scale_by_key A key \<and> 0 < cost_base_scale_by_key A key"

lemma disposal_factor_wf:
  assumes "source_wf A key c" "scales_wf A key"
  shows "\<exists>f. disposal_factor A c = Inr f \<and> 0 < f \<and> f \<le> 1"
proof -
  have s: "0 < disposal_scale_by_key A key" "disposal_scale_by_key A key \<le> disposal_scale_at_entry c"
    using assms by (auto simp: source_wf_def scales_wf_def)
  then have "0 < disposal_scale_by_key A key / disposal_scale_at_entry c"
    "disposal_scale_by_key A key / disposal_scale_at_entry c \<le> 1" by simp_all
  then show ?thesis
    using s assms cost_state.context_pos sig_round_pos sig_round_le_one
    by (auto simp: disposal_factor_def dec_div_def source_wf_def)
qed

section \<open>Quantities\<close>

lemma materialized_quantity_wf:
  assumes c: "source_wf A key c" and f: "0 < f" "f \<le> 1"
    and a: "ledger_amount agg" "ledger_amount alloc" "0 \<le> alloc" "alloc \<le> agg"
  shows "\<exists>q. materialized_quantity c (generation_by_key A key) f agg alloc = Inr q \<and>
    0 \<le> q \<and> q \<le> ctb_original_quantity c \<and> q \<le> agg - alloc \<and> ledger_amount q"
proof -
  let ?Q = "ctb_quantity c" and ?m = "round_down (sig_round (context_precision state_policy) (ctb_quantity c * f) * 10 ^ 10)"
  have Q: "ledger_amount ?Q" "0 < ?Q" "?Q \<le> ctb_original_quantity c" "ledger_amount (ctb_original_quantity c)"
    using c by (auto simp: source_wf_def)
  have "sig_round (context_precision state_policy) (?Q * f) \<le> sig_round (context_precision state_policy) ?Q"
    using Q f by (intro sig_round_mono cost_state.context_pos) (auto simp: mult_left_le)
  then have x: "sig_round (context_precision state_policy) (?Q * f) \<le> ?Q"
    using Q by (simp add: cost_state.sig_round_storable)
  have x0: "0 \<le> sig_round (context_precision state_policy) (?Q * f)"
    using Q f by (intro sig_round_nonneg) auto
  have m: "0 \<le> ?m" "of_int ?m \<le> sig_round (context_precision state_policy) (?Q * f) * 10 ^ 10"
    using round_down_bounds [of "sig_round (context_precision state_policy) (?Q * f) * 10 ^ 10"] x0 by auto
  define q where "q = (of_int ?m / 10 ^ 10 :: rat)"
  have q: "0 \<le> q" "q \<le> ?Q" using m x by (auto simp: q_def pos_divide_le_eq)
  have lq: "ledger_amount q"
    using q Q(1) on_scale_of_int_div [of 10 ?m] by (auto simp: ledger_amount_iff q_def)
  have "?Q < ledger_limit" using Q(1) unfolding ledger_amount_iff by linarith
  then have "sig_round (context_precision state_policy) (?Q * f) * 10 ^ 10 < ledger_limit * 10 ^ 10"
    using x by (intro mult_strict_right_mono) auto
  then have "of_int ?m < (of_int (10 ^ 18) :: rat)"
    using m(2) by simp
  then have "?m < 10 ^ 18" by (simp only: of_int_less_iff)
  also have "\<dots> \<le> 10 ^ context_precision state_policy"
    by (rule power_increasing) (simp_all add: context_precision_def policy_instances)
  finally have "\<bar>?m\<bar> < 10 ^ context_precision state_policy" using m(1) by simp
  then have "dec_quantize round_down (context_precision state_policy) 10
      (dec_mul (context_precision state_policy) ?Q f) = Inr q"
    by (simp add: dec_quantize_def dec_mul_def q_def Let_def)
  moreover have "allocate_nonnegative_storage_share q agg alloc ''open_quantity'' = Inr (min q (agg - alloc))"
    using lq q a by (intro storage_share) auto
  moreover have "ledger_amount (agg - alloc)" using a by (intro cost_state.policy_subtract_le)
  ultimately show ?thesis
    using lq q Q a c by (auto simp: materialized_quantity_def source_wf_def intro!: storable_min)
qed

lemma materialize_quantities_wf:
  assumes "\<And>c. c \<in> set cs \<Longrightarrow> source_wf A key c" "scales_wf A key"
    and "ledger_amount agg" "ledger_amount alloc" "0 \<le> alloc" "alloc \<le> agg"
  shows "\<exists>qs. materialize_quantities A (generation_by_key A key) agg cs alloc = Inr (qs, alloc + sum_list qs) \<and>
    list_all2 (\<lambda>c q. 0 \<le> q \<and> q \<le> ctb_original_quantity c \<and> ledger_amount q) cs qs \<and>
    alloc + sum_list qs \<le> agg"
  using assms
proof (induction cs arbitrary: alloc)
  case (Cons c cs)
  obtain f where f: "disposal_factor A c = Inr f" "0 < f" "f \<le> 1"
    using disposal_factor_wf Cons.prems by fastforce
  obtain q where q: "materialized_quantity c (generation_by_key A key) f agg alloc = Inr q"
    "0 \<le> q" "q \<le> ctb_original_quantity c" "q \<le> agg - alloc" "ledger_amount q"
    using materialized_quantity_wf [of A key c f agg alloc] f Cons.prems by auto
  have lim: "alloc + q < ledger_limit" using q Cons.prems(3) by (auto simp: ledger_amount_iff)
  note add = nonneg_adds [OF Cons.prems(4,5) q(5,2) lim]
  have "\<exists>qs. materialize_quantities A (generation_by_key A key) agg cs (alloc + q) = Inr (qs, alloc + q + sum_list qs) \<and>
    list_all2 (\<lambda>c q. 0 \<le> q \<and> q \<le> ctb_original_quantity c \<and> ledger_amount q) cs qs \<and>
    alloc + q + sum_list qs \<le> agg"
    by (rule Cons.IH) (use Cons.prems q add in auto)
  then show ?case using f(1) q(1-3,5) add(1) by (auto simp: add.assoc)
qed simp

lemma assign_residual_wf:
  assumes "\<And>c q. (c, q) \<in> set rows \<Longrightarrow> ctb_generation c = gen \<and> 0 \<le> q \<and> q \<le> ctb_original_quantity c \<and>
      ledger_amount q \<and> ledger_amount (ctb_original_quantity c)"
    and "ledger_amount remaining" "0 \<le> remaining"
    and "remaining \<le> (\<Sum>(c, q)\<leftarrow>rows. ctb_original_quantity c - q)"
  shows "\<exists>qs. assign_residual_loop gen rows remaining = Inr qs \<and>
    list_all2 (\<lambda>(c, q) q'. q \<le> q' \<and> q' \<le> ctb_original_quantity c \<and> ledger_amount q') rows qs \<and>
    sum_list qs = (\<Sum>(c, q)\<leftarrow>rows. q) + remaining"
  using assms
proof (induction rows arbitrary: remaining)
  case (Cons row rows)
  obtain c q where row: "row = (c, q)" by (cases row)
  have c: "ctb_generation c = gen" "0 \<le> q" "q \<le> ctb_original_quantity c" "ledger_amount q"
    "ledger_amount (ctb_original_quantity c)" using Cons.prems(1) [of c q] row by auto
  have all: "list_all2 (\<lambda>(c, q) q'. q \<le> q' \<and> q' \<le> ctb_original_quantity c \<and> ledger_amount q') rows (map snd rows)"
    if "\<And>c q. (c, q) \<in> set rows \<Longrightarrow> q \<le> ctb_original_quantity c \<and> ledger_amount q" for rows
    using that by (induction rows) (force simp del: One_nat_def)+
  show ?case
  proof (cases "remaining = 0")
    case True
    then show ?thesis
      using c all [of rows] Cons.prems(1) by (auto simp: row case_prod_unfold)
  next
    case False
    define x where "x = min remaining (ctb_original_quantity c - q)"
    have head: "policy_subtract state_policy f (ctb_original_quantity c) q = Inr (ctb_original_quantity c - q)"
      "ledger_amount (ctb_original_quantity c - q)" for f
      using c by (auto intro!: cost_state.policy_subtract_le)
    have x: "0 \<le> x" "x \<le> remaining" "q + x \<le> ctb_original_quantity c" "ledger_amount x"
      using head(2) c Cons.prems(2,3) by (auto simp: x_def intro: storable_min)
    have lim: "q + x < ledger_limit" using x c(5) by (auto simp: ledger_amount_iff)
    note add = nonneg_adds [OF c(4,2) x(4,1) lim]
    have rest: "policy_subtract state_policy f remaining x = Inr (remaining - x)" "ledger_amount (remaining - x)" for f
      using x Cons.prems(2) by (auto intro!: cost_state.policy_subtract_le)
    have sum0: "0 \<le> (\<Sum>(c, q)\<leftarrow>rows. ctb_original_quantity c - q)"
      using Cons.prems(1) by (intro sum_list_nonneg') force
    then have le: "remaining - x \<le> (\<Sum>(c, q)\<leftarrow>rows. ctb_original_quantity c - q)"
      using Cons.prems(4) by (auto simp: row x_def min_def)
    obtain qs where "assign_residual_loop gen rows (remaining - x) = Inr qs"
      "list_all2 (\<lambda>(c, q) q'. q \<le> q' \<and> q' \<le> ctb_original_quantity c \<and> ledger_amount q') rows qs"
      "sum_list qs = (\<Sum>(c, q)\<leftarrow>rows. q) + (remaining - x)"
      using Cons.IH [of "remaining - x"] Cons.prems(1) rest(2) x le by force
    then show ?thesis
      using False c(1) head(1) add x rest(1) by (auto simp: row x_def [symmetric])
  qed
qed simp

section \<open>Costs\<close>

text \<open>The cost a source would show before it is bounded by what is left of the pool.\<close>

lemma materialized_cost_share:
  assumes c: "ledger_amount c" "0 \<le> c" and f: "0 < f" "f \<le> 1" and s: "0 < s" "s \<le> e"
  shows "\<exists>y. normalize state_policy g
      (sig_round (context_precision state_policy)
         (sig_round (context_precision state_policy)
            (sig_round (context_precision state_policy) (c * f) * s) / e)) = Inr y \<and> 0 \<le> y \<and> y \<le> c"
proof -
  let ?r = "sig_round (context_precision state_policy)"
  have cf: "0 \<le> ?r (c * f)" "?r (c * f) \<le> c"
  proof -
    show "0 \<le> ?r (c * f)" using c f by (intro sig_round_nonneg) auto
    have "?r (c * f) \<le> ?r c"
      using c f by (intro sig_round_mono cost_state.context_pos) (auto simp: mult_left_le)
    then show "?r (c * f) \<le> c" using c by (simp add: cost_state.sig_round_storable)
  qed
  have "?r (c * f) * s \<le> c * e" using cf s c by (intro mult_mono) auto
  then have le: "?r (?r (?r (c * f) * s) / e) \<le> ?r (?r (c * e) / e)"
    using s by (intro sig_round_mono cost_state.context_pos divide_right_mono) auto
  have ge: "0 \<le> ?r (?r (?r (c * f) * s) / e)"
    using cf(1) s by (intro sig_round_nonneg [of "_ / e"] divide_nonneg_pos sig_round_nonneg [of "_ * s"] mult_nonneg_nonneg) auto
  have "0 < e" using s by simp
  from cost_state.normalize_between [OF ge le cost_state.normalize_scaled_back [OF c this]] show ?thesis
    by metis
qed

definition row_eligible :: "(source_contribution \<Rightarrow> int) \<Rightarrow> int \<Rightarrow> string \<times> source_contribution \<times> rat \<Rightarrow> bool" where
  "row_eligible generation_of gen row \<longleftrightarrow>
     (case row of (tid, c, q) \<Rightarrow> 0 < q \<and> generation_of c = gen)"

lemma last_cost_source_Cons:
  "last_cost_source g gen (row # rows) =
     (if \<exists>r \<in> set rows. row_eligible g gen r then last_cost_source g gen rows
      else if row_eligible g gen row then Some (fst row) else None)"
proof -
  let ?step = "\<lambda>found (tid, c, q). if 0 < q \<and> g c = gen then Some tid else found"
  have "foldl ?step x rows = (if \<exists>r \<in> set rows. row_eligible g gen r then foldl ?step None rows else x)" for x rows
  proof (induction rows arbitrary: x)
    case (Cons r rows)
    obtain tid c q where r: "r = (tid, c, q)" by (cases r)
    show ?case
      unfolding foldl_Cons r by (subst (1 2) Cons.IH) (auto simp: row_eligible_def)
  qed simp
  from this [of "?step None row" rows] show ?thesis
    by (auto simp: last_cost_source_def row_eligible_def split: prod.splits)
qed

lemma last_cost_source_in:
  "\<exists>r \<in> set rows. row_eligible g gen r \<Longrightarrow> \<exists>tid \<in> fst ` set rows. last_cost_source g gen rows = Some tid"
  by (induction rows) (auto simp: last_cost_source_Cons)

text \<open>What the remaining rows will be given of the aggregate.\<close>

definition rows_share :: "(source_contribution \<Rightarrow> int) \<Rightarrow> int \<Rightarrow> (string \<times> source_contribution \<times> rat) list \<Rightarrow> rat \<Rightarrow> rat" where
  "rows_share g gen rows rest = (if \<exists>r \<in> set rows. row_eligible g gen r then rest else 0)"

lemma materialized_cost_step:
  assumes c: "ledger_amount cost" "0 \<le> cost" and f: "0 < f" "f \<le> 1"
    and s: "g c = gen \<Longrightarrow> 0 < s \<and> s \<le> e"
    and a: "ledger_amount agg" "ledger_amount alloc" "0 \<le> alloc" "alloc \<le> agg"
    and last: "(\<exists>r \<in> set ((tid, c, q) # rows). row_eligible g gen r) \<Longrightarrow>
        lst = last_cost_source g gen ((tid, c, q) # rows)"
    and new: "tid \<notin> fst ` set rows"
  shows "\<exists>y. materialized_cost (0 < q) cost (g c) gen tid lst s e f agg alloc fld = Inr y \<and>
    0 \<le> y \<and> ledger_amount y \<and> alloc + y \<le> agg \<and> (q \<le> 0 \<longrightarrow> y = 0) \<and>
    y + rows_share g gen rows (agg - (alloc + y)) = rows_share g gen ((tid, c, q) # rows) (agg - alloc)"
proof (cases "row_eligible g gen (tid, c, q)")
  case False
  then show ?thesis using a by (auto simp: materialized_cost_def row_eligible_def rows_share_def)
next
  case el: True
  have sub: "policy_subtract state_policy h agg alloc = Inr (agg - alloc)" "ledger_amount (agg - alloc)" for h
    using a by (auto intro!: cost_state.policy_subtract_le)
  show ?thesis
  proof (cases "\<exists>r \<in> set rows. row_eligible g gen r")
    case False
    then have "lst = Some tid" using last el by (auto simp: last_cost_source_Cons)
    then show ?thesis
      using el False sub a by (auto simp: materialized_cost_def row_eligible_def rows_share_def)
  next
    case True
    then have "lst = last_cost_source g gen rows" using last by (simp add: last_cost_source_Cons)
    then have ne: "lst \<noteq> Some tid" using last_cost_source_in [OF True] new by (metis option.inject)
    have s': "0 < s" "s \<le> e" using s el by (auto simp: row_eligible_def)
    obtain y where y: "normalize state_policy fld
        (sig_round (context_precision state_policy) (sig_round (context_precision state_policy)
           (sig_round (context_precision state_policy) (cost * f) * s) / e)) = Inr y" "0 \<le> y"
      using materialized_cost_share [OF c f s'] by blast
    have "ledger_amount y" using y(1) by (rule cost_state.normalize_Inr_storable)
    then show ?thesis
      using el True ne s' y sub a
      by (auto simp: materialized_cost_def row_eligible_def rows_share_def dec_div_def dec_mul_def
          allocate_nonnegative_storage_share_def intro!: storable_min)
  qed
qed

lemma pool_add_exact:
  assumes "ledger_amount (pool_quantity p)" "0 \<le> pool_quantity p" "ledger_amount (pool_cost_local p)"
    "0 \<le> pool_cost_local p" "ledger_amount (pool_cost_base p)" "0 \<le> pool_cost_base p"
    and "ledger_amount q" "0 \<le> q" "ledger_amount l" "0 \<le> l" "ledger_amount b" "0 \<le> b"
    and "pool_quantity p + q < ledger_limit" "pool_cost_local p + l < ledger_limit" "pool_cost_base p + b < ledger_limit"
  shows "pool_add q l b p = (Inr (), start_segment (p\<lparr>pool_quantity := pool_quantity p + q,
    pool_cost_local := pool_cost_local p + l, pool_cost_base := pool_cost_base p + b\<rparr>))"
  using nonneg_adds [OF assms(1,2,7,8,13)] nonneg_adds [OF assms(3,4,9,10,14)] nonneg_adds [OF assms(5,6,11,12,15)]
  by (simp add: pool_add_def Let_def)

text \<open>The rows still to be materialised, beside what is already allocated.\<close>

definition rows_wf :: "source_allocation \<Rightarrow> lot_key \<Rightarrow> (string \<times> source_contribution \<times> rat) list \<Rightarrow> bool" where
  "rows_wf A key rows \<longleftrightarrow> distinct (map fst rows) \<and>
     (\<forall>(tid, c, q) \<in> set rows. source_wf A key c \<and> 0 \<le> q \<and> q \<le> ctb_original_quantity c \<and> ledger_amount q)"

definition row_state :: "string \<times> source_contribution \<times> rat \<Rightarrow> string \<times> open_lot_state \<Rightarrow> bool" where
  "row_state row st \<longleftrightarrow> (case (row, st) of ((tid, c, q), (tid', s)) \<Rightarrow>
     tid' = tid \<and> ols_original_quantity s = ctb_original_quantity c \<and> ols_quantity s = q \<and>
     0 \<le> ols_cost_local s \<and> ledger_amount (ols_cost_local s) \<and>
     0 \<le> ols_cost_base s \<and> ledger_amount (ols_cost_base s) \<and>
     ols_amortized_cost s = None \<and> (q = 0 \<longrightarrow> ols_cost_local s = 0 \<and> ols_cost_base s = 0))"

abbreviation states_quantity :: "(string \<times> open_lot_state) list \<Rightarrow> rat" where
  "states_quantity states \<equiv> (\<Sum>(tid, s)\<leftarrow>states. ols_quantity s)"

abbreviation states_cost_local :: "(string \<times> open_lot_state) list \<Rightarrow> rat" where
  "states_cost_local states \<equiv> (\<Sum>(tid, s)\<leftarrow>states. ols_cost_local s)"

abbreviation states_cost_base :: "(string \<times> open_lot_state) list \<Rightarrow> rat" where
  "states_cost_base states \<equiv> (\<Sum>(tid, s)\<leftarrow>states. ols_cost_base s)"

lemma materialize_states_wf:
  assumes "rows_wf A key rows" "scales_wf A key"
    and "ledger_amount (pool_quantity pool)" "ledger_amount (pool_cost_local pool)" "ledger_amount (pool_cost_base pool)"
    and "ledger_amount (pool_quantity al)" "0 \<le> pool_quantity al" "pool_quantity al + (\<Sum>(tid, c, q)\<leftarrow>rows. q) \<le> pool_quantity pool"
    and "ledger_amount (pool_cost_local al)" "0 \<le> pool_cost_local al" "pool_cost_local al \<le> pool_cost_local pool"
    and "ledger_amount (pool_cost_base al)" "0 \<le> pool_cost_base al" "pool_cost_base al \<le> pool_cost_base pool"
    and "(\<exists>r \<in> set rows. row_eligible ctb_cost_local_generation (cost_local_generation_by_key A key) r) \<Longrightarrow>
       ll = last_cost_source ctb_cost_local_generation (cost_local_generation_by_key A key) rows"
    and "(\<exists>r \<in> set rows. row_eligible ctb_cost_base_generation (cost_base_generation_by_key A key) r) \<Longrightarrow>
       lb = last_cost_source ctb_cost_base_generation (cost_base_generation_by_key A key) rows"
  shows "\<exists>states. materialize_states A key pool ll lb rows al = Inr states \<and>
    list_all2 row_state rows states \<and>
    states_cost_local states = rows_share ctb_cost_local_generation (cost_local_generation_by_key A key) rows
      (pool_cost_local pool - pool_cost_local al) \<and>
    states_cost_base states = rows_share ctb_cost_base_generation (cost_base_generation_by_key A key) rows
      (pool_cost_base pool - pool_cost_base al)"
  using assms
proof (induction rows arbitrary: al)
  case Nil
  then show ?case by (simp add: rows_share_def)
next
  case (Cons row rows)
  obtain tid c q where row: "row = (tid, c, q)" by (cases row)
  have c: "source_wf A key c" "0 \<le> q" "q \<le> ctb_original_quantity c" "ledger_amount q"
    and tid: "tid \<notin> fst ` set rows" and rows: "rows_wf A key rows"
    using Cons.prems(1) by (auto simp: rows_wf_def row)
  obtain f where f: "disposal_factor A c = Inr f" "0 < f" "f \<le> 1"
    using disposal_factor_wf [OF c(1) Cons.prems(2)] by blast
  let ?gl = "cost_local_generation_by_key A key" and ?gb = "cost_base_generation_by_key A key"
  have cc: "ledger_amount (ctb_cost_local c)" "0 \<le> ctb_cost_local c" "ledger_amount (ctb_cost_base c)" "0 \<le> ctb_cost_base c"
    using c(1) by (auto simp: source_wf_def)
  have sl: "ctb_cost_local_generation c = ?gl \<Longrightarrow>
      0 < cost_local_scale_by_key A key \<and> cost_local_scale_by_key A key \<le> cost_local_scale_at_entry c"
    and sb: "ctb_cost_base_generation c = ?gb \<Longrightarrow>
      0 < cost_base_scale_by_key A key \<and> cost_base_scale_by_key A key \<le> cost_base_scale_at_entry c"
    using c(1) Cons.prems(2) by (auto simp: source_wf_def scales_wf_def)
  obtain l where l: "materialized_cost (0 < q) (ctb_cost_local c) (ctb_cost_local_generation c) ?gl tid ll
      (cost_local_scale_by_key A key) (cost_local_scale_at_entry c) f (pool_cost_local pool)
      (pool_cost_local al) ''lot_cost_local'' = Inr l" "0 \<le> l" "ledger_amount l"
      "pool_cost_local al + l \<le> pool_cost_local pool" "q \<le> 0 \<longrightarrow> l = 0"
      "l + rows_share ctb_cost_local_generation ?gl rows (pool_cost_local pool - (pool_cost_local al + l)) =
       rows_share ctb_cost_local_generation ?gl (row # rows) (pool_cost_local pool - pool_cost_local al)"
    using materialized_cost_step [OF cc(1,2) f(2,3) sl Cons.prems(4,9,10,11) Cons.prems(15) [unfolded row] tid]
    unfolding row by blast
  obtain b where b: "materialized_cost (0 < q) (ctb_cost_base c) (ctb_cost_base_generation c) ?gb tid lb
      (cost_base_scale_by_key A key) (cost_base_scale_at_entry c) f (pool_cost_base pool)
      (pool_cost_base al) ''lot_cost_base'' = Inr b" "0 \<le> b" "ledger_amount b"
      "pool_cost_base al + b \<le> pool_cost_base pool" "q \<le> 0 \<longrightarrow> b = 0"
      "b + rows_share ctb_cost_base_generation ?gb rows (pool_cost_base pool - (pool_cost_base al + b)) =
       rows_share ctb_cost_base_generation ?gb (row # rows) (pool_cost_base pool - pool_cost_base al)"
    using materialized_cost_step [OF cc(3,4) f(2,3) sb Cons.prems(5,12,13,14) Cons.prems(16) [unfolded row] tid]
    unfolding row by blast
  define st where "st = \<lparr>ols_original_quantity = ctb_original_quantity c, ols_quantity = q,
    ols_cost_local = l, ols_cost_base = b, ols_amortized_cost = None\<rparr>"
  have st: "OpenLotState (ctb_original_quantity c) q l b None = Inr st"
    using c l b by (simp add: OpenLotState_Inr st_def)
  define al' where "al' = start_segment (al\<lparr>pool_quantity := pool_quantity al + q,
    pool_cost_local := pool_cost_local al + l, pool_cost_base := pool_cost_base al + b\<rparr>)"
  have al'_sel: "pool_quantity al' = pool_quantity al + q" "pool_cost_local al' = pool_cost_local al + l"
    "pool_cost_base al' = pool_cost_base al + b" by (simp_all add: al'_def start_segment_def)
  have qs: "0 \<le> (\<Sum>(tid, c, q)\<leftarrow>rows. q)"
    using rows by (intro sum_list_nonneg') (auto simp: rows_wf_def)
  have lims: "pool_quantity al + q < ledger_limit" "pool_cost_local al + l < ledger_limit" "pool_cost_base al + b < ledger_limit"
    using Cons.prems(3,4,5,8) l(4) b(4) qs by (auto simp: ledger_amount_iff row)
  note adds = nonneg_adds [OF Cons.prems(6,7) c(4,2) lims(1)] nonneg_adds [OF Cons.prems(9,10) l(3,2) lims(2)]
    nonneg_adds [OF Cons.prems(12,13) b(3,2) lims(3)]
  have add: "pool_add q l b al = (Inr (), al')"
    unfolding al'_def by (rule pool_add_exact) (use Cons.prems c l b lims in auto)
  obtain states where states: "materialize_states A key pool ll lb rows al' = Inr states"
    "list_all2 row_state rows states"
    "states_cost_local states = rows_share ctb_cost_local_generation ?gl rows (pool_cost_local pool - pool_cost_local al')"
    "states_cost_base states = rows_share ctb_cost_base_generation ?gb rows (pool_cost_base pool - pool_cost_base al')"
    using Cons.IH [OF rows Cons.prems(2-5), of al'] Cons.prems(8,15,16) adds l(4) b(4)
    by (force simp: al'_sel row last_cost_source_Cons)
  have "materialize_states A key pool ll lb (row # rows) al = Inr ((tid, st) # states)"
    using f(1) l(1) b(1) st add states(1) by (simp add: row st_def)
  moreover have "row_state row (tid, st)"
    using l b by (auto simp: row_state_def row st_def)
  ultimately show ?case
    using states(2-4) l(6) b(6) by (auto simp: al'_sel st_def)
qed

section \<open>A book and its pool\<close>

definition book_sources :: "source_allocation \<Rightarrow> lot_key \<Rightarrow> (string \<times> source_contribution) list" where
  "book_sources A key =
     map (\<lambda>tid. (tid, the (map_of (contributions A) tid))) (ids_of key (active_source_ids_by_key A))"

abbreviation source_names :: "(string \<times> source_contribution) list \<Rightarrow> string list" where
  "source_names sources \<equiv> map (\<lambda>(tid, c). py_strip (ctb_source_lot_id c)) sources"

abbreviation sources_quantity :: "(string \<times> source_contribution) list \<Rightarrow> rat" where
  "sources_quantity sources \<equiv> (\<Sum>(tid, c)\<leftarrow>sources. ctb_original_quantity c)"

definition alloc_wf :: "lot_key \<Rightarrow> average_cost_pool \<Rightarrow> source_allocation \<Rightarrow> bool" where
  "alloc_wf key pool A \<longleftrightarrow>
     distinct (ids_of key (active_source_ids_by_key A)) \<and>
     set (ids_of key (active_source_ids_by_key A)) \<subseteq> dom (map_of (contributions A)) \<and>
     (\<forall>(tid, c) \<in> set (book_sources A key). source_wf A key c \<and> py_strip tid \<noteq> [] \<and> py_strip (ctb_source_lot_id c) \<noteq> []) \<and>
     distinct (source_names (book_sources A key)) \<and> scales_wf A key \<and>
     pool_quantity pool \<le> sources_quantity (book_sources A key) \<and>
     (0 < pool_quantity pool \<longrightarrow> ledger_amount (segment_start_quantity_by_key A key) \<and>
        pool_quantity pool \<le> segment_start_quantity_by_key A key)"

lemma fst_book_sources [simp]: "map fst (book_sources A key) = ids_of key (active_source_ids_by_key A)"
  by (simp add: book_sources_def comp_def)

lemma active_source_contributions_wf:
  assumes "alloc_wf key pool A"
  shows "active_source_contributions A key = Inr (book_sources A key)"
  unfolding active_source_contributions_def named_contributions_def book_sources_def
  by (rule rmap_total) (use assms in \<open>auto simp: alloc_wf_def contribution_of_def\<close>)

definition source_state :: "source_contribution \<Rightarrow> open_lot_state \<Rightarrow> bool" where
  "source_state c s \<longleftrightarrow> ols_original_quantity s = ctb_original_quantity c \<and>
     0 \<le> ols_quantity s \<and> ols_quantity s \<le> ctb_original_quantity c \<and> ledger_amount (ols_quantity s) \<and>
     0 \<le> ols_cost_local s \<and> ledger_amount (ols_cost_local s) \<and>
     0 \<le> ols_cost_base s \<and> ledger_amount (ols_cost_base s) \<and> ols_amortized_cost s = None \<and>
     (ols_quantity s = 0 \<longrightarrow> ols_cost_local s = 0 \<and> ols_cost_base s = 0)"

text \<open>Some open source belongs to the current generation of a cost side.\<close>

definition cost_carried ::
  "(source_contribution \<Rightarrow> int) \<Rightarrow> int \<Rightarrow> (string \<times> source_contribution) list \<Rightarrow> (string \<times> open_lot_state) list \<Rightarrow> bool" where
  "cost_carried generation_of gen sources states \<longleftrightarrow>
     list_ex (\<lambda>((tid, c), (tid', s)). 0 < ols_quantity s \<and> generation_of c = gen) (zip sources states)"

definition materialized ::
  "source_allocation \<Rightarrow> lot_key \<Rightarrow> average_cost_pool \<Rightarrow> (string \<times> open_lot_state) list \<Rightarrow> bool" where
  "materialized A key pool states \<longleftrightarrow>
     list_all2 (\<lambda>(tid, c) (tid', s). tid' = tid \<and> source_state c s) (book_sources A key) states \<and>
     states_quantity states = pool_quantity pool \<and>
     states_cost_local states =
       (if cost_carried ctb_cost_local_generation (cost_local_generation_by_key A key) (book_sources A key) states
        then pool_cost_local pool else 0) \<and>
     states_cost_base states =
       (if cost_carried ctb_cost_base_generation (cost_base_generation_by_key A key) (book_sources A key) states
        then pool_cost_base pool else 0)"

lemma sum_zip_snd:
  fixes ys :: "'a::ab_group_add list"
  shows "length xs = length ys \<Longrightarrow> (\<Sum>(x, y)\<leftarrow>zip xs ys. y) = sum_list ys"
  by (induction xs ys rule: list_induct2) auto

lemma sum_zip_diff:
  fixes ys :: "'a::ab_group_add list"
  shows "length xs = length ys \<Longrightarrow> (\<Sum>(x, y)\<leftarrow>zip xs ys. f x - y) = (\<Sum>x\<leftarrow>xs. f x) - sum_list ys"
  by (induction xs ys rule: list_induct2) (auto simp: algebra_simps)

text \<open>The quantities after the residual has been assigned.\<close>

lemma book_quantities_wf:
  assumes wf: "alloc_wf key pool A" and p: "ledger_amount (pool_quantity pool)" "0 \<le> pool_quantity pool"
  shows "\<exists>qs total qs'. materialize_quantities A (generation_by_key A key) (pool_quantity pool)
      (map snd (book_sources A key)) 0 = Inr (qs, total) \<and>
    assign_quantity_residual (generation_by_key A key) (zip (map snd (book_sources A key)) qs)
      (pool_quantity pool) total = Inr qs' \<and>
    list_all2 (\<lambda>(tid, c) q. 0 \<le> q \<and> q \<le> ctb_original_quantity c \<and> ledger_amount q) (book_sources A key) qs' \<and>
    sum_list qs' = pool_quantity pool"
proof -
  let ?cs = "map snd (book_sources A key)"
  have cs: "\<And>c. c \<in> set ?cs \<Longrightarrow> source_wf A key c" and sc: "scales_wf A key"
    using wf by (auto simp: alloc_wf_def)
  obtain qs where qs: "materialize_quantities A (generation_by_key A key) (pool_quantity pool) ?cs 0 = Inr (qs, sum_list qs)"
    "list_all2 (\<lambda>c q. 0 \<le> q \<and> q \<le> ctb_original_quantity c \<and> ledger_amount q) ?cs qs" "sum_list qs \<le> pool_quantity pool"
    using materialize_quantities_wf [OF cs sc p(1), where cs = ?cs and alloc = 0] p(2) by auto
  have rows: "ctb_generation c = generation_by_key A key \<and> 0 \<le> q \<and> q \<le> ctb_original_quantity c \<and>
      ledger_amount q \<and> ledger_amount (ctb_original_quantity c)" if "(c, q) \<in> set (zip ?cs qs)" for c q
    using that qs(2) cs [of c] by (auto simp: list_all2_iff source_wf_def dest: set_zip_leftD)
  have len: "length ?cs = length qs" using qs(2) by (rule list_all2_lengthD)
  have sq: "(\<Sum>(c, q)\<leftarrow>zip ?cs qs. q) = sum_list qs"
    using len by (rule sum_zip_snd)
  have so: "(\<Sum>(c, q)\<leftarrow>zip ?cs qs. ctb_original_quantity c - q) = (\<Sum>c\<leftarrow>?cs. ctb_original_quantity c) - sum_list qs"
    using len by (rule sum_zip_diff)
  have orig: "pool_quantity pool \<le> (\<Sum>c\<leftarrow>?cs. ctb_original_quantity c)"
    using wf by (simp add: alloc_wf_def case_prod_unfold comp_def)
  have tot: "ledger_amount (sum_list qs)" "0 \<le> sum_list qs"
  proof -
    have "\<And>q. q \<in> set qs \<Longrightarrow> ledger_amount q \<and> 0 \<le> q"
      using qs(2) by (auto simp: list_all2_conv_all_nth in_set_conv_nth)
    moreover have "sum_list qs < ledger_limit" using qs(3) p(1) by (auto simp: ledger_amount_iff)
    ultimately show "ledger_amount (sum_list qs)" "0 \<le> sum_list qs"
      using ledger_amount_sum_map [of qs "\<lambda>x. x"] by auto
  qed
  have sub: "policy_subtract state_policy f (pool_quantity pool) (sum_list qs) = Inr (pool_quantity pool - sum_list qs)"
    "ledger_amount (pool_quantity pool - sum_list qs)" for f
    using tot qs(3) p(1) by (auto intro!: cost_state.policy_subtract_le)
  obtain rs where rs: "assign_residual_loop (generation_by_key A key) (rev (zip ?cs qs)) (pool_quantity pool - sum_list qs) = Inr rs"
    "list_all2 (\<lambda>(c, q) q'. q \<le> q' \<and> q' \<le> ctb_original_quantity c \<and> ledger_amount q') (rev (zip ?cs qs)) rs"
    "sum_list rs = sum_list qs + (pool_quantity pool - sum_list qs)"
    using assign_residual_wf [of "rev (zip ?cs qs)" "generation_by_key A key" "pool_quantity pool - sum_list qs"]
      rows sub(2) qs(3) so sq orig by (auto simp: rev_map [symmetric])
  have "list_all2 (\<lambda>(c, q) q'. q \<le> q' \<and> q' \<le> ctb_original_quantity c \<and> ledger_amount q') (zip ?cs qs) (rev rs)"
    using rs(2) list_all2_rev [of _ "zip ?cs qs" "rev rs"] by simp
  then have "list_all2 (\<lambda>c q. 0 \<le> q \<and> q \<le> ctb_original_quantity c \<and> ledger_amount q) ?cs (rev rs)"
    using qs(2) len by (auto simp: list_all2_conv_all_nth) (meson order_trans)
  then have "list_all2 (\<lambda>(tid, c) q. 0 \<le> q \<and> q \<le> ctb_original_quantity c \<and> ledger_amount q) (book_sources A key) (rev rs)"
    by (simp add: list_all2_map1 case_prod_unfold)
  then show ?thesis
    using qs(1) sub(1) rs(1,3) by (auto simp: assign_quantity_residual_def)
qed

lemma materialize_book_wf:
  assumes wf: "alloc_wf key pool A" and p: "pool_wf pool"
  shows "\<exists>states. materialize_book key pool A = Inr states \<and> materialized A key pool states"
proof -
  have pq: "ledger_amount (pool_quantity pool)" "0 \<le> pool_quantity pool" using p by (auto simp: pool_wf_def)
  let ?src = "book_sources A key"
  obtain qs total qs' where qs: "materialize_quantities A (generation_by_key A key) (pool_quantity pool) (map snd ?src) 0 = Inr (qs, total)"
    "assign_quantity_residual (generation_by_key A key) (zip (map snd ?src) qs) (pool_quantity pool) total = Inr qs'"
    "list_all2 (\<lambda>(tid, c) q. 0 \<le> q \<and> q \<le> ctb_original_quantity c \<and> ledger_amount q) ?src qs'"
    "sum_list qs' = pool_quantity pool"
    using book_quantities_wf [OF wf pq] by blast
  define rows where "rows = map (\<lambda>((tid, c), q). (tid, c, q)) (zip ?src qs')"
  have len: "length qs' = length ?src" using list_all2_lengthD [OF qs(3)] by simp
  have "map fst rows = map fst ?src" unfolding rows_def using len
    by (intro nth_equalityI) (auto simp: case_prod_unfold simp del: fst_book_sources)
  then have "rows_wf A key rows"
    using wf qs(3) unfolding rows_wf_def alloc_wf_def fst_book_sources
    by (auto simp: rows_def list_all2_iff dest: set_zip_leftD)
  moreover have "(\<Sum>(tid, c, q)\<leftarrow>rows. q) = sum_list qs'"
    unfolding rows_def using len by (simp add: case_prod_unfold comp_def)
  moreover have "scales_wf A key" using wf by (simp add: alloc_wf_def)
  moreover have "pool_quantity AverageCostPool = 0" "pool_cost_local AverageCostPool = 0" "pool_cost_base AverageCostPool = 0"
    by (simp_all add: AverageCostPool_def)
  ultimately obtain states where states: "materialize_states A key pool
      (last_cost_source ctb_cost_local_generation (cost_local_generation_by_key A key) rows)
      (last_cost_source ctb_cost_base_generation (cost_base_generation_by_key A key) rows) rows AverageCostPool = Inr states"
    "list_all2 row_state rows states"
    "states_cost_local states = rows_share ctb_cost_local_generation (cost_local_generation_by_key A key) rows (pool_cost_local pool)"
    "states_cost_base states = rows_share ctb_cost_base_generation (cost_base_generation_by_key A key) rows (pool_cost_base pool)"
    using materialize_states_wf [of A key rows pool AverageCostPool, OF _ _ pq(1) pool_wf_costs(2,4) [OF p] _ _ _ _ _ _ _ _ _ refl refl]
      pq(2) qs(4) pool_wf_costs(1,3) [OF p] by (simp only: diff_zero add_0 cost_state.storable_0 order_refl simp_thms) blast
  have len': "length states = length ?src" using list_all2_lengthD [OF states(2)] len by (simp add: rows_def)
  have nth: "row_state (fst (?src ! i), snd (?src ! i), qs' ! i) (states ! i)" if "i < length ?src" for i
    using list_all2_nthD2 [OF states(2), of i] that len len' by (simp add: rows_def case_prod_unfold)
  have st: "list_all2 (\<lambda>(tid, c) (tid', s). tid' = tid \<and> source_state c s) ?src states"
  proof (rule list_all2_all_nthI)
    fix i assume i: "i < length ?src"
    have "0 \<le> qs' ! i \<and> qs' ! i \<le> ctb_original_quantity (snd (?src ! i)) \<and> ledger_amount (qs' ! i)"
      using list_all2_nthD [OF qs(3) i] by (simp add: case_prod_unfold)
    then show "(case ?src ! i of (tid, c) \<Rightarrow> \<lambda>(tid', s). tid' = tid \<and> source_state c s) (states ! i)"
      using nth [OF i] by (simp add: row_state_def source_state_def case_prod_unfold)
  qed (use len' in simp)
  have q: "map (\<lambda>(tid, s). ols_quantity s) states = qs'"
    using nth len len' by (auto intro!: nth_equalityI simp: row_state_def case_prod_unfold)
  have el: "(\<exists>r \<in> set rows. row_eligible g gen r) \<longleftrightarrow> cost_carried g gen ?src states" for g gen
    using nth len len' unfolding cost_carried_def list_ex_iff [symmetric] list_ex_length
    by (auto simp: rows_def row_eligible_def row_state_def case_prod_unfold)
  have "materialize_book key pool A = Inr states"
    using active_source_contributions_wf [OF wf] qs(1,2) states(1)
    by (simp add: materialize_book_def Let_def flip: rows_def)
  moreover have "materialized A key pool states"
    unfolding materialized_def using st q qs(4) states(3,4) el by (auto simp: rows_share_def)
  ultimately show ?thesis by blast
qed

end
