(* ===== verification/Average_Cost_Invariant.thy ===== *)
theory Average_Cost_Invariant
  imports Average_Cost_Correctness
begin

text \<open>
  The operations of the average-cost strategy keep the invariant of every book: acquisition,
  disposal and restatement, with the effect each has on the pool.
\<close>

section \<open>Books an operation does not touch\<close>

definition book_agrees :: "lot_key \<Rightarrow> source_allocation \<Rightarrow> source_allocation \<Rightarrow> bool" where
  "book_agrees key A B \<longleftrightarrow>
     ids_of key (active_source_ids_by_key B) = ids_of key (active_source_ids_by_key A) \<and>
     (\<forall>tid \<in> set (ids_of key (active_source_ids_by_key A)).
        map_of (contributions B) tid = map_of (contributions A) tid) \<and>
     generation_by_key B key = generation_by_key A key \<and>
     disposal_scale_by_key B key = disposal_scale_by_key A key \<and>
     segment_start_scale_by_key B key = segment_start_scale_by_key A key \<and>
     segment_start_quantity_by_key B key = segment_start_quantity_by_key A key \<and>
     cost_local_scale_by_key B key = cost_local_scale_by_key A key \<and>
     cost_base_scale_by_key B key = cost_base_scale_by_key A key \<and>
     cost_local_generation_by_key B key = cost_local_generation_by_key A key \<and>
     cost_base_generation_by_key B key = cost_base_generation_by_key A key"

lemma book_agrees_sources: "book_agrees key A B \<Longrightarrow> book_sources B key = book_sources A key"
  by (simp add: book_agrees_def book_sources_def)

lemma alloc_wf_agrees:
  assumes "book_agrees key A B" and "alloc_wf key pool A"
  shows "alloc_wf key pool B"
proof -
  have src: "source_wf B key c \<longleftrightarrow> source_wf A key c" for c
    using assms(1) by (simp add: book_agrees_def source_wf_def)
  have "set (ids_of key (active_source_ids_by_key B)) \<subseteq> dom (map_of (contributions B))"
    using assms by (auto simp: book_agrees_def alloc_wf_def dom_def)
  then show ?thesis
    using assms book_agrees_sources [OF assms(1)] src
    by (simp add: alloc_wf_def scales_wf_def book_agrees_def)
qed

definition avco_wf :: "avco_state \<Rightarrow> bool" where
  "avco_wf s \<longleftrightarrow> (\<forall>key. pool_wf (pool_of s key) \<and> alloc_wf key (pool_of s key) (avco_allocation s))"

lemma avco_wfD: "avco_wf s \<Longrightarrow> pool_wf (pool_of s key)" "avco_wf s \<Longrightarrow> alloc_wf key (pool_of s key) (avco_allocation s)"
  unfolding avco_wf_def by blast+

lemma avco_wf_update:
  assumes wf: "avco_wf s" and here: "pool_wf (pool_of s' key)" "alloc_wf key (pool_of s' key) (avco_allocation s')"
    and other: "\<And>k. k \<noteq> key \<Longrightarrow> pool_of s' k = pool_of s k \<and> book_agrees k (avco_allocation s) (avco_allocation s')"
  shows "avco_wf s'"
  unfolding avco_wf_def
proof
  fix k
  show "pool_wf (pool_of s' k) \<and> alloc_wf k (pool_of s' k) (avco_allocation s')"
  proof (cases "k = key")
    case False
    then show ?thesis
      using other [OF False] avco_wfD [OF wf, of k] alloc_wf_agrees [of k "avco_allocation s"] by simp
  qed (use here in simp)
qed

lemma pool_of_touch [simp]: "pool_of (touch_pool key s) k = pool_of s k"
  by (simp add: touch_pool_def pool_of_def)

lemma allocation_touch [simp]: "avco_allocation (touch_pool key s) = avco_allocation s"
  by (simp add: touch_pool_def)

lemma on_pool_state:
  "on_pool key f s = (r, s') \<Longrightarrow> f (pool_of s key) = (r, p) \<Longrightarrow>
     pool_of s' = (pool_of s)(key := p) \<and> avco_allocation s' = avco_allocation s"
  by (auto simp: on_pool_def pool_of_def)

lemma on_pool_eq:
  "f (pool_of s key) = (r, p) \<Longrightarrow> on_pool key f s = (r, s\<lparr>avco_pools := dict_set key p (avco_pools s)\<rparr>)"
  by (simp add: on_pool_def)

lemma pool_of_set [simp]:
  "pool_of (s\<lparr>avco_pools := dict_set key p (avco_pools s)\<rparr>) k = (if k = key then p else pool_of s k)"
  "pool_of (s\<lparr>avco_allocation := A\<rparr>) k = pool_of s k"
  by (simp_all add: pool_of_def)

lemma on_allocation_eq: "f (avco_allocation s) = (r, A) \<Longrightarrow> on_allocation f s = (r, s\<lparr>avco_allocation := A\<rparr>)"
  by (simp add: on_allocation_def)

lemma avco_empty_wf: "avco_wf AverageCostBasisStrategy"
proof -
  have "alloc_wf key AverageCostPool AverageCostSourceAllocation" for key
    by (simp add: alloc_wf_def book_sources_def ids_of_def AverageCostSourceAllocation_def scales_wf_def AverageCostPool_def)
  then show ?thesis
    by (simp add: avco_wf_def AverageCostBasisStrategy_def pool_of_def pool_empty_wf)
qed

section \<open>Acquisition\<close>

lemma ids_of_dict_set: "ids_of k (dict_set key ids d) = (if k = key then ids else ids_of k d)"
  by (simp add: ids_of_def)

text \<open>An acquisition the strategy can book: a new identity, ledger amounts and room in the pool.\<close>

definition avco_bookable :: "cost_basis_transaction \<Rightarrow> avco_state \<Rightarrow> rat \<Rightarrow> rat \<Rightarrow> rat \<Rightarrow> rat \<Rightarrow> bool" where
  "avco_bookable t s q base local original \<longleftrightarrow>
     validated_buy_lot_inputs t = Inr (Some (q, base, local)) \<and>
     source_lot_original_quantity_of t q = Inr original \<and>
     map_of (contributions (avco_allocation s)) (transaction_id t) = None \<and>
     py_strip (transaction_id t) \<noteq> [] \<and> py_strip (''LOT-'' @ transaction_id t) \<noteq> [] \<and>
     py_strip (''LOT-'' @ transaction_id t) \<notin> set (source_names (book_sources (avco_allocation s) (transaction_key t))) \<and>
     ledger_amount q \<and> 0 < q \<and> ledger_amount original \<and> q \<le> original \<and>
     ledger_amount base \<and> 0 \<le> base \<and> ledger_amount local \<and> 0 \<le> local \<and>
     pool_quantity (pool_of s (transaction_key t)) + q < ledger_limit \<and>
     pool_cost_local (pool_of s (transaction_key t)) + local < ledger_limit \<and>
     pool_cost_base (pool_of s (transaction_key t)) + base < ledger_limit"

lemma add_source_wf:
  assumes wf: "alloc_wf key pool A" and fresh: "map_of (contributions A) tid = None"
    and amounts: "ledger_amount q" "0 < q" "ledger_amount original" "q \<le> original"
      "ledger_amount local" "0 \<le> local" "ledger_amount base" "0 \<le> base"
    and named: "py_strip tid \<noteq> []" "py_strip lid \<noteq> []" "py_strip lid \<notin> set (source_names (book_sources A key))"
    and pool': "pool_quantity pool' = pool_quantity pool + q" "ledger_amount (pool_quantity pool')"
  shows "\<exists>A'. add_source key tid lid acquired q (Some original) local base (pool_quantity pool') A = (Inr (), A') \<and>
    alloc_wf key pool' A' \<and> (\<forall>k p. k \<noteq> key \<and> alloc_wf k p A \<longrightarrow> book_agrees k A A') \<and>
    map fst (book_sources A' key) = map fst (book_sources A key) @ [tid] \<and>
    map_of (contributions A') = (map_of (contributions A))(tid \<mapsto> the (map_of (contributions A') tid))"
proof -
  define c where "c = \<lparr>ctb_book_key = key, ctb_source_lot_id = lid, ctb_source_acquisition_date = acquired,
    ctb_generation = generation_by_key A key, ctb_original_quantity = original, ctb_quantity = q,
    ctb_cost_local = local, ctb_cost_base = base, disposal_scale_at_entry = disposal_scale_by_key A key,
    cost_local_scale_at_entry = cost_local_scale_by_key A key, cost_base_scale_at_entry = cost_base_scale_by_key A key,
    ctb_cost_local_generation = cost_local_generation_by_key A key,
    ctb_cost_base_generation = cost_base_generation_by_key A key\<rparr>"
  define A' where "A' = A\<lparr>contributions := dict_set tid c (contributions A),
    source_ids_by_key := dict_set key (ids_of key (source_ids_by_key A) @ [tid]) (source_ids_by_key A),
    active_source_ids_by_key :=
      dict_set key (ids_of key (active_source_ids_by_key A) @ [tid]) (active_source_ids_by_key A),
    segment_start_scale_by_key := (segment_start_scale_by_key A)(key := disposal_scale_by_key A key),
    segment_start_quantity_by_key := (segment_start_quantity_by_key A)(key := pool_quantity pool')\<rparr>"
  have add: "add_source key tid lid acquired q (Some original) local base (pool_quantity pool') A = (Inr (), A')"
    using fresh by (simp add: add_source_def A'_def c_def)
  have notin: "tid \<notin> set (ids_of key (active_source_ids_by_key A))"
    using wf fresh by (auto simp: alloc_wf_def)
  have src: "book_sources A' key = book_sources A key @ [(tid, c)]"
    using notin by (auto simp: book_sources_def A'_def ids_of_dict_set)
  have sc: "scales_wf A key" using wf by (simp add: alloc_wf_def)
  have c: "source_wf A' key c"
    using amounts sc by (simp add: source_wf_def c_def A'_def scales_wf_def)
  have old: "source_wf A' key x" if "source_wf A key x" for x
    using that sc by (auto simp: source_wf_def A'_def scales_wf_def)
  have sc': "scales_wf A' key" using sc by (simp add: scales_wf_def A'_def)
  have ids: "ids_of key (active_source_ids_by_key A') = ids_of key (active_source_ids_by_key A) @ [tid]"
    "dom (map_of (contributions A')) = insert tid (dom (map_of (contributions A)))"
    "segment_start_quantity_by_key A' key = pool_quantity pool'"
    by (simp_all add: A'_def ids_of_dict_set)
  have "alloc_wf key pool' A'"
    unfolding alloc_wf_def src ids
    using wf notin c old sc' named pool' amounts(4) by (auto simp: alloc_wf_def c_def)
  moreover have "book_agrees k A A'" if "k \<noteq> key" "alloc_wf k p A" for k p
    using that fresh by (auto simp: book_agrees_def A'_def ids_of_dict_set alloc_wf_def)
  moreover have "map_of (contributions A') = (map_of (contributions A))(tid \<mapsto> the (map_of (contributions A') tid))"
    by (simp add: A'_def)
  moreover have "map fst (book_sources A' key) = map fst (book_sources A key) @ [tid]" using ids by simp
  ultimately show ?thesis using add by blast
qed

lemma avco_add_buy_lot_wf:
  assumes wf: "avco_wf s" and b: "avco_bookable t s q base local original" and key: "key = transaction_key t"
  shows "\<exists>s'. avco_add_buy_lot t s = (Inr (), s') \<and> avco_wf s' \<and>
    pool_quantity (pool_of s' key) = pool_quantity (pool_of s key) + q \<and>
    pool_cost_local (pool_of s' key) = pool_cost_local (pool_of s key) + local \<and>
    pool_cost_base (pool_of s' key) = pool_cost_base (pool_of s key) + base \<and>
    (\<forall>k. k \<noteq> key \<longrightarrow> pool_of s' k = pool_of s k) \<and>
    map fst (book_sources (avco_allocation s') key) =
      map fst (book_sources (avco_allocation s) key) @ [transaction_id t] \<and>
    dom (map_of (contributions (avco_allocation s'))) =
      insert (transaction_id t) (dom (map_of (contributions (avco_allocation s))))"
proof -
  let ?A = "avco_allocation s"
  have pool: "pool_wf (pool_of s key)" and alloc: "alloc_wf key (pool_of s key) ?A" using avco_wfD [OF wf] by auto
  have v: "validated_buy_lot_inputs t = Inr (Some (q, base, local))" "source_lot_original_quantity_of t q = Inr original"
    "map_of (contributions ?A) (transaction_id t) = None"
    using b by (auto simp: avco_bookable_def)
  obtain p where p: "pool_add q local base (pool_of s key) = (Inr (), p)" "pool_wf p"
    "pool_quantity p = pool_quantity (pool_of s key) + q" "pool_cost_local p = pool_cost_local (pool_of s key) + local"
    "pool_cost_base p = pool_cost_base (pool_of s key) + base"
    using pool_add_wf [OF pool, of q local base] b by (auto simp: avco_bookable_def key)
  obtain A' where A': "add_source key (transaction_id t) (''LOT-'' @ transaction_id t) (utc_transaction_date t) q
      (Some original) local base (pool_quantity p) ?A = (Inr (), A')" "alloc_wf key p A'"
    "\<forall>k p. k \<noteq> key \<and> alloc_wf k p ?A \<longrightarrow> book_agrees k ?A A'"
    "map fst (book_sources A' key) = map fst (book_sources ?A key) @ [transaction_id t]"
    "map_of (contributions A') = (map_of (contributions ?A))(transaction_id t \<mapsto> the (map_of (contributions A') (transaction_id t)))"
    using add_source_wf [OF alloc v(3), where q = q and original = original and local = local and base = base and
        lid = "''LOT-'' @ transaction_id t" and pool' = p and acquired = "utc_transaction_date t"] b p(2,3)
    by (auto simp: avco_bookable_def key pool_wf_def)
  define s' where "s' = s\<lparr>avco_pools := dict_set key p (avco_pools s), avco_allocation := A'\<rparr>"
  have pool': "pool_of s' k = (if k = key then p else pool_of s k)" for k by (simp add: s'_def pool_of_def)
  have "avco_add_buy_lot t s = (Inr (), s')"
    using v(1,2) on_pool_eq [of "pool_add q local base" s key, OF p(1)] A'(1)
    by (simp add: avco_add_buy_lot_def Let_def on_allocation_def s'_def flip: key)
  moreover have "avco_wf s'"
  proof (rule avco_wf_update [OF wf, where key = key])
    fix k assume "k \<noteq> key"
    then show "pool_of s' k = pool_of s k \<and> book_agrees k (avco_allocation s) (avco_allocation s')"
      using A'(3) [rule_format, of k "pool_of s k"] avco_wfD(2) [OF wf, of k] by (auto simp: pool' s'_def)
  qed (use p A' in \<open>auto simp: pool' s'_def\<close>)
  moreover have "dom (map_of (contributions A')) = insert (transaction_id t) (dom (map_of (contributions ?A)))"
    by (subst A'(5)) simp
  ultimately show ?thesis using p(3-5) A'(4) by (auto simp: pool' s'_def)
qed

section \<open>Disposal\<close>

lemma reset_book_wf:
  shows "pool_quantity pool = 0 \<Longrightarrow> alloc_wf key pool (reset_book key A)"
    and "k \<noteq> key \<Longrightarrow> book_agrees k A (reset_book key A)"
  by (auto simp: alloc_wf_def book_sources_def reset_book_def ids_of_dict_set scales_wf_def book_agrees_def)

lemma apply_disposal_wf:
  assumes wf: "alloc_wf key pool A" and q: "0 < pool_quantity pool" "0 \<le> after" "after < pool_quantity pool" "ledger_amount after"
    and pool': "pool_quantity pool' = after"
  shows "\<exists>A'. apply_disposal key (pool_quantity pool) after A = (Inr (), A') \<and> alloc_wf key pool' A' \<and>
    (\<forall>k. k \<noteq> key \<longrightarrow> book_agrees k A A') \<and>
    book_sources A' key = (if after = 0 then [] else book_sources A key)"
proof (cases "after = 0")
  case True
  have "book_sources (reset_book key A) key = []"
    by (simp add: book_sources_def reset_book_def ids_of_dict_set)
  then show ?thesis
    using True q pool' reset_book_wf(1) [of pool' key A] reset_book_wf(2) [of _ key A]
    by (simp add: apply_disposal_def)
next
  case False
  let ?S = "segment_start_quantity_by_key A key" and ?s = "segment_start_scale_by_key A key"
  let ?r = "sig_round (context_precision state_policy)"
  have S: "ledger_amount ?S" "pool_quantity pool \<le> ?S" and sc: "scales_wf A key"
    using wf q by (auto simp: alloc_wf_def)
  have s: "0 < ?s" using sc by (auto simp: scales_wf_def)
  define x where "x = ?r (?r (?s * after) / ?S)"
  have le: "x \<le> ?s"
    unfolding x_def using q S s by (intro cost_state.scale_shrinks) auto
  have pos: "0 < x"
    unfolding x_def using False q S s by (intro sig_round_pos cost_state.context_pos divide_pos_pos mult_pos_pos) auto
  define A' where "A' = A\<lparr>disposal_scale_by_key := (disposal_scale_by_key A)(key := x)\<rparr>"
  have "apply_disposal key (pool_quantity pool) after A = (Inr (), A')"
    using False q S by (simp add: apply_disposal_def Let_def dec_div_def dec_mul_def A'_def x_def)
  moreover have src: "book_sources A' key = book_sources A key" by (simp add: book_sources_def A'_def)
  have "alloc_wf key pool' A'"
    using wf le pos q pool' unfolding alloc_wf_def src
    by (auto simp: A'_def source_wf_def scales_wf_def)
  moreover have "book_agrees k A A'" if "k \<noteq> key" for k
    using that by (simp add: book_agrees_def A'_def)
  ultimately show ?thesis using False src by auto
qed

section \<open>Restatement\<close>

definition restated_source :: "rat \<Rightarrow> source_contribution \<Rightarrow> source_contribution" where
  "restated_source ratio c = c\<lparr>ctb_original_quantity := ctb_original_quantity c * ratio,
     ctb_quantity := ctb_quantity c * ratio\<rparr>"

lemma map_of_fold_dict_set:
  "distinct (map fst ps) \<Longrightarrow> map_of (fold (\<lambda>(k, v). dict_set k v) ps d) k =
     (case map_of ps k of Some v \<Rightarrow> Some v | None \<Rightarrow> map_of d k)"
proof (induction ps arbitrary: d)
  case (Cons p ps)
  obtain x v where p: "p = (x, v)" by (cases p)
  have "map_of ps x = None" using Cons.prems by (auto simp: p map_of_eq_None_iff)
  then show ?case using Cons by (auto simp: p split: option.split)
qed simp

lemma restated_sources:
  assumes r: "LotRestatement b a = Inr r" and wf: "alloc_wf key pool A"
    and ps: "rmap (restated_contribution r A) (ids_of key (active_source_ids_by_key A)) = Inr ps"
  shows "ps = map (\<lambda>(tid, c). (tid, restated_source (a / b) c)) (book_sources A key)"
    and "\<forall>(tid, c) \<in> set ps. ledger_amount (ctb_original_quantity c) \<and> ledger_amount (ctb_quantity c)"
proof -
  let ?ids = "ids_of key (active_source_ids_by_key A)"
  have row: "p = (tid, restated_source (a / b) (the (map_of (contributions A) tid))) \<and>
      ledger_amount (ctb_original_quantity (snd p)) \<and> ledger_amount (ctb_quantity (snd p))"
    if "restated_contribution r A tid = Inr p" for tid p
    using that
    by (auto simp: restated_contribution_def contribution_of_def rbind_eq_Inr restatement_apply_Inr [OF r]
        restated_source_def split: option.splits)
  have all: "list_all2 (\<lambda>tid p. restated_contribution r A tid = Inr p) ?ids ps"
    using ps by (rule rmap_Inr_list_all2)
  show "ps = map (\<lambda>(tid, c). (tid, restated_source (a / b) c)) (book_sources A key)"
  proof (rule nth_equalityI)
    show len: "length ps = length (map (\<lambda>(tid, c). (tid, restated_source (a / b) c)) (book_sources A key))"
      using list_all2_lengthD [OF all] by (simp add: book_sources_def)
    fix i assume "i < length ps"
    then show "ps ! i = map (\<lambda>(tid, c). (tid, restated_source (a / b) c)) (book_sources A key) ! i"
      using row [OF list_all2_nthD2 [OF all]] len by (simp add: book_sources_def)
  qed
  show "\<forall>(tid, c) \<in> set ps. ledger_amount (ctb_original_quantity c) \<and> ledger_amount (ctb_quantity c)"
  proof
    fix p assume "p \<in> set ps"
    then obtain i where i: "i < length ps" "p = ps ! i" by (auto simp: in_set_conv_nth)
    have "ledger_amount (ctb_original_quantity (snd p)) \<and> ledger_amount (ctb_quantity (snd p))"
      unfolding i(2) using row [OF list_all2_nthD2 [OF all i(1)]] by blast
    then show "case p of (tid, c) \<Rightarrow> ledger_amount (ctb_original_quantity c) \<and> ledger_amount (ctb_quantity c)"
      by (cases p) simp
  qed
qed

lemma sum_list_ratio: "(\<Sum>x\<leftarrow>xs. f x * r) = (\<Sum>x\<leftarrow>xs. f x) * (r :: rat)"
  by (induction xs) (auto simp: algebra_simps)

lemma apply_quantity_restatement_wf:
  assumes r: "LotRestatement (pool_quantity pool) a = Inr r" and wf: "alloc_wf key pool A"
    and run: "apply_quantity_restatement key r A = (Inr u, A')" and pool': "pool_quantity pool' = a"
  shows "alloc_wf key pool' A' \<and> book_sources A' key =
      map (\<lambda>(tid, c). (tid, restated_source (a / pool_quantity pool) c)) (book_sources A key) \<and>
    (\<forall>k p. k \<noteq> key \<and> alloc_wf k p A \<longrightarrow> book_agrees k A A')"
proof -
  let ?b = "pool_quantity pool" and ?ids = "ids_of key (active_source_ids_by_key A)"
  let ?S = "segment_start_quantity_by_key A key"
  have ab: "0 < ?b" "0 < a" "0 < a / ?b" using r by (auto simp: LotRestatement_Inr)
  obtain ps S' where ps: "rmap (restated_contribution r A) ?ids = Inr ps"
    and S': "restatement_apply r ?S ''source_allocation_segment_start_quantity'' = Inr S'"
    and A': "A' = A\<lparr>contributions := fold (\<lambda>(tid, c). dict_set tid c) ps (contributions A),
      segment_start_quantity_by_key := (segment_start_quantity_by_key A)(key := S')\<rparr>"
    using run by (auto simp: apply_quantity_restatement_def obind_eq_Inr)
  note rows = restated_sources [OF r wf ps]
  have S: "S' = ?S * a / ?b" "ledger_amount S'" using S' by (auto simp: restatement_apply_Inr [OF r])
  have fst_ps: "map fst ps = ?ids" unfolding rows(1) by (simp add: case_prod_unfold comp_def)
  have dist: "distinct (map fst ps)" using wf unfolding fst_ps by (simp add: alloc_wf_def)
  have look: "map_of (contributions A') tid = (case map_of ps tid of Some v \<Rightarrow> Some v | None \<Rightarrow> map_of (contributions A) tid)" for tid
    using map_of_fold_dict_set [OF dist] by (simp add: A')
  have ids': "ids_of key (active_source_ids_by_key A') = ?ids" by (simp add: A')
  have src: "book_sources A' key = ps"
  proof (rule nth_equalityI)
    show len: "length (book_sources A' key) = length ps"
      using arg_cong [OF fst_ps, of length] by (simp add: book_sources_def ids')
    fix i assume "i < length (book_sources A' key)"
    then have i: "i < length ps" using len by simp
    have tid: "?ids ! i = fst (ps ! i)" using i unfolding fst_ps [symmetric] by simp
    have "map_of ps (fst (ps ! i)) = Some (snd (ps ! i))" using dist i by (simp add: map_of_eq_Some_iff)
    then show "book_sources A' key ! i = ps ! i"
      using i len tid by (simp add: book_sources_def ids' look)
  qed
  have swf: "source_wf A' key (restated_source (a / ?b) c)"
    if "source_wf A key c" "ledger_amount (ctb_original_quantity (restated_source (a / ?b) c))"
      "ledger_amount (ctb_quantity (restated_source (a / ?b) c))" for c
    using that ab mult_right_mono [of "ctb_quantity c" "ctb_original_quantity c" "a / ?b"]
    by (auto simp: source_wf_def restated_source_def A')
  have all: "\<forall>(tid, c) \<in> set ps. source_wf A' key c \<and> py_strip tid \<noteq> [] \<and> py_strip (ctb_source_lot_id c) \<noteq> []"
  proof
    fix p assume p: "p \<in> set ps"
    then obtain tid c where c: "(tid, c) \<in> set (book_sources A key)" "p = (tid, restated_source (a / ?b) c)"
      unfolding rows(1) by auto
    have "source_wf A key c \<and> py_strip tid \<noteq> [] \<and> py_strip (ctb_source_lot_id c) \<noteq> []"
      using wf c(1) by (auto simp: alloc_wf_def)
    moreover have "ledger_amount (ctb_original_quantity (restated_source (a / ?b) c)) \<and>
        ledger_amount (ctb_quantity (restated_source (a / ?b) c))"
      using bspec [OF rows(2) p] by (simp add: c(2))
    ultimately show "case p of (tid, c) \<Rightarrow> source_wf A' key c \<and> py_strip tid \<noteq> [] \<and> py_strip (ctb_source_lot_id c) \<noteq> []"
      using swf by (simp add: c(2)) (simp add: restated_source_def)
  qed
  have names: "source_names ps = source_names (book_sources A key)"
    unfolding rows(1) by (simp add: case_prod_unfold restated_source_def comp_def)
  have "sources_quantity ps = sources_quantity (book_sources A key) * (a / ?b)"
    unfolding rows(1) by (simp add: case_prod_unfold restated_source_def comp_def sum_list_ratio del: times_divide_eq_right)
  moreover have "?b * (a / ?b) \<le> sources_quantity (book_sources A key) * (a / ?b)"
    using wf ab(3) by (intro mult_right_mono) (auto simp: alloc_wf_def)
  ultimately have quant: "a \<le> sources_quantity ps" using ab by simp
  have "?b \<le> ?S" using wf ab by (simp add: alloc_wf_def)
  then have "?b * (a / ?b) \<le> ?S * (a / ?b)" using ab(3) by (intro mult_right_mono) auto
  then have seg: "a \<le> S'" using ab S by simp
  have dom: "set ?ids \<subseteq> dom (map_of (contributions A'))"
    using wf by (auto simp: alloc_wf_def look dom_def split: option.splits)
  have "alloc_wf key pool' A'"
    unfolding alloc_wf_def src ids' pool'
    using wf all names quant seg S(2) dom by (simp add: alloc_wf_def scales_wf_def A')
  moreover have "book_agrees k A A'" if k: "k \<noteq> key" "alloc_wf k p A" for k p
  proof -
    have "map_of ps tid = None" if tid: "tid \<in> set (ids_of k (active_source_ids_by_key A))" for tid
    proof (rule ccontr)
      assume "map_of ps tid \<noteq> None"
      then have "tid \<in> set ?ids" unfolding fst_ps [symmetric] by (auto dest: map_of_SomeD simp: rev_image_eqI)
      then have "ctb_book_key (the (map_of (contributions A) tid)) = key"
        using wf by (auto simp: alloc_wf_def book_sources_def source_wf_def)
      moreover have "ctb_book_key (the (map_of (contributions A) tid)) = k"
        using k(2) tid by (auto simp: alloc_wf_def book_sources_def source_wf_def)
      ultimately show False using k(1) by simp
    qed
    then show ?thesis using k(1) look by (simp add: book_agrees_def A')
  qed
  ultimately show ?thesis using src rows(1) by blast
qed

lemma segment_cost_ratio: "0 < x \<Longrightarrow> segment_cost c (q * x) (s * x) = segment_cost c q s"
  by (simp add: segment_cost_def)

lemma avco_restate_wf:
  assumes wf: "avco_wf s" and d: "ledger_amount d" and key: "key = (p, i)"
    and run: "avco_restate_lot_quantities p i d s = (Inr r, s')"
  shows "avco_wf s' \<and> pool_quantity (pool_of s' key) = pool_quantity (pool_of s key) + d \<and>
    pool_cost_local (pool_of s' key) = pool_cost_local (pool_of s key) \<and>
    pool_cost_base (pool_of s' key) = pool_cost_base (pool_of s key) \<and>
    book_sources (avco_allocation s') key =
      map (\<lambda>(tid, c). (tid, restated_source ((pool_quantity (pool_of s key) + d) / pool_quantity (pool_of s key)) c))
        (book_sources (avco_allocation s) key) \<and>
    (\<forall>k. k \<noteq> key \<longrightarrow> pool_of s' k = pool_of s k)"
proof -
  let ?P = "pool_of s key" and ?A = "avco_allocation s"
  let ?b = "pool_quantity ?P" and ?a = "pool_quantity ?P + d"
  have pool: "pool_wf ?P" and alloc: "alloc_wf key ?P ?A" using avco_wfD [OF wf] by auto
  obtain S' A' where r': "from_signed_delta ?b d = Inr r"
    and S': "restatement_apply r (segment_start_quantity ?P) ''segment_start_quantity'' = Inr S'"
    and A': "apply_quantity_restatement key r ?A = (Inr (), A')"
    and s': "s' = (touch_pool key s)\<lparr>avco_allocation := A', avco_pools := dict_set key
        (?P\<lparr>pool_quantity := quantity_after r, segment_start_quantity := S'\<rparr>) (avco_pools (touch_pool key s))\<rparr>"
  proof -
    obtain r0 S0 s0 where run0: "from_signed_delta ?b d = Inr r0"
      "restatement_apply r0 (segment_start_quantity ?P) ''segment_start_quantity'' = Inr S0"
      "on_allocation (apply_quantity_restatement key r0) (touch_pool key s) = (Inr (), s0)"
      "on_pool key (\<lambda>p. (Inr r0, p\<lparr>pool_quantity := quantity_after r0, segment_start_quantity := S0\<rparr>)) s0 = (Inr r, s')"
      using run unfolding avco_restate_lot_quantities_def Let_def key [symmetric] by (auto simp: obind_eq_Inr)
    obtain A0 where A0: "apply_quantity_restatement key r0 ?A = (Inr (), A0)" "s0 = (touch_pool key s)\<lparr>avco_allocation := A0\<rparr>"
      using run0(3) by (auto simp: on_allocation_def split: prod.splits)
    show ?thesis
      by (rule that [of S0 A0]) (use run0 A0 in \<open>auto simp: on_pool_def touch_pool_def\<close>)
  qed
  have r: "LotRestatement ?b ?a = Inr r" using r' pool d by (simp add: from_signed_delta_Inr pool_wf_def)
  have ab: "0 < ?b" "0 < ?a" "ledger_amount ?a" "quantity_after r = ?a" using r by (auto simp: LotRestatement_Inr)
  define x where "x = ?a / ?b"
  have x: "0 < x" "?b * x = ?a" using ab by (auto simp: x_def)
  have S: "S' = segment_start_quantity ?P * x" "ledger_amount S'"
    using S' by (auto simp: restatement_apply_Inr [OF r] x_def)
  define P' where "P' = ?P\<lparr>pool_quantity := ?a, segment_start_quantity := S'\<rparr>"
  have le: "?a \<le> S'"
    using pool x S mult_right_mono [of ?b "segment_start_quantity ?P" x] by (auto simp: pool_wf_def)
  have "pool_wf P'"
    using pool ab le S segment_cost_ratio [OF x(1), of _ ?b "segment_start_quantity ?P"] x(2)
    by (simp add: pool_wf_def P'_def)
  moreover note alloc' = apply_quantity_restatement_wf [OF r alloc A', of P']
  have pools: "pool_of s' k = (if k = key then P' else pool_of s k)" "avco_allocation s' = A'" for k
    by (simp_all add: s' P'_def ab(4) pool_of_def touch_pool_def)
  have "avco_wf s'"
  proof (rule avco_wf_update [OF wf, where key = key])
    show "pool_wf (pool_of s' key)" using calculation pools by simp
    show "alloc_wf key (pool_of s' key) (avco_allocation s')" using alloc' pools by (simp add: P'_def)
    fix k assume k: "k \<noteq> key"
    have "pool_quantity P' = ?a" by (simp add: P'_def)
    from alloc' [OF this] have "book_agrees k ?A A'" using k avco_wfD(2) [OF wf, of k] by blast
    then show "pool_of s' k = pool_of s k \<and> book_agrees k (avco_allocation s) (avco_allocation s')"
      using k pools by simp
  qed
  then show ?thesis using alloc' pools by (simp add: P'_def)
qed

text \<open>A restatement that raises leaves every pool and the allocation as they were.\<close>

lemma avco_restate_raises:
  assumes "avco_restate_lot_quantities p i d s = (Inl e, s')"
  shows "avco_allocation s' = avco_allocation s \<and> (\<forall>k. pool_of s' k = pool_of s k)"
proof -
  have atomic: "A' = A" if "apply_quantity_restatement k r A = (Inl e, A')" for k r A A' e
    using that by (auto simp: apply_quantity_restatement_def obind_def split: sum.splits)
  show ?thesis
    using assms atomic
    by (auto simp: avco_restate_lot_quantities_def Let_def obind_def on_allocation_def on_pool_def
        split: sum.splits prod.splits)
qed

end
