(* ===== verification/Average_Cost_Disposal.thy ===== *)
theory Average_Cost_Disposal
  imports Average_Cost_Invariant
begin

text \<open>
  Average-cost disposal: the raw per-source deltas of two materialisations always reconcile to the
  pool's own disposal, so a sale within the holdings succeeds with conserving allocations.
\<close>

section \<open>Reconciling source deltas\<close>

lemma apportion_le:
  assumes "\<And>c. c \<in> set cs \<Longrightarrow> ledger_amount c \<and> 0 < c" "ledger_amount agg" "ledger_amount alloc" "0 \<le> alloc" "alloc \<le> agg"
    and "agg - alloc \<le> sum_list cs" and "apportion_loop cs agg f alloc = Inr ys"
  shows "list_all2 (\<lambda>c y. y \<le> c) cs ys"
  using assms
proof (induction cs agg f alloc arbitrary: ys rule: apportion_loop.induct)
  case (2 c agg f alloc)
  then show ?case by (auto simp: cost_state.policy_subtract_le)
next
  case (3 c d cs agg f alloc)
  define share where "share = min c (agg - alloc)"
  have rest: "ledger_amount (agg - alloc)" using 3 by (intro cost_state.policy_subtract_le)
  have c: "ledger_amount c" "0 < c" using "3.prems"(1) by auto
  have share: "ledger_amount share" "0 \<le> share" "share \<le> agg - alloc" "share \<le> c"
    using c rest "3.prems"(5) by (auto simp: share_def intro: storable_min)
  have alloc: "allocate_nonnegative_storage_share (max c 0) agg alloc f = Inr share"
    using storage_share [OF c(1) less_imp_le [OF c(2)] "3.prems"(2-5)] c by (simp add: share_def max_def)
  have lim: "alloc + share < ledger_limit" using share "3.prems"(2) by (auto simp: ledger_amount_iff)
  note add = nonneg_adds [OF "3.prems"(3,4) share(1,2) lim]
  obtain zs where zs: "apportion_loop (d # cs) agg f (alloc + share) = Inr zs" "ys = share # zs"
    using "3.prems"(7) alloc add(1) by (auto simp: rbind_eq_Inr)
  have pos: "0 \<le> sum_list (d # cs)" using "3.prems"(1) by (intro sum_list_nonneg') (auto intro: less_imp_le)
  have "agg - (alloc + share) \<le> sum_list (d # cs)"
    using "3.prems"(6) pos by (auto simp: share_def min_def split: if_splits)
  then have "list_all2 (\<lambda>c y. y \<le> c) (d # cs) zs"
    using "3.IH" [OF alloc add(1)] "3.prems"(1,2) add share zs by auto
  then show ?case using zs share by simp
qed simp

definition unr_wf :: "unreconciled_allocation \<Rightarrow> bool" where
  "unr_wf u \<longleftrightarrow> py_strip (unr_source_lot_id u) \<noteq> [] \<and> py_strip (unr_source_transaction_id u) \<noteq> [] \<and>
     ledger_amount (unr_consumed_quantity u) \<and> ledger_amount (unr_consumed_cost_local u) \<and>
     ledger_amount (unr_consumed_cost_base u) \<and> unr_consumed_quantity u \<le> unr_source_open_quantity_before u \<and>
     unr_source_open_quantity_before u \<le> unr_source_original_quantity u"

definition reconciled_row ::
  "nat \<times> (unreconciled_allocation \<times> rat) \<times> rat \<times> rat \<Rightarrow> source_lot_disposal_allocation" where
  "reconciled_row row =
     (case row of (ordinal, (a, quantity), cost_local, cost_base) \<Rightarrow>
       \<lparr>source_lot_id = py_strip (unr_source_lot_id a), source_transaction_id = py_strip (unr_source_transaction_id a),
        source_acquisition_date = unr_source_acquisition_date a, allocation_ordinal = ordinal,
        consumed_quantity = quantity, consumed_cost_local = cost_local, consumed_cost_base = cost_base,
        source_original_quantity = Some (unr_source_original_quantity a),
        source_open_quantity_before = Some (unr_source_open_quantity_before a), amortized_cost_evidence = None\<rparr>)"

lemma reconciled_allocation_wf:
  assumes "unr_wf a" "0 < q" "q \<le> unr_consumed_quantity a" "0 \<le> l" "0 \<le> b" "1 \<le> n"
  shows "reconciled_allocation (n, (a, q), l, b) = Inr (reconciled_row (n, (a, q), l, b))"
proof -
  have dec: "require_decimal x f p False = Inr ()" if "0 \<le> x" "p \<longrightarrow> 0 < x" for x f p
    using that by auto
  have ids: "required_text (unr_source_lot_id a) f = Inr (py_strip (unr_source_lot_id a))"
    "required_text (unr_source_transaction_id a) f = Inr (py_strip (unr_source_transaction_id a))" for f
    using assms by (auto simp: unr_wf_def)
  have "0 < unr_source_open_quantity_before a" "unr_source_open_quantity_before a \<le> unr_source_original_quantity a"
    "q \<le> unr_source_open_quantity_before a"
    using assms by (auto simp: unr_wf_def)
  then show ?thesis
    using assms by (simp add: reconciled_allocation_def SourceLotDisposalAllocation_def ids dec reconciled_row_def)
qed

lemma sum_filter_pos:
  fixes f :: "'a \<Rightarrow> rat"
  shows "(\<Sum>x\<leftarrow>xs. f x) \<le> (\<Sum>x\<leftarrow>filter (\<lambda>x. 0 < f x) xs. f x)"
    and "(\<And>x. x \<in> set xs \<Longrightarrow> 0 \<le> f x) \<Longrightarrow> (\<Sum>x\<leftarrow>filter (\<lambda>x. 0 < f x) xs. f x) = (\<Sum>x\<leftarrow>xs. f x)"
  by (induction xs) (auto simp: order_class.antisym_conv2 not_less order_antisym)

lemma reconcile_wf:
  assumes us: "\<And>u. u \<in> set us \<Longrightarrow> unr_wf u" and names: "distinct (map (\<lambda>u. py_strip (unr_source_lot_id u)) us)"
    and q: "(\<Sum>u\<leftarrow>us. unr_consumed_quantity u) = q" "0 < q" "ledger_amount q"
    and l: "ledger_amount cl" "0 \<le> cl" and b: "ledger_amount cb" "0 \<le> cb"
  shows "\<exists>as. reconcile_disposal_allocation_residuals us cb cl q = Inr as \<and>
    (\<forall>a \<in> set as. ledger_allocation a \<and> 0 < consumed_quantity a) \<and>
    (\<Sum>a\<leftarrow>as. consumed_quantity a) = q \<and> (\<Sum>a\<leftarrow>as. consumed_cost_local a) = cl \<and>
    (\<Sum>a\<leftarrow>as. consumed_cost_base a) = cb \<and>
    map allocation_ordinal as = [1..<length as + 1] \<and> distinct (map source_lot_id as) \<and> as \<noteq> []"
proof -
  define src where "src = filter (\<lambda>u. 0 < unr_consumed_quantity u) us"
  have src: "\<And>c. c \<in> set (map unr_consumed_quantity src) \<Longrightarrow> ledger_amount c \<and> 0 < c"
    using us by (auto simp: src_def unr_wf_def)
  have srcsum: "q \<le> (\<Sum>u\<leftarrow>src. unr_consumed_quantity u)"
    using sum_filter_pos(1) [of unr_consumed_quantity us] q by (simp add: src_def)
  then have ne: "src \<noteq> []" using q by auto
  obtain qs where qs: "apportion_loop (map unr_consumed_quantity src) q ''consumed_quantity'' 0 = Inr qs"
    "length qs = length src" "\<forall>y \<in> set qs. 0 \<le> y \<and> ledger_amount y" "sum_list qs = q"
    using apportion_loop_correct [of "map unr_consumed_quantity src" q 0 "''consumed_quantity''"] src q ne by force
  have qle: "list_all2 (\<lambda>c y. y \<le> c) (map unr_consumed_quantity src) qs"
    by (rule apportion_le [OF src q(3) _ _ _ _ qs(1)]) (use q srcsum in auto)
  define qa where "qa = filter (\<lambda>(a, x). 0 < x) (zip src qs)"
  have qa: "unr_wf a \<and> 0 < x \<and> x \<le> unr_consumed_quantity a \<and> ledger_amount x" if "(a, x) \<in> set qa" for a x
  proof -
    have "(a, x) \<in> set (zip src qs)" "0 < x" using that by (auto simp: qa_def)
    moreover from this obtain i where "i < length src" "a = src ! i" "x = qs ! i"
      using qs(2) by (auto simp: in_set_zip)
    moreover have "src ! i \<in> set us" if "i < length src" for i using nth_mem [OF that] by (auto simp: src_def)
    ultimately show ?thesis
      using qle qs(2,3) us by (auto simp: list_all2_conv_all_nth)
  qed
  have qasum: "(\<Sum>(a, x)\<leftarrow>qa. x) = q"
  proof -
    have "(\<Sum>(a, x)\<leftarrow>qa. x) = (\<Sum>(a, x)\<leftarrow>zip src qs. x)"
      unfolding qa_def case_prod_unfold
      by (rule sum_filter_pos(2)) (use qs(3) in \<open>auto dest: set_zip_rightD\<close>)
    then show ?thesis using qs(2,4) by (simp add: sum_zip_snd)
  qed
  then have qane: "qa \<noteq> []" using q by auto
  have cand: "ledger_amount c" if "c \<in> set (map (unr_consumed_cost_local \<circ> fst) qa) \<or> c \<in> set (map (unr_consumed_cost_base \<circ> fst) qa)" for c
    using that qa by (fastforce simp: unr_wf_def)
  obtain ls where ls: "apportion_loop (map (unr_consumed_cost_local \<circ> fst) qa) cl ''disposed_cost_local'' 0 = Inr ls"
    "length ls = length qa" "\<forall>y \<in> set ls. 0 \<le> y \<and> ledger_amount y" "sum_list ls = cl"
    using apportion_loop_correct [of "map (unr_consumed_cost_local \<circ> fst) qa" cl 0] cand l qane by force
  obtain bs where bs: "apportion_loop (map (unr_consumed_cost_base \<circ> fst) qa) cb ''disposed_cost_base'' 0 = Inr bs"
    "length bs = length qa" "\<forall>y \<in> set bs. 0 \<le> y \<and> ledger_amount y" "sum_list bs = cb"
    using apportion_loop_correct [of "map (unr_consumed_cost_base \<circ> fst) qa" cb 0] cand b qane by force
  define rows where "rows = enumerate 1 (zip qa (zip ls bs))"
  define as where "as = map reconciled_row rows"
  have row: "unr_wf a \<and> 0 < x \<and> x \<le> unr_consumed_quantity a \<and> ledger_amount x \<and> 0 \<le> y \<and> ledger_amount y \<and>
      0 \<le> z \<and> ledger_amount z \<and> 1 \<le> n" if "(n, (a, x), y, z) \<in> set rows" for n a x y z
  proof -
    have n: "1 \<le> n" "n - 1 < length (zip qa (zip ls bs))" "zip qa (zip ls bs) ! (n - 1) = ((a, x), y, z)"
      using that unfolding rows_def in_set_enumerate_eq by (simp_all del: One_nat_def, linarith)
    then have "((a, x), y, z) \<in> set (zip qa (zip ls bs))" by (metis nth_mem)
    then have "(a, x) \<in> set qa" "y \<in> set ls" "z \<in> set bs"
      by (auto dest: set_zip_leftD set_zip_rightD)
    then show ?thesis using n qa ls(3) bs(3) by auto
  qed
  have "rmap reconciled_allocation rows = Inr as"
    unfolding as_def
  proof (rule rmap_total)
    fix r assume r: "r \<in> set rows"
    obtain n a x y z where "r = (n, (a, x), y, z)" by (metis surj_pair)
    then show "reconciled_allocation r = Inr (reconciled_row r)"
      using row r by (auto intro!: reconciled_allocation_wf)
  qed
  then have "reconcile_disposal_allocation_residuals us cb cl q = Inr as"
    using qs(1) ls(1) bs(1) ne qane
    by (simp add: reconcile_disposal_allocation_residuals_def apportion_nonnegative_disposal_values_def
        flip: src_def qa_def rows_def del: One_nat_def)
  moreover have "\<forall>a \<in> set as. ledger_allocation a \<and> 0 < consumed_quantity a"
  proof
    fix a assume "a \<in> set as"
    then obtain n u x y z where r: "(n, (u, x), y, z) \<in> set rows" "a = reconciled_row (n, (u, x), y, z)"
      unfolding as_def by auto
    then show "ledger_allocation a \<and> 0 < consumed_quantity a"
      using row [OF r(1)] by (simp add: ledger_allocation_def reconciled_row_def)
  qed
  moreover have maps: "map consumed_quantity as = map snd qa" "map consumed_cost_local as = ls"
    "map consumed_cost_base as = bs" "map allocation_ordinal as = [1..<length as + 1]"
    "map source_lot_id as = map (\<lambda>u. py_strip (unr_source_lot_id u)) (map fst qa)" "length as = length qa"
    using ls(2) bs(2)
    by (auto intro!: nth_equalityI simp: as_def rows_def reconciled_row_def nth_enumerate_eq case_prod_unfold simp del: upt_Suc)
  moreover have "distinct (map source_lot_id as)"
  proof -
    have "distinct (map (\<lambda>u. py_strip (unr_source_lot_id u)) src)"
      unfolding src_def by (rule distinct_map_filter [OF names])
    moreover have "map (\<lambda>z. py_strip (unr_source_lot_id (fst z))) (zip src qs) =
        map (\<lambda>u. py_strip (unr_source_lot_id u)) (map fst (zip src qs))" by simp
    ultimately have "distinct (map (\<lambda>z. py_strip (unr_source_lot_id (fst z))) (zip src qs))"
      using qs(2) by simp
    then have "distinct (map (\<lambda>z. py_strip (unr_source_lot_id (fst z))) qa)"
      unfolding qa_def by (rule distinct_map_filter)
    then show ?thesis unfolding maps by (simp add: comp_def)
  qed
  ultimately show ?thesis using qasum ls(4) bs(4) qane by (auto simp: case_prod_unfold)
qed

section \<open>Selling from a book\<close>

definition state_delta ::
  "string \<times> source_contribution \<Rightarrow> open_lot_state \<Rightarrow> open_lot_state \<Rightarrow> unreconciled_allocation" where
  "state_delta source before after =
     \<lparr>unr_source_lot_id = ctb_source_lot_id (snd source), unr_source_transaction_id = fst source,
      unr_source_acquisition_date = ctb_source_acquisition_date (snd source),
      unr_consumed_quantity = ols_quantity before - ols_quantity after,
      unr_consumed_cost_local = ols_cost_local before - ols_cost_local after,
      unr_consumed_cost_base = ols_cost_base before - ols_cost_base after,
      unr_source_original_quantity = ols_original_quantity before,
      unr_source_open_quantity_before = ols_quantity before\<rparr>"

lemma nonneg_difference:
  assumes "ledger_amount a" "0 \<le> a" "ledger_amount b" "0 \<le> b"
  shows "policy_subtract state_policy f a b = Inr (a - b)" "ledger_amount (a - b)"
  using assms by (auto simp: cost_state.policy_subtract_exact ledger_amount_iff)

lemma unreconciled_source_disposal_wf:
  assumes "map_of before tid = Some b" "source_state c b" "0 < ctb_quantity c"
    and "a = (case map_of after tid of Some st \<Rightarrow> st
      | None \<Rightarrow> \<lparr>ols_original_quantity = ctb_quantity c, ols_quantity = 0, ols_cost_local = 0, ols_cost_base = 0,
          ols_amortized_cost = None\<rparr>)"
    and "\<And>st. map_of after tid = Some st \<Longrightarrow> source_state c st"
  shows "unreconciled_source_disposal before after (tid, c) = Inr (state_delta (tid, c) b a)"
proof -
  have closed: "closed_state (ctb_quantity c) = Inr \<lparr>ols_original_quantity = ctb_quantity c, ols_quantity = 0,
      ols_cost_local = 0, ols_cost_base = 0, ols_amortized_cost = None\<rparr>"
    using assms(3) by (simp add: closed_state_def OpenLotState_Inr)
  have "0 \<le> ols_quantity a \<and> ledger_amount (ols_quantity a) \<and> 0 \<le> ols_cost_local a \<and> ledger_amount (ols_cost_local a) \<and>
      0 \<le> ols_cost_base a \<and> ledger_amount (ols_cost_base a)"
    using assms(4,5) by (cases "map_of after tid") (auto simp: source_state_def)
  then show ?thesis
    using assms(1,2) closed nonneg_difference
    by (simp add: unreconciled_source_disposal_def state_of_def state_delta_def source_state_def flip: assms(4))
qed

text \<open>The states of a materialised book, looked up by source.\<close>

lemma materialized_lookup:
  assumes "materialized A key pool states" "distinct (map fst (book_sources A key))" "i < length (book_sources A key)"
  shows "map_of states (fst (book_sources A key ! i)) = Some (snd (states ! i))"
    "source_state (snd (book_sources A key ! i)) (snd (states ! i))" "length states = length (book_sources A key)"
proof -
  have all: "list_all2 (\<lambda>(tid, c) (tid', s). tid' = tid \<and> source_state c s) (book_sources A key) states"
    using assms(1) by (simp add: materialized_def)
  show len: "length states = length (book_sources A key)" using list_all2_lengthD [OF all] by simp
  have nth: "fst (states ! j) = fst (book_sources A key ! j) \<and> source_state (snd (book_sources A key ! j)) (snd (states ! j))"
    if "j < length (book_sources A key)" for j
    using list_all2_nthD [OF all that] by (simp add: case_prod_unfold)
  have "map fst states = map fst (book_sources A key)"
    using nth len by (intro nth_equalityI) (auto simp del: fst_book_sources)
  then have "distinct (map fst states)" using assms(2) by simp
  moreover have "(fst (book_sources A key ! i), snd (states ! i)) \<in> set states"
    using nth [OF assms(3)] assms(3) len by (metis nth_mem prod.collapse)
  ultimately show "map_of states (fst (book_sources A key ! i)) = Some (snd (states ! i))" by simp
  show "source_state (snd (book_sources A key ! i)) (snd (states ! i))" using nth [OF assms(3)] by simp
qed

lemma book_deltas_wf:
  assumes wf: "alloc_wf key pool A" and before: "materialized A key pool before"
    and after: "materialized A' key pool' after" "book_sources A' key = (if pool_quantity pool' = 0 then [] else book_sources A key)"
  shows "\<exists>us. rmap (unreconciled_source_disposal before after) (book_sources A key) = Inr us \<and>
    (\<forall>u \<in> set us. unr_wf u) \<and> distinct (map (\<lambda>u. py_strip (unr_source_lot_id u)) us) \<and>
    (\<Sum>u\<leftarrow>us. unr_consumed_quantity u) = pool_quantity pool - pool_quantity pool'"
proof -
  let ?src = "book_sources A key"
  have dist: "distinct (map fst ?src)" using wf by (simp add: alloc_wf_def)
  note lookup = materialized_lookup [OF before dist]
  define closed where "closed c = \<lparr>ols_original_quantity = ctb_quantity c, ols_quantity = 0, ols_cost_local = 0,
    ols_cost_base = 0, ols_amortized_cost = None\<rparr>" for c :: source_contribution
  define post where "post src = (case map_of after (fst src) of Some st \<Rightarrow> st | None \<Rightarrow> closed (snd src))"
    for src :: "string \<times> source_contribution"
  define us where "us = map2 (\<lambda>src st. state_delta src (snd st) (post src)) ?src before"
  have len: "length before = length ?src" and lenaft: "length after = length (book_sources A' key)"
    using before after(1) unfolding materialized_def by (auto dest: list_all2_lengthD)
  have aft: "after = []" if "pool_quantity pool' = 0" using that lenaft after(2) by simp
  have src: "source_wf A key (snd (?src ! i))" "py_strip (fst (?src ! i)) \<noteq> []" "py_strip (ctb_source_lot_id (snd (?src ! i))) \<noteq> []"
    if "i < length ?src" for i
    using wf nth_mem [OF that] unfolding alloc_wf_def by (auto simp: case_prod_unfold)
  have post: "post (?src ! i) = (if pool_quantity pool' = 0 then closed (snd (?src ! i)) else snd (after ! i)) \<and>
      (pool_quantity pool' \<noteq> 0 \<longrightarrow> source_state (snd (?src ! i)) (snd (after ! i)) \<and> length after = length ?src)"
    if "i < length ?src" for i
  proof (cases "pool_quantity pool' = 0")
    case True
    then show ?thesis using aft by (simp add: post_def)
  next
    case False
    then show ?thesis
      using materialized_lookup [OF after(1)] after(2) dist that by (simp add: post_def)
  qed
  have amounts: "0 \<le> ols_quantity (post (?src ! i)) \<and> ledger_amount (ols_quantity (post (?src ! i))) \<and>
      0 \<le> ols_cost_local (post (?src ! i)) \<and> ledger_amount (ols_cost_local (post (?src ! i))) \<and>
      0 \<le> ols_cost_base (post (?src ! i)) \<and> ledger_amount (ols_cost_base (post (?src ! i)))" if "i < length ?src" for i
    using post [OF that] by (auto simp: closed_def source_state_def)
  have step: "unreconciled_source_disposal before after (?src ! i) = Inr (us ! i)" if i: "i < length ?src" for i
  proof -
    have "unreconciled_source_disposal before after (fst (?src ! i), snd (?src ! i)) =
      Inr (state_delta (fst (?src ! i), snd (?src ! i)) (snd (before ! i)) (post (?src ! i)))"
    proof (rule unreconciled_source_disposal_wf [OF lookup(1,2) [OF i]])
      show "0 < ctb_quantity (snd (?src ! i))" using src(1) [OF i] by (simp add: source_wf_def)
      show "source_state (snd (?src ! i)) st" if "map_of after (fst (?src ! i)) = Some st" for st
      proof (cases "pool_quantity pool' = 0")
        case True
        then show ?thesis using aft that by simp
      qed (use post [OF i] that in \<open>simp add: post_def\<close>)
    qed (simp add: post_def closed_def split: option.split)
    then show ?thesis using i len by (simp add: us_def)
  qed
  have lenus: "length us = length ?src" using len by (simp add: us_def)
  have "rmap (unreconciled_source_disposal before after) ?src = Inr us"
    using step lenus by (intro rmap_nthI) auto
  moreover have "unr_wf u" if mem: "u \<in> set us" for u
  proof -
    obtain i where i: "i < length ?src" "u = us ! i" using mem lenus by (auto simp: in_set_conv_nth)
    then have u: "u = state_delta (?src ! i) (snd (before ! i)) (post (?src ! i))" using len by (simp add: us_def)
    show ?thesis
      using src [OF i(1)] amounts [OF i(1)] lookup(2) [OF i(1)]
      by (auto simp: u unr_wf_def state_delta_def source_state_def intro!: nonneg_difference)
  qed
  moreover have "map (\<lambda>u. py_strip (unr_source_lot_id u)) us = source_names ?src"
    using len by (intro nth_equalityI) (auto simp: us_def state_delta_def case_prod_unfold)
  then have "distinct (map (\<lambda>u. py_strip (unr_source_lot_id u)) us)" using wf by (simp add: alloc_wf_def)
  moreover have "(\<Sum>u\<leftarrow>us. unr_consumed_quantity u) = pool_quantity pool - pool_quantity pool'"
  proof -
    have "map unr_consumed_quantity us = map2 (\<lambda>st p. ols_quantity (snd st) - ols_quantity p) before (map post ?src)"
      using len by (intro nth_equalityI) (auto simp: us_def state_delta_def)
    moreover have "(\<Sum>p\<leftarrow>map post ?src. ols_quantity p) = pool_quantity pool'"
    proof (cases "pool_quantity pool' = 0")
      case True
      have "map ols_quantity (map post ?src) = map (\<lambda>_. 0) ?src"
        unfolding map_map by (rule nth_equalityI) (use True post in \<open>auto simp: closed_def\<close>)
      then show ?thesis using True by (simp only: sum_list_0)
    next
      case False
      have "length after = length ?src" using lenaft after(2) False by simp
      then have "map ols_quantity (map post ?src) = map (\<lambda>(tid, s). ols_quantity s) after"
        using False post unfolding map_map by (intro nth_equalityI) (auto simp: case_prod_unfold)
      then show ?thesis using after(1) by (simp only: materialized_def)
    qed
    moreover have "states_quantity before = pool_quantity pool" using before by (simp add: materialized_def)
    ultimately show ?thesis
      using sum_zip_diff [where xs = before and ys = "map ols_quantity (map post ?src)" and f = "ols_quantity \<circ> snd"] len
      by (simp add: case_prod_unfold zip_map2 comp_def)
  qed
  ultimately show ?thesis by blast
qed

text \<open>A successful result of the disposal constructor, from conserving ledger allocations.\<close>

lemma LotDisposalResult_conserving:
  assumes "\<forall>a \<in> set as. ledger_allocation a" "map allocation_ordinal as = [1..<length as + 1]"
    "distinct (map source_lot_id as)" "as \<noteq> []"
    and "(\<Sum>a\<leftarrow>as. consumed_quantity a) = q" "(\<Sum>a\<leftarrow>as. consumed_cost_local a) = l" "(\<Sum>a\<leftarrow>as. consumed_cost_base a) = b"
    and "0 < q" "q < ledger_limit" "0 \<le> l" "l < ledger_limit" "0 \<le> b" "b < ledger_limit"
    and r: "r = \<lparr>ldr_cost_base = b, ldr_cost_local = l, ldr_consumed_quantity = q, ldr_allocations = as, ldr_error_reason = None\<rparr>"
  shows "LotDisposalResult r = Inr r"
proof -
  have "build_conserved_allocation_lineage r = Inr ()"
    by (rule disposal_lineage_ok) (use assms in auto)
  then show ?thesis using assms by (simp add: LotDisposalResult_def require_decimal_def)
qed

lemma avco_consume_wf:
  assumes wf: "avco_wf s" and q: "ledger_amount q" "0 < q" and key: "key = (p, i)"
    and avail: "q \<le> pool_quantity (pool_of s key)"
  shows "\<exists>r s'. avco_consume_sell_quantity_with_allocations p i q s = (Inr r, s') \<and> avco_wf s' \<and>
    ldr_error_reason r = None \<and> ldr_consumed_quantity r = q \<and>
    (\<Sum>a\<leftarrow>ldr_allocations r. consumed_quantity a) = q \<and>
    (\<Sum>a\<leftarrow>ldr_allocations r. consumed_cost_local a) = ldr_cost_local r \<and>
    (\<Sum>a\<leftarrow>ldr_allocations r. consumed_cost_base a) = ldr_cost_base r \<and>
    (\<forall>a \<in> set (ldr_allocations r). ledger_allocation a \<and> 0 < consumed_quantity a) \<and>
    pool_quantity (pool_of s' key) = pool_quantity (pool_of s key) - q \<and>
    ldr_cost_local r + pool_cost_local (pool_of s' key) = pool_cost_local (pool_of s key) \<and>
    ldr_cost_base r + pool_cost_base (pool_of s' key) = pool_cost_base (pool_of s key) \<and>
    segment_start_quantity (pool_of s' key) = segment_start_quantity (pool_of s key) \<and>
    segment_start_cost_local (pool_of s' key) = segment_start_cost_local (pool_of s key) \<and>
    segment_start_cost_base (pool_of s' key) = segment_start_cost_base (pool_of s key) \<and>
    (\<forall>k. k \<noteq> key \<longrightarrow> pool_of s' k = pool_of s k)"
proof -
  let ?A = "avco_allocation s" and ?P = "pool_of s key"
  have pool: "pool_wf ?P" and alloc: "alloc_wf key ?P ?A" using avco_wfD [OF wf] by auto
  obtain before where before: "materialize_book key ?P ?A = Inr before" "materialized ?A key ?P before"
    using materialize_book_wf [OF alloc pool] by blast
  obtain b l P' where P': "pool_dispose q ?P = (Inr (b, l), P')" "pool_wf P'" "pool_quantity P' = pool_quantity ?P - q"
    "b = pool_cost_base ?P - pool_cost_base P'" "l = pool_cost_local ?P - pool_cost_local P'"
    "0 \<le> b" "ledger_amount b" "0 \<le> l" "ledger_amount l" "segment_start_quantity P' = segment_start_quantity ?P"
    "segment_start_cost_local P' = segment_start_cost_local ?P" "segment_start_cost_base P' = segment_start_cost_base ?P"
    using pool_dispose_wf [OF pool q avail] by blast
  have pos: "0 < pool_quantity ?P" using q avail by linarith
  have aft: "0 \<le> pool_quantity P'" "pool_quantity P' < pool_quantity ?P" "ledger_amount (pool_quantity P')"
    using P'(2,3) q avail by (auto simp: pool_wf_def)
  obtain A' where A': "apply_disposal key (pool_quantity ?P) (pool_quantity P') ?A = (Inr (), A')" "alloc_wf key P' A'"
    "\<forall>k. k \<noteq> key \<longrightarrow> book_agrees k ?A A'"
    "book_sources A' key = (if pool_quantity P' = 0 then [] else book_sources ?A key)"
    using apply_disposal_wf [OF alloc pos aft refl] by blast
  obtain after where after: "materialize_book key P' A' = Inr after" "materialized A' key P' after"
    using materialize_book_wf [OF A'(2) P'(2)] by blast
  obtain us where us: "rmap (unreconciled_source_disposal before after) (book_sources ?A key) = Inr us"
    "\<forall>u \<in> set us. unr_wf u" "distinct (map (\<lambda>u. py_strip (unr_source_lot_id u)) us)"
    "(\<Sum>u\<leftarrow>us. unr_consumed_quantity u) = q"
    using book_deltas_wf [OF alloc before(2) after(2) A'(4)] P'(3) by auto
  obtain as where as: "reconcile_disposal_allocation_residuals us b l q = Inr as"
    "\<forall>a \<in> set as. ledger_allocation a \<and> 0 < consumed_quantity a" "(\<Sum>a\<leftarrow>as. consumed_quantity a) = q"
    "(\<Sum>a\<leftarrow>as. consumed_cost_local a) = l" "(\<Sum>a\<leftarrow>as. consumed_cost_base a) = b"
    "map allocation_ordinal as = [1..<length as + 1]" "distinct (map source_lot_id as)" "as \<noteq> []"
    using reconcile_wf [OF bspec [OF us(2)] us(3,4) q(2,1) P'(9,8,7,6)] by blast
  define r where "r = \<lparr>ldr_cost_base = b, ldr_cost_local = l, ldr_consumed_quantity = q, ldr_allocations = as,
    ldr_error_reason = None\<rparr>"
  have r: "LotDisposalResult r = Inr r"
    using LotDisposalResult_conserving [OF _ as(6,7,8,3,4,5) q(2) _ P'(8) _ P'(6) _ r_def] as(2) q P'(7,9)
    by (auto simp: ledger_amount_iff)
  define s1 where "s1 = (touch_pool key s)\<lparr>avco_pools := dict_set key P' (avco_pools (touch_pool key s))\<rparr>"
  define s' where "s' = s1\<lparr>avco_allocation := A'\<rparr>"
  have s1: "on_pool key (pool_dispose q) (touch_pool key s) = (Inr (b, l), s1)" "pool_of s1 key = P'" "avco_allocation s1 = ?A"
    using P'(1) by (simp_all add: s1_def on_pool_def)
  have s': "on_allocation (apply_disposal key (pool_quantity ?P) (pool_quantity P')) s1 = (Inr (), s')"
    using A'(1) s1(3) by (simp add: on_allocation_def s'_def)
  have pools: "pool_of s' k = (if k = key then P' else pool_of s k)" "avco_allocation s' = A'" for k
    by (simp_all add: s'_def s1_def)
  have ne: "\<not> pool_quantity ?P < q" "pool_quantity ?P \<noteq> 0" "q \<noteq> 0" "non_positive_sell_quantity_error q = None"
    using q avail by (auto simp: non_positive_sell_quantity_error_def)
  have "avco_consume_sell_quantity_with_allocations p i q s = (Inr r, s')"
    unfolding avco_consume_sell_quantity_with_allocations_def Let_def key [symmetric]
    using ne active_source_contributions_wf [OF alloc] before(1) s1 s' pools after(1) us(1) as(1) r
    by (simp add: r_def)
  moreover have "avco_wf s'"
    by (rule avco_wf_update [OF wf, where key = key]) (use pools P'(2) A'(2,3) in auto)
  ultimately show ?thesis
    using as(2-5) P'(3-5,10-12) pools by (intro exI [of _ r] exI [of _ s']) (simp add: r_def)
qed

end
