(* ===== verification/Fifo_Properties.thy ===== *)
theory Fifo_Properties
  imports Fifo_Transfer
begin

text \<open>
  The FIFO strategy as its callers see it: what each operation of \<open>FIFOBasisStrategy\<close> does to a
  well-formed set of books, and what it leaves behind when it raises.
\<close>

section \<open>A sample book\<close>

definition sample_lot :: "string \<Rightarrow> rat \<Rightarrow> rat \<Rightarrow> rat \<Rightarrow> cost_lot" where
  "sample_lot tid q local base =
     \<lparr>lot_transaction_id = tid, lot_id = ''LOT-'' @ tid, acquisition_date = 1, lot_original_quantity = q,
      remaining_quantity = q,
      cost_per_share_local = sig_round (context_precision state_policy) (local / q),
      cost_per_share_base = sig_round (context_precision state_policy) (base / q)\<rparr>"

definition sample_book :: "cost_lot list \<Rightarrow> fifo_state" where
  "sample_book ls =
     \<lparr>fifo_store = ls, fifo_open_lots = (\<lambda>k. if k = (''P'', ''I'') then [0..<length ls] else []),
      lots_by_transaction_id = zip (map lot_transaction_id ls) [0..<length ls],
      available_quantities = (\<lambda>k. if k = (''P'', ''I'') then book_quantity ls else 0)\<rparr>"

lemma sample_lot_wf:
  assumes "ledger_amount q" "0 < q" "ledger_amount local" "0 \<le> local" "ledger_amount base" "0 \<le> base"
    and "py_strip tid \<noteq> []" "py_strip (''LOT-'' @ tid) \<noteq> []"
  shows "open_lot_wf (sample_lot tid q local base)"
    and "lot_cost_local (sample_lot tid q local base) = local"
    and "lot_cost_base (sample_lot tid q local base) = base"
    and "remaining_quantity (sample_lot tid q local base) = q"
proof -
  note lot = new_lot_wf [OF assms(1,2) order_refl assms(3-6) sample_lot_def [of tid q local base]]
  show "lot_cost_local (sample_lot tid q local base) = local" "lot_cost_base (sample_lot tid q local base) = base"
    by (rule lot)+
  show "remaining_quantity (sample_lot tid q local base) = q" by (simp add: sample_lot_def)
  show "open_lot_wf (sample_lot tid q local base)"
    using lot(1) assms(2,7,8) by (simp add: open_lot_wf_def lot_named_def sample_lot_def)
qed

lemma sample_book_lots: "book_lots (sample_book ls) (''P'', ''I'') = ls"
  by (simp add: book_lots_def sample_book_def map_nth)

lemma sample_book_wf:
  assumes "\<And>l. l \<in> set ls \<Longrightarrow> open_lot_wf l" "distinct (lot_names ls)" "book_quantity ls < ledger_limit"
  shows "fifo_wf (sample_book ls)"
proof -
  have "ledger_amount (book_quantity ls)"
    using assms(1,3) by (intro ledger_amount_sum_map) (auto dest: open_lot_wfD intro: less_imp_le)
  then have "book_wf (sample_book ls) (''P'', ''I'')"
    unfolding book_wf_def sample_book_lots using assms by (auto simp: sample_book_def)
  moreover have "book_wf (sample_book ls) k" if "k \<noteq> (''P'', ''I'')" for k
    using that by (auto simp: book_wf_def book_lots_def sample_book_def)
  ultimately have books: "book_wf (sample_book ls) k" for k by (cases "k = (''P'', ''I'')") auto
  have lots: "lot_wf (fifo_store (sample_book ls) ! a)" if "a < length (fifo_store (sample_book ls))" for a
    using that open_lot_wfD(1) [OF assms(1)] by (simp add: sample_book_def)
  show ?thesis
    by (rule fifo_wfI [OF books _ lots]) (auto simp: sample_book_def set_zip split: if_splits)
qed

definition two_lots :: "cost_lot list" where
  "two_lots = [sample_lot ''A'' 10 100 120, sample_lot ''B'' 20 300 330]"

lemma sample_numbers:
  "ledger_amount 0" "ledger_amount 1" "ledger_amount 2" "ledger_amount 5" "ledger_amount 10" "ledger_amount 20" "ledger_amount 30"
  "ledger_amount 40" "ledger_amount 50" "ledger_amount 60" "ledger_amount 100" "ledger_amount 120" "ledger_amount 200"
  "ledger_amount 300" "ledger_amount 330" "ledger_amount 400" "ledger_amount 450" "ledger_amount 25" "ledger_amount 15"
  by (simp_all add: ledger_amount_iff)

lemma sample_ids: "py_strip ''A'' = ''A''" "py_strip ''B'' = ''B''" "py_strip ''C'' = ''C''" "py_strip ''D'' = ''D''"
  "py_strip ''LOT-A'' = ''LOT-A''" "py_strip ''LOT-B'' = ''LOT-B''" "py_strip ''LOT-C'' = ''LOT-C''" "py_strip ''LOT-D'' = ''LOT-D''"
  by (simp_all add: py_strip_def py_lstrip_def is_py_space_def)

lemma two_lots_wf:
  "fifo_wf (sample_book two_lots)" "book_quantity two_lots = 30" "book_cost_local two_lots = 400"
  "book_cost_base two_lots = 450" "available_quantities (sample_book two_lots) (''P'', ''I'') = 30"
proof -
  have "open_lot_wf (sample_lot ''A'' 10 100 120)" "open_lot_wf (sample_lot ''B'' 20 300 330)"
    by (rule sample_lot_wf; simp add: sample_numbers sample_ids)+
  moreover have "lot_names two_lots = [''LOT-A'', ''LOT-B'']"
    by (simp add: two_lots_def sample_lot_def sample_ids)
  moreover show q: "book_quantity two_lots = 30" by (simp add: two_lots_def sample_lot_def)
  ultimately show "fifo_wf (sample_book two_lots)"
    by (intro sample_book_wf) (auto simp: two_lots_def)
  show "book_cost_local two_lots = 400" "book_cost_base two_lots = 450"
    by (simp_all add: two_lots_def sample_lot_wf(2,3) sample_numbers sample_ids)
  show "available_quantities (sample_book two_lots) (''P'', ''I'') = 30"
    using q by (simp add: sample_book_def)
qed

section \<open>Disposal\<close>

text \<open>
  C1. Selling from a well-formed FIFO book always succeeds for a positive ledger quantity within
  the available holdings (book cost below the ledger magnitude): the result carries exactly the
  first-in-first-out allocations, the sold quantity, and cost totals equal to the drop in the
  book's local and base basis; the book that remains is the FIFO remainder, the available quantity
  drops by the sold quantity, every other book is untouched and the invariant holds again.
\<close>

theorem fifo_consume_correct:
  assumes "fifo_wf s" and "ledger_amount q" and "0 < q" and "q \<le> available_quantities s (p, i)"
    and "book_cost_local (book_lots s (p, i)) < ledger_limit"
    and "book_cost_base (book_lots s (p, i)) < ledger_limit"
  shows "\<exists>r s'. fifo_consume_sell_quantity_with_allocations p i q s = (Inr r, s') \<and> fifo_wf s' \<and>
    ldr_error_reason r = None \<and> ldr_consumed_quantity r = q \<and>
    ldr_allocations r = fifo_take 1 (book_lots s (p, i)) q \<and>
    (\<Sum>a\<leftarrow>ldr_allocations r. consumed_quantity a) = q \<and>
    ldr_cost_local r = (\<Sum>a\<leftarrow>ldr_allocations r. consumed_cost_local a) \<and>
    ldr_cost_base r = (\<Sum>a\<leftarrow>ldr_allocations r. consumed_cost_base a) \<and>
    book_lots s' (p, i) = fifo_rest (book_lots s (p, i)) q \<and>
    ldr_cost_local r + book_cost_local (book_lots s' (p, i)) = book_cost_local (book_lots s (p, i)) \<and>
    ldr_cost_base r + book_cost_base (book_lots s' (p, i)) = book_cost_base (book_lots s (p, i)) \<and>
    fifo_get_available_quantity p i s' = fifo_get_available_quantity p i s - q \<and>
    (\<forall>key. key \<noteq> (p, i) \<longrightarrow> book_lots s' key = book_lots s key)"
proof -
  have lots: "\<And>l. l \<in> set (book_lots s (p, i)) \<Longrightarrow> open_lot_wf l"
    using fifo_wfD(1) [OF assms(1)] by (rule book_lots_open)
  have avail: "available_quantities s (p, i) = book_quantity (book_lots s (p, i))"
    using fifo_wfD(1) [OF assms(1), of "(p, i)"] by (simp add: book_wf_def)
  have "(\<Sum>a\<leftarrow>fifo_take 1 (book_lots s (p, i)) q. consumed_quantity a) = q"
    using fifo_take_quantity [of "book_lots s (p, i)" q 1] lots assms(3,4) avail by simp
  then show ?thesis
    using fifo_consume_wf [OF assms(1-3) refl assms(4-6)]
    by (auto simp: fifo_take_costs fifo_get_available_quantity_def)
qed

theorem fifo_consume_correct_witness:
  "\<exists>r s'. fifo_consume_sell_quantity_with_allocations ''P'' ''I'' 15 (sample_book two_lots) = (Inr r, s') \<and>
    ldr_error_reason r = None \<and> ldr_consumed_quantity r = 15 \<and>
    fifo_get_available_quantity ''P'' ''I'' s' = 15"
  using fifo_consume_correct [of "sample_book two_lots" 15 "''P''" "''I''"] two_lots_wf
  by (auto simp: sample_book_lots sample_numbers fifo_get_available_quantity_def)

text \<open>
  C15. The rejected sells change nothing: a negative quantity, a quantity above the available
  holdings and a zero quantity each return their own result with no economics, and the state is
  the one before the call.
\<close>

theorem fifo_consume_rejected:
  assumes "q \<le> 0 \<or> available_quantities s (p, i) < q"
  shows "fifo_consume_sell_quantity_with_allocations p i q s =
    (Inr \<lparr>ldr_cost_base = 0, ldr_cost_local = 0, ldr_consumed_quantity = 0, ldr_allocations = [],
      ldr_error_reason =
        (if q < 0 then Some (SellQuantityNegative q)
         else if available_quantities s (p, i) < q
         then Some (SellExceedsHoldings q (available_quantities s (p, i))) else None)\<rparr>, s)"
  using assms
  by (auto simp: fifo_consume_sell_quantity_with_allocations_def non_positive_sell_quantity_error_def
      disposal_failed_eq disposal_empty_eq Let_def)

theorem fifo_consume_rejected_witness:
  "fifo_consume_sell_quantity_with_allocations ''P'' ''I'' 31 (sample_book two_lots) =
    (Inr \<lparr>ldr_cost_base = 0, ldr_cost_local = 0, ldr_consumed_quantity = 0, ldr_allocations = [],
      ldr_error_reason = Some (SellExceedsHoldings 31 30)\<rparr>, sample_book two_lots)"
  using fifo_consume_rejected [of 31 "sample_book two_lots" "''P''" "''I''"] two_lots_wf(5) by simp

section \<open>Acquisition\<close>

lemma fifo_add_buy_lot_step:
  assumes "net_cost t = Some base" "net_cost_local t = Some local" "0 < txn_quantity t" "0 \<le> base" "0 \<le> local"
    and "new_cost_lot t (txn_quantity t) base local = Inr l"
  shows "fifo_add_buy_lot t s =
    (case policy_add state_policy ''available_quantity'' (available_quantities s (transaction_key t)) (txn_quantity t) of
       Inl e \<Rightarrow> (Inl e, fifo_append_lot (transaction_key t) l s)
     | Inr a \<Rightarrow> (Inr (), (fifo_append_lot (transaction_key t) l s)\<lparr>available_quantities :=
         (available_quantities s)(transaction_key t := a)\<rparr>))"
  using assms
  by (simp add: fifo_add_buy_lot_def validated_buy_lot_inputs_def require_buy_lot_cost_basis_def
      should_skip_empty_buy_lot_def validate_non_negative_buy_lot_cost_basis_def fifo_append_lot_def Let_def
      split: sum.split)

text \<open>What a bookable acquisition looks like.\<close>

definition bookable_buy :: "cost_basis_transaction \<Rightarrow> rat \<Rightarrow> rat \<Rightarrow> rat \<Rightarrow> bool" where
  "bookable_buy t original local base \<longleftrightarrow>
     net_cost t = Some base \<and> net_cost_local t = Some local \<and>
     ledger_amount (txn_quantity t) \<and> 0 < txn_quantity t \<and> txn_quantity t \<le> original \<and>
     ledger_amount base \<and> 0 \<le> base \<and> ledger_amount local \<and> 0 \<le> local \<and>
     source_lot_original_quantity_of t (txn_quantity t) = Inr original \<and>
     py_strip (transaction_id t) \<noteq> [] \<and> py_strip (''LOT-'' @ transaction_id t) \<noteq> []"

text \<open>
  C17. Booking a lot: for a transaction with a positive ledger quantity and non-negative ledger
  costs, whose lot name is new in its book, \<open>add_buy_lot\<close> appends one lot whose open state shows
  the booked quantity and exactly the booked local and base cost (the per-share division loses
  nothing), raises the available quantity by the booked quantity and keeps the invariant.
\<close>

theorem fifo_add_buy_lot_correct:
  assumes "fifo_wf s" and "bookable_buy t original local base" and "key = transaction_key t"
    and "py_strip (''LOT-'' @ transaction_id t) \<notin> set (lot_names (book_lots s key))"
    and "available_quantities s key + txn_quantity t < ledger_limit"
  shows "\<exists>l s'. fifo_add_buy_lot t s = (Inr (), s') \<and> fifo_wf s' \<and> book_lots s' key = book_lots s key @ [l] \<and>
    open_state l = Inr \<lparr>ols_original_quantity = original, ols_quantity = txn_quantity t,
      ols_cost_local = local, ols_cost_base = base, ols_amortized_cost = None\<rparr> \<and>
    lot_transaction_id l = transaction_id t \<and> acquisition_date l = utc_transaction_date t \<and>
    available_quantities s' = (available_quantities s)(key := available_quantities s key + txn_quantity t) \<and>
    (\<forall>key'. key' \<noteq> key \<longrightarrow> book_lots s' key' = book_lots s key')"
proof -
  note t = assms(2) [unfolded bookable_buy_def]
  obtain l where l: "new_cost_lot t (txn_quantity t) base local = Inr l" "open_lot_wf l"
    "lot_transaction_id l = transaction_id t" "lot_id l = ''LOT-'' @ transaction_id t"
    "acquisition_date l = utc_transaction_date t"
    "lot_view l = \<lparr>ols_original_quantity = original, ols_quantity = txn_quantity t, ols_cost_local = local,
       ols_cost_base = base, ols_amortized_cost = None\<rparr>"
    by (rule new_cost_lot_wf [of "txn_quantity t" base local t original]) (use t in auto)
  have q: "remaining_quantity l = txn_quantity t" using l(6) by (metis lot_view_simps(2) open_lot_state.select_convs(2))
  have book: "book_wf s key" by (rule fifo_wfD(1) [OF assms(1)])
  have "0 \<le> available_quantities s key"
    using book book_quantity_nonneg [of "book_lots s key"] book_lots_open [OF book] by (auto simp: book_wf_def)
  then have add: "policy_add state_policy f (available_quantities s key) (txn_quantity t) =
      Inr (available_quantities s key + txn_quantity t)"
    "ledger_amount (available_quantities s key + txn_quantity t)" for f
    using assms(5) book t by (auto intro!: nonneg_adds simp: book_wf_def)
  define s' where "s' = (fifo_append_lot key l s)\<lparr>available_quantities :=
    (available_quantities s)(key := available_quantities s key + remaining_quantity l)\<rparr>"
  have "fifo_add_buy_lot t s = (Inr (), s')"
    using fifo_add_buy_lot_step [of t base local l s] t l(1) add assms(3) by (simp add: s'_def q)
  moreover have "fifo_wf s' \<and> book_lots s' key = book_lots s key @ [l] \<and>
    (\<forall>key'. key' \<noteq> key \<longrightarrow> book_lots s' key' = book_lots s key')"
    using assms(1,4) l(2,4) add(2) by (intro fifo_append_wf [OF _ _ _ _ s'_def]) (simp_all add: q)
  ultimately show ?thesis
    using open_state_wf [OF open_lot_wfD(1) [OF l(2)]] l(3,5,6)
    by (intro exI [of _ l] exI [of _ s']) (simp add: s'_def q)
qed

definition sample_buy :: "rat \<Rightarrow> cost_basis_transaction" where
  "sample_buy q = (plain_transaction ''C'' ''BUY'' q 50)\<lparr>net_cost := Some 60, net_cost_local := Some 50\<rparr>"

lemma sample_buy_bookable: "ledger_amount q \<Longrightarrow> 0 < q \<Longrightarrow> bookable_buy (sample_buy q) q 50 60"
  by (simp add: bookable_buy_def sample_buy_def plain_transaction_def source_lot_original_quantity_of_def
      resolve_source_lot_original_quantity_def sample_numbers sample_ids)

lemma sample_buy_simps [simp]:
  "transaction_id (sample_buy q) = ''C''" "txn_quantity (sample_buy q) = q"
  "transaction_key (sample_buy q) = (''P'', ''I'')"
  by (simp_all add: sample_buy_def plain_transaction_def transaction_key_def)

theorem fifo_add_buy_lot_correct_witness:
  "\<exists>l s'. fifo_add_buy_lot (sample_buy 5) (sample_book two_lots) = (Inr (), s') \<and>
    book_lots s' (''P'', ''I'') = two_lots @ [l] \<and>
    open_state l = Inr \<lparr>ols_original_quantity = 5, ols_quantity = 5, ols_cost_local = 50, ols_cost_base = 60,
      ols_amortized_cost = None\<rparr>"
proof -
  have names: "set (lot_names two_lots) = {''LOT-A'', ''LOT-B''}"
    by (simp add: two_lots_def sample_lot_def sample_ids)
  show ?thesis
    using fifo_add_buy_lot_correct [OF two_lots_wf(1) sample_buy_bookable [of 5] refl] two_lots_wf(5) names
    by (auto simp: sample_book_lots sample_numbers sample_ids)
qed

text \<open>
  C19. \<open>add_buy_lot\<close> is not atomic: when the new available quantity exceeds the ledger magnitude it
  raises \<open>MAGNITUDE_OVERFLOW\<close> after the lot has been appended. The lot stays in the book and in
  the lot dictionary while the available quantity keeps its old value, so the invariant is broken.
\<close>

theorem fifo_add_buy_lot_overflow:
  assumes "fifo_wf s" and "bookable_buy t original local base" and "key = transaction_key t"
    and "ledger_limit \<le> available_quantities s key + txn_quantity t"
  shows "\<exists>l s'. fifo_add_buy_lot t s =
      (Inl (DecimalPrecisionError ''available_quantity'' MAGNITUDE_OVERFLOW (policy_id state_policy)), s') \<and>
    book_lots s' key = book_lots s key @ [l] \<and> lot_transaction_id l = transaction_id t \<and>
    available_quantities s' = available_quantities s \<and> \<not> fifo_wf s'"
proof -
  note t = assms(2) [unfolded bookable_buy_def]
  obtain l where l: "new_cost_lot t (txn_quantity t) base local = Inr l" "open_lot_wf l"
    "lot_transaction_id l = transaction_id t"
    "lot_view l = \<lparr>ols_original_quantity = original, ols_quantity = txn_quantity t, ols_cost_local = local,
       ols_cost_base = base, ols_amortized_cost = None\<rparr>"
    by (rule new_cost_lot_wf [of "txn_quantity t" base local t original]) (use t in auto)
  have q: "remaining_quantity l = txn_quantity t" using l(4) by (metis lot_view_simps(2) open_lot_state.select_convs(2))
  have book: "book_wf s key" by (rule fifo_wfD(1) [OF assms(1)])
  have add: "policy_add state_policy ''available_quantity'' (available_quantities s key) (txn_quantity t) =
      Inl (DecimalPrecisionError ''available_quantity'' MAGNITUDE_OVERFLOW (policy_id state_policy))"
    using cost_state.policy_add_exact [of "available_quantities s key" "txn_quantity t"] book t assms(4)
    by (auto simp: book_wf_def)
  define s' where "s' = fifo_append_lot key l s"
  have "\<And>a. a \<in> set (fifo_open_lots s key) \<Longrightarrow> a < length (fifo_store s)" using book by (auto simp: book_wf_def)
  then have lots: "book_lots s' key = book_lots s key @ [l]"
    unfolding s'_def fifo_append_lots by (simp add: book_lots_def nth_append)
  have avail: "available_quantities s' = available_quantities s"
    by (simp add: s'_def fifo_append_lot_def Let_def)
  have "\<not> book_wf s' key"
    using book t by (simp add: book_wf_def lots avail q)
  then have "\<not> fifo_wf s'" using fifo_wfD(1) by blast
  moreover have "fifo_add_buy_lot t s =
      (Inl (DecimalPrecisionError ''available_quantity'' MAGNITUDE_OVERFLOW (policy_id state_policy)), s')"
    using fifo_add_buy_lot_step [of t base local l s] t l(1) add assms(3) by (simp add: s'_def)
  ultimately show ?thesis using lots avail l(3) by blast
qed

theorem fifo_add_buy_lot_overflow_witness:
  "\<exists>l s'. fifo_add_buy_lot (sample_buy 99999980) (sample_book two_lots) =
      (Inl (DecimalPrecisionError ''available_quantity'' MAGNITUDE_OVERFLOW (policy_id state_policy)), s') \<and>
    book_lots s' (''P'', ''I'') = two_lots @ [l]"
proof -
  have "bookable_buy (sample_buy 99999980) 99999980 50 60"
    by (rule sample_buy_bookable) (simp_all add: ledger_amount_iff)
  then show ?thesis
    using fifo_add_buy_lot_overflow [OF two_lots_wf(1) _ refl] two_lots_wf(5)
    by (fastforce simp: sample_book_lots)
qed

section \<open>Restatement\<close>

text \<open>
  C11. A quantity restatement is all or nothing. Either it raises and the strategy state is
  unchanged, or every open lot's quantities are multiplied by exactly after / before, every lot
  keeps its local and base cost to the last digit, the available quantity becomes before + delta
  and the invariant holds.
\<close>

theorem fifo_restate_correct:
  assumes "fifo_wf s" and "ledger_amount delta" and "fifo_restate_lot_quantities p i delta s = (res, s')"
  shows "case res of
      Inl e \<Rightarrow> s' = s
    | Inr r \<Rightarrow> quantity_before r = available_quantities s (p, i) \<and>
        quantity_after r = available_quantities s (p, i) + delta \<and> fifo_wf s' \<and>
        list_all2 (\<lambda>l l'. remaining_quantity l' * quantity_before r = remaining_quantity l * quantity_after r \<and>
            lot_original_quantity l' * quantity_before r = lot_original_quantity l * quantity_after r \<and>
            lot_cost_local l' = lot_cost_local l \<and> lot_cost_base l' = lot_cost_base l \<and>
            lot_id l' = lot_id l)
          (book_lots s (p, i)) (book_lots s' (p, i)) \<and>
        available_quantities s' = (available_quantities s)((p, i) := available_quantities s (p, i) + delta) \<and>
        (\<forall>key. key \<noteq> (p, i) \<longrightarrow> book_lots s' key = book_lots s key)"
proof (rule fifo_restate_cases [OF assms(1,2) refl, of p i])
  fix e
  assume "fifo_restate_lot_quantities p i delta s = (Inl e, s)"
  then show ?thesis using assms(3) by auto
next
  fix r t before after
  assume run: "fifo_restate_lot_quantities p i delta s = (Inr r, t)"
    and b: "before = available_quantities s (p, i)" "after = before + delta"
    and r: "r = \<lparr>quantity_before = before, quantity_after = after\<rparr>" "0 < before" "0 < after"
    and t: "fifo_wf t" "book_lots t (p, i) = map (restated_lot before after) (book_lots s (p, i))"
    and q: "\<And>l. l \<in> set (book_lots s (p, i)) \<Longrightarrow> ledger_amount (remaining_quantity l * after / before)"
    and rest: "available_quantities t = (available_quantities s)((p, i) := after)"
      "\<And>key'. key' \<noteq> (p, i) \<Longrightarrow> book_lots t key' = book_lots s key'"
  have lots: "\<And>l. l \<in> set (book_lots s (p, i)) \<Longrightarrow> open_lot_wf l"
    using fifo_wfD(1) [OF assms(1)] by (rule book_lots_open)
  have "lot_cost_local (restated_lot before after l) = lot_cost_local l \<and>
      lot_cost_base (restated_lot before after l) = lot_cost_base l" if "l \<in> set (book_lots s (p, i))" for l
    using restated_lot_wf(2,3) [OF lots [OF that] r(2,3) q [OF that]] by simp
  moreover have "remaining_quantity (restated_lot before after l) * before = remaining_quantity l * after"
    "lot_original_quantity (restated_lot before after l) * before = lot_original_quantity l * after"
    "lot_id (restated_lot before after l) = lot_id l" for l
    using r(2) by (simp_all add: restated_lot_def)
  ultimately show ?thesis
    using assms(3) run b r(1) t rest by (auto simp: list_all2_conv_all_nth)
qed

lemma two_lots_restated:
  "\<exists>r s'. fifo_restate_lot_quantities ''P'' ''I'' 30 (sample_book two_lots) = (Inr r, s')"
proof -
  define r where "r = \<lparr>quantity_before = 30, quantity_after = 60 :: rat\<rparr>"
  have r: "LotRestatement 30 60 = Inr r" by (simp add: LotRestatement_Inr r_def sample_numbers)
  then have delta: "from_signed_delta 30 30 = Inr r" using from_signed_delta_Inr [of 30 30 r] sample_numbers by simp
  have applied: "restatement_apply r 10 f = Inr 20" "restatement_apply r 20 f = Inr 40" for f
    using restatement_apply_Inr [OF r, of 10 f 20] restatement_apply_Inr [OF r, of 20 f 40] by (simp_all add: sample_numbers)
  have "open_lot_wf (sample_lot ''A'' 10 100 120)" "open_lot_wf (sample_lot ''B'' 20 300 330)"
    by (rule sample_lot_wf; simp add: sample_numbers sample_ids)+
  note states = open_state_wf [OF open_lot_wfD(1) [OF this(1)]] open_state_wf [OF open_lot_wfD(1) [OF this(2)]]
  have "rmap (\<lambda>a. fifo_proposed_lot r (two_lots ! a)) [0, 1] =
      Inr [(20, 20, lot_view (sample_lot ''A'' 10 100 120)), (40, 40, lot_view (sample_lot ''B'' 20 300 330))]"
    by (simp add: fifo_proposed_lot_def two_lots_def states) (simp add: sample_lot_def applied)
  then show ?thesis
    using delta two_lots_wf(5)
    by (simp add: fifo_restate_lot_quantities_def Let_def sample_book_def two_lots_def dec_div_def upt_rec)
qed

theorem fifo_restate_correct_witness:
  "\<exists>r s'. fifo_restate_lot_quantities ''P'' ''I'' 30 (sample_book two_lots) = (Inr r, s') \<and>
    quantity_after r = 60 \<and> fifo_wf s' \<and> available_quantities s' (''P'', ''I'') = 60"
proof -
  obtain r s' where run: "fifo_restate_lot_quantities ''P'' ''I'' 30 (sample_book two_lots) = (Inr r, s')"
    using two_lots_restated by blast
  from fifo_restate_correct [OF two_lots_wf(1) sample_numbers(7) run] run show ?thesis
    using two_lots_wf(5) by auto
qed

section \<open>Basis transfer\<close>

text \<open>
  C9. A basis transfer within the available basis moves exactly the requested amounts: whatever
  the result object turns out to be, the book's local and base basis drop by the requested amounts
  to the last digit, no quantity, lot identity or other book changes, and the invariant holds.
\<close>

theorem fifo_transfer_conserves:
  assumes "fifo_wf s" and "ledger_amount cb" and "0 \<le> cb" and "cb \<le> book_cost_base (book_lots s (p, i))"
    and "ledger_amount cl" and "0 \<le> cl" and "cl \<le> book_cost_local (book_lots s (p, i))"
    and "book_cost_base (book_lots s (p, i)) < ledger_limit" and "book_cost_local (book_lots s (p, i)) < ledger_limit"
    and "0 < book_cost_base (book_lots s (p, i))" and "0 < book_cost_local (book_lots s (p, i))"
  shows "\<exists>res s'. fifo_transfer_basis_out_with_allocations p i cb cl s = (res, s') \<and> fifo_wf s' \<and>
    book_cost_base (book_lots s' (p, i)) = book_cost_base (book_lots s (p, i)) - cb \<and>
    book_cost_local (book_lots s' (p, i)) = book_cost_local (book_lots s (p, i)) - cl \<and>
    map remaining_quantity (book_lots s' (p, i)) = map remaining_quantity (book_lots s (p, i)) \<and>
    map lot_id (book_lots s' (p, i)) = map lot_id (book_lots s (p, i)) \<and>
    available_quantities s' = available_quantities s \<and>
    (\<forall>key. key \<noteq> (p, i) \<longrightarrow> book_lots s' key = book_lots s key)"
proof (rule fifo_transfer_wf [OF assms(1) refl assms(2-11)])
  fix s'
  assume run: "fifo_transfer_basis_out_with_allocations p i cb cl s =
      (basis_transfer_result (transfer_sources (book_lots s (p, i)) (book_lots s' (p, i))) cl cb, s')"
    and rest: "fifo_wf s'" "list_all2 rebased (book_lots s (p, i)) (book_lots s' (p, i))"
      "book_cost_base (book_lots s' (p, i)) = book_cost_base (book_lots s (p, i)) - cb"
      "book_cost_local (book_lots s' (p, i)) = book_cost_local (book_lots s (p, i)) - cl"
      "available_quantities s' = available_quantities s"
      "\<And>key'. key' \<noteq> (p, i) \<Longrightarrow> book_lots s' key' = book_lots s key'"
  have "map remaining_quantity (book_lots s' (p, i)) = map remaining_quantity (book_lots s (p, i)) \<and>
    map lot_id (book_lots s' (p, i)) = map lot_id (book_lots s (p, i))"
    using rest(2) by (induction rule: list_all2_induct) (auto dest: rebasedD)
  then show ?thesis using run rest by blast
qed

theorem fifo_transfer_conserves_witness:
  "\<exists>res s'. fifo_transfer_basis_out_with_allocations ''P'' ''I'' 120 100 (sample_book two_lots) = (res, s') \<and>
    fifo_wf s' \<and> book_cost_base (book_lots s' (''P'', ''I'')) = 330 \<and>
    book_cost_local (book_lots s' (''P'', ''I'')) = 300"
  using fifo_transfer_conserves [of "sample_book two_lots" 120 "''P''" "''I''" 100] two_lots_wf
  by (auto simp: sample_book_lots sample_numbers)

text \<open>
  C10. When no lot's basis grows, the transfer also returns evidence: a successful result whose
  allocations are the lots whose basis moved, each balancing before = transferred + retained, and
  whose transferred amounts add up to the requested amounts exactly.
\<close>

theorem fifo_transfer_evidence:
  assumes "fifo_wf s" and "ledger_amount cb" and "0 \<le> cb" and "cb \<le> book_cost_base (book_lots s (p, i))"
    and "ledger_amount cl" and "0 \<le> cl" and "cl \<le> book_cost_local (book_lots s (p, i))"
    and "book_cost_base (book_lots s (p, i)) < ledger_limit" and "book_cost_local (book_lots s (p, i)) < ledger_limit"
    and "0 < book_cost_base (book_lots s (p, i))" and "0 < book_cost_local (book_lots s (p, i))"
    and "0 < cb \<or> 0 < cl"
    and "fifo_transfer_basis_out_with_allocations p i cb cl s = (res, s')"
    and "list_all2 (\<lambda>l l'. lot_cost_local l' \<le> lot_cost_local l \<and> lot_cost_base l' \<le> lot_cost_base l)
      (book_lots s (p, i)) (book_lots s' (p, i))"
  shows "\<exists>r. res = Inr r \<and> lbt_error_reason r = None \<and> lbt_allocations r \<noteq> [] \<and>
    (\<Sum>a\<leftarrow>lbt_allocations r. transferred_cost_local a) = cl \<and>
    (\<Sum>a\<leftarrow>lbt_allocations r. transferred_cost_base a) = cb \<and>
    (\<forall>a \<in> set (lbt_allocations r).
       transferred_cost_local a + retained_cost_local a = source_cost_local_before a \<and>
       transferred_cost_base a + retained_cost_base a = source_cost_base_before a)"
proof (rule fifo_transfer_wf [OF assms(1) refl assms(2-11)])
  fix t
  define ls ls' where "ls = book_lots s (p, i)" and "ls' = book_lots s' (p, i)"
  define srcs where "srcs = transfer_sources ls ls'"
  assume "fifo_transfer_basis_out_with_allocations p i cb cl s =
      (basis_transfer_result (transfer_sources (book_lots s (p, i)) (book_lots t (p, i))) cl cb, t)"
    and rest: "fifo_wf t" "list_all2 rebased (book_lots s (p, i)) (book_lots t (p, i))"
      "book_cost_base (book_lots t (p, i)) = book_cost_base (book_lots s (p, i)) - cb"
      "book_cost_local (book_lots t (p, i)) = book_cost_local (book_lots s (p, i)) - cl"
  then have t: "t = s'" and res: "res = basis_transfer_result srcs cl cb"
    using assms(13) by (auto simp: srcs_def ls_def ls'_def)
  have lots: "list_all2 rebased ls ls'" using rest(2) t by (simp add: ls_def ls'_def)
  have opens: "\<And>l. l \<in> set ls \<Longrightarrow> open_lot_wf l"
    using fifo_wfD(1) [OF assms(1)] unfolding ls_def by (rule book_lots_open)
  have len: "length ls' = length ls" using lots by (simp add: list_all2_lengthD)
  have ok: "transfer_source_ok x" if mem: "x \<in> set srcs" for x
  proof -
    obtain l l' where x: "x = (lot_id l', lot_transaction_id l', acquisition_date l', lot_view l, lot_view l')"
      and ll: "(l, l') \<in> set (zip ls ls')" using mem by (auto simp: srcs_def transfer_sources_def)
    then obtain n where n: "n < length ls" "l = ls ! n" "l' = ls' ! n" by (auto simp: set_zip)
    have r: "rebased l l'" using lots n by (simp add: list_all2_conv_all_nth)
    have le: "lot_cost_local l' \<le> lot_cost_local l" "lot_cost_base l' \<le> lot_cost_base l"
      using assms(14) n by (simp_all add: list_all2_conv_all_nth ls_def ls'_def)
    note l' = open_lot_wfD [OF rebasedD(1) [OF r]]
    have "open_lot_wf l" using opens n by simp
    then show ?thesis
      using l' le lot_wf_costs [OF l'(1)] lot_wf_costs [OF open_lot_wfD(1), of l]
      by (simp add: x lot_named_def)
  qed
  have names: "distinct (map (\<lambda>x. py_strip (fst x)) srcs)"
  proof -
    have "map (\<lambda>x. py_strip (fst x)) srcs = lot_names ls'"
      using len by (auto simp: srcs_def transfer_sources_def list_eq_iff_nth_eq)
    also have "\<dots> = lot_names ls"
      using lots by (induction rule: list_all2_induct) (auto dest: rebasedD)
    finally show ?thesis using fifo_wfD(1) [OF assms(1), of "(p, i)"] by (simp add: book_wf_def ls_def)
  qed
  have sums: "(\<Sum>x\<leftarrow>srcs. moved_local x) = book_cost_local ls - book_cost_local ls'"
    "(\<Sum>x\<leftarrow>srcs. moved_base x) = book_cost_base ls - book_cost_base ls'"
    unfolding srcs_def transfer_sources_def using lots by (induction rule: list_all2_induct) auto
  have "book_cost_local ls - book_cost_local ls' = cl" "book_cost_base ls - book_cost_base ls' = cb"
    using rest(3,4) t by (simp_all add: ls_def ls'_def)
  then have result: "res = Inr \<lparr>lbt_transferred_cost_local = cl, lbt_transferred_cost_base = cb,
      lbt_allocations = map (\<lambda>(n, x). transfer_evidence n x) (enumerate 1 (filter moved srcs)),
      lbt_error_reason = None\<rparr>" (is "res = Inr ?r")
    using basis_transfer_result_ok [OF ok names] sums assms(2,3,5,6,12) unfolding res by auto
  have proj: "(\<Sum>a\<leftarrow>lbt_allocations ?r. f a) = (\<Sum>x\<leftarrow>filter moved srcs. g x)"
    if "\<And>n x. f (transfer_evidence n x) = g x" for f g :: "_ \<Rightarrow> rat"
    using that map_enumerate_snd [of g 1 "filter moved srcs"] by (simp add: comp_def split_def)
  have totals: "(\<Sum>a\<leftarrow>lbt_allocations ?r. transferred_cost_local a) = cl"
    "(\<Sum>a\<leftarrow>lbt_allocations ?r. transferred_cost_base a) = cb"
    using proj [of transferred_cost_local moved_local] proj [of transferred_cost_base moved_base]
      moved_sums [of srcs] sums \<open>book_cost_local ls - book_cost_local ls' = cl\<close>
      \<open>book_cost_base ls - book_cost_base ls' = cb\<close> by simp_all
  have "lbt_allocations ?r \<noteq> []" using totals assms(12) by auto
  moreover have "transferred_cost_local (transfer_evidence n x) + retained_cost_local (transfer_evidence n x) =
      source_cost_local_before (transfer_evidence n x) \<and>
      transferred_cost_base (transfer_evidence n x) + retained_cost_base (transfer_evidence n x) =
      source_cost_base_before (transfer_evidence n x)" for n x
    by (cases x) simp
  ultimately show ?thesis using result totals by (auto simp: split_def)
qed

definition one_lot :: "cost_lot list" where
  "one_lot = [sample_lot ''A'' 10 100 120]"

lemma one_lot_wf:
  "fifo_wf (sample_book one_lot)" "book_cost_local one_lot = 100" "book_cost_base one_lot = 120"
proof -
  have "open_lot_wf (sample_lot ''A'' 10 100 120)"
    by (rule sample_lot_wf) (simp_all add: sample_numbers sample_ids)
  then show "fifo_wf (sample_book one_lot)"
    by (intro sample_book_wf) (auto simp: one_lot_def sample_lot_def)
  show "book_cost_local one_lot = 100" "book_cost_base one_lot = 120"
    by (simp_all add: one_lot_def sample_lot_wf(2,3) sample_numbers sample_ids)
qed

theorem fifo_transfer_evidence_witness:
  "\<exists>r s'. fifo_transfer_basis_out_with_allocations ''P'' ''I'' 60 50 (sample_book one_lot) = (Inr r, s') \<and>
    (\<Sum>a\<leftarrow>lbt_allocations r. transferred_cost_local a) = 50 \<and>
    (\<Sum>a\<leftarrow>lbt_allocations r. transferred_cost_base a) = 60"
proof (rule fifo_transfer_wf [OF one_lot_wf(1) refl, of 60 "''P''" "''I''" 50])
  fix s'
  let ?k = "(''P'', ''I'')"
  assume run: "fifo_transfer_basis_out_with_allocations ''P'' ''I'' 60 50 (sample_book one_lot) =
      (basis_transfer_result (transfer_sources (book_lots (sample_book one_lot) ?k) (book_lots s' ?k)) 50 60, s')"
    and lots: "list_all2 rebased (book_lots (sample_book one_lot) ?k) (book_lots s' ?k)"
    and costs: "book_cost_base (book_lots s' ?k) = book_cost_base (book_lots (sample_book one_lot) ?k) - 60"
      "book_cost_local (book_lots s' ?k) = book_cost_local (book_lots (sample_book one_lot) ?k) - 50"
  obtain l' where l': "book_lots s' ?k = [l']"
    using lots by (auto simp: sample_book_lots one_lot_def list_all2_Cons1)
  have "list_all2 (\<lambda>l l'. lot_cost_local l' \<le> lot_cost_local l \<and> lot_cost_base l' \<le> lot_cost_base l)
      (book_lots (sample_book one_lot) ?k) (book_lots s' ?k)"
    using costs one_lot_wf by (simp add: l' sample_book_lots one_lot_def)
  then show ?thesis
    using fifo_transfer_evidence [OF one_lot_wf(1) _ _ _ _ _ _ _ _ _ _ _ run] run one_lot_wf
    by (fastforce simp: sample_book_lots sample_numbers)
qed (simp_all add: sample_book_lots sample_numbers one_lot_wf)

section \<open>A transfer that fails after moving the basis\<close>

definition four_lots :: "cost_lot list" where
  "four_lots = [sample_lot ''A'' 10 100 100, sample_lot ''B'' 10 100 100, sample_lot ''C'' 10 100 100,
     sample_lot ''D'' 10 0 0]"

definition third :: rat where
  "third = 333333333333 / 10000000000"

lemma third_amount: "on_scale 10 third" "ledger_amount third" "0 \<le> third"
proof -
  show "on_scale 10 third" by (rule on_scaleI [of _ _ 333333333333]) (simp add: third_def)
  then show "ledger_amount third" "0 \<le> third" by (simp_all add: ledger_amount_iff third_def)
qed

lemma third_multiple: "on_scale 10 (2 * third)" "on_scale 10 (3 * third)" "on_scale 10 (100 - 3 * third)"
  using on_scale_add [OF third_amount(1,1)] on_scale_add [OF third_amount(1) on_scale_add [OF third_amount(1,1)]]
  by (auto simp: algebra_simps)

lemma share_of_third:
  "raw_next_basis 100 100 300 = Inr (sig_round (context_precision state_policy) (100 / 3))"
  "normalize state_policy f (sig_round (context_precision state_policy) (100 / 3)) = Inr third"
proof -
  show "raw_next_basis 100 100 300 = Inr (sig_round (context_precision state_policy) (100 / 3))"
    using cost_state.sig_round_storable_mult [of 100 100]
    by (simp add: raw_next_basis_def dec_div_def dec_mul_def sample_numbers)
  have "round_to_scale (cp_scale state_policy) (sig_round (context_precision state_policy) (100 / 3)) =
      round_to_scale (cp_scale state_policy) (100 / 3)"
    by (rule cost_state.quotient_rounding [of _ 100 3]) simp_all
  also have "\<dots> = third"
  proof -
    have "round_half_even (1000000000000 / 3) = 333333333333"
      by (rule round_half_even_unique) simp_all
    then show ?thesis by (simp add: round_to_scale_def third_def)
  qed
  finally show "normalize state_policy f (sig_round (context_precision state_policy) (100 / 3)) = Inr third"
    by (simp add: cost_state.normalize_eq third_def)
qed

lemma four_lots_wf:
  "\<And>l. l \<in> set four_lots \<Longrightarrow> open_lot_wf l" "fifo_wf (sample_book four_lots)"
  "map lot_cost_local four_lots = [100, 100, 100, 0]" "map lot_cost_base four_lots = [100, 100, 100, 0]"
proof -
  have lots: "open_lot_wf (sample_lot ''A'' 10 100 100)" "open_lot_wf (sample_lot ''B'' 10 100 100)"
    "open_lot_wf (sample_lot ''C'' 10 100 100)" "open_lot_wf (sample_lot ''D'' 10 0 0)"
    by (rule sample_lot_wf; simp add: sample_numbers sample_ids)+
  then show opens: "\<And>l. l \<in> set four_lots \<Longrightarrow> open_lot_wf l" by (auto simp: four_lots_def)
  have "lot_names four_lots = [''LOT-A'', ''LOT-B'', ''LOT-C'', ''LOT-D'']" "book_quantity four_lots = 40"
    by (simp_all add: four_lots_def sample_lot_def sample_ids)
  then show "fifo_wf (sample_book four_lots)" by (intro sample_book_wf opens) simp_all
  show "map lot_cost_local four_lots = [100, 100, 100, 0]" "map lot_cost_base four_lots = [100, 100, 100, 0]"
    by (simp_all add: four_lots_def sample_lot_wf(2,3) sample_numbers sample_ids)
qed

definition third_totals :: basis_totals where
  "third_totals = \<lparr>bt_total_base = 300, bt_total_local = 300, bt_remaining_base = 100, bt_remaining_local = 100\<rparr>"

lemma next_third:
  assumes l: "open_lot_wf l" "lot_cost_local l = 100" "lot_cost_base l = 100"
    and a: "ledger_amount a" "0 \<le> a" "a \<le> 2 * third"
  shows "fifo_next_basis third_totals a a l = Inr (third, third)"
proof -
  have sub: "policy_subtract state_policy f 100 a = Inr (100 - a)" for f
    using a by (intro cost_state.policy_subtract_le) (simp_all add: sample_numbers third_def)
  have "third \<le> 100 - a" using a(3) by (simp add: third_def)
  then have "allocate_nonnegative_storage_share (sig_round (context_precision state_policy) (100 / 3)) 100 a f = Inr third" for f
    using third_amount(3) by (simp add: allocate_nonnegative_storage_share_def share_of_third(2) sub)
  then show ?thesis
    by (simp add: fifo_next_basis_def open_state_wf [OF open_lot_wfD(1) [OF l(1)]] third_totals_def
        share_of_third(1) l(2,3))
qed

lemma third_loop:
  "allocate_fifo_loop third_totals [0, 1, 2, 3] 0 0 four_lots =
     (Inr (), [rebased_lot (four_lots ! 0) third third, rebased_lot (four_lots ! 1) third third,
       rebased_lot (four_lots ! 2) third third,
       rebased_lot (four_lots ! 3) (100 - 3 * third) (100 - 3 * third)])"
proof -
  have opens: "open_lot_wf (four_lots ! 0)" "open_lot_wf (four_lots ! 1)" "open_lot_wf (four_lots ! 2)"
    "open_lot_wf (four_lots ! 3)" by (rule four_lots_wf(1); simp add: four_lots_def)+
  have costs: "lot_cost_local (four_lots ! 0) = 100" "lot_cost_base (four_lots ! 0) = 100"
    "lot_cost_local (four_lots ! 1) = 100" "lot_cost_base (four_lots ! 1) = 100"
    "lot_cost_local (four_lots ! 2) = 100" "lot_cost_base (four_lots ! 2) = 100"
    using four_lots_wf(3,4) by (simp_all add: four_lots_def)
  have two: "ledger_amount (2 * third)" "ledger_amount (3 * third)"
    using third_multiple by (simp_all add: ledger_amount_iff third_def)
  have nexts: "fifo_next_basis third_totals 0 0 (four_lots ! 0) = Inr (third, third)"
    "fifo_next_basis third_totals third third (four_lots ! 1) = Inr (third, third)"
    "fifo_next_basis third_totals (2 * third) (2 * third) (four_lots ! 2) = Inr (third, third)"
    using opens costs third_amount two by (auto intro!: next_third simp: sample_numbers)
  have adds: "policy_add state_policy f 0 third = Inr third"
    "policy_add state_policy f third third = Inr (2 * third)"
    "policy_add state_policy f (2 * third) third = Inr (3 * third)" for f
    using nonneg_adds(1) [of 0 third f] nonneg_adds(1) [of third third f] nonneg_adds(1) [of "2 * third" third f]
      third_amount two by (simp_all add: sample_numbers third_def)
  have final: "fifo_final_basis third_totals (3 * third) (3 * third) = Inr (100 - 3 * third, 100 - 3 * third)"
    using two third_amount
    by (simp add: fifo_final_basis_def third_totals_def third_def cost_state.policy_subtract_le sample_numbers)
  have rem: "remaining_quantity (four_lots ! 0) \<noteq> 0" "remaining_quantity (four_lots ! 1) \<noteq> 0"
    "remaining_quantity (four_lots ! 2) \<noteq> 0" "remaining_quantity (four_lots ! 3) \<noteq> 0"
    using opens by (auto dest: open_lot_wfD(3))
  obtain a b c d where abcd: "four_lots = [a, b, c, d]" by (simp add: four_lots_def)
  show ?thesis
    using nexts adds final rem by (simp add: abcd assign_fifo_lot_costs_eq numeral_2_eq_2 numeral_3_eq_3)
qed

lemma basis_transfer_allocations_append:
  "basis_transfer_allocations (xs @ ys) acc =
     rbind (basis_transfer_allocations xs acc) (\<lambda>acc'. basis_transfer_allocations ys acc')"
  by (induction xs acc rule: basis_transfer_allocations.induct) (auto simp: rbind_def split: sum.split)

definition four_lots_after :: "cost_lot list" where
  "four_lots_after = [rebased_lot (four_lots ! 0) third third, rebased_lot (four_lots ! 1) third third,
     rebased_lot (four_lots ! 2) third third,
     rebased_lot (four_lots ! 3) (100 - 3 * third) (100 - 3 * third)]"

lemma four_lots_after_wf:
  "\<And>l. l \<in> set four_lots_after \<Longrightarrow> open_lot_wf l"
  "map lot_cost_local four_lots_after = [third, third, third, 100 - 3 * third]"
  "map lot_cost_base four_lots_after = [third, third, third, 100 - 3 * third]"
proof -
  have opens: "open_lot_wf (four_lots ! 0)" "open_lot_wf (four_lots ! 1)" "open_lot_wf (four_lots ! 2)"
    "open_lot_wf (four_lots ! 3)" by (rule four_lots_wf(1); simp add: four_lots_def)+
  have rest: "ledger_amount (100 - 3 * third)" "0 \<le> 100 - 3 * third"
    using third_multiple by (simp_all add: ledger_amount_iff third_def)
  note lots = rebased_lot_wf [OF opens(1) third_amount(2,3) third_amount(2,3)]
    rebased_lot_wf [OF opens(2) third_amount(2,3) third_amount(2,3)]
    rebased_lot_wf [OF opens(3) third_amount(2,3) third_amount(2,3)]
    rebased_lot_wf [OF opens(4) rest rest]
  show "\<And>l. l \<in> set four_lots_after \<Longrightarrow> open_lot_wf l" using lots by (auto simp: four_lots_after_def)
  show "map lot_cost_local four_lots_after = [third, third, third, 100 - 3 * third]"
    "map lot_cost_base four_lots_after = [third, third, third, 100 - 3 * third]"
    using lots by (simp_all add: four_lots_after_def del: rebased_lot_simps)
qed

lemma four_sources:
  "basis_transfer_result (transfer_sources four_lots four_lots_after) 200 200 =
     Inl (ValueError ''transferred_cost_local must be nonnegative'')"
proof -
  obtain a b c d where ls: "four_lots = [a, b, c, d]" by (simp add: four_lots_def)
  obtain a' b' c' d' where ls': "four_lots_after = [a', b', c', d']" by (simp add: four_lots_after_def)
  let ?src = "\<lambda>l l'. (lot_id l', lot_transaction_id l', acquisition_date l', lot_view l, lot_view l')"
  have opens: "open_lot_wf a" "open_lot_wf b" "open_lot_wf c" "open_lot_wf d"
    "open_lot_wf a'" "open_lot_wf b'" "open_lot_wf c'" "open_lot_wf d'"
    using four_lots_wf(1) four_lots_after_wf(1) by (auto simp: ls ls')
  note costs = four_lots_wf(3,4) [unfolded ls, simplified] four_lots_after_wf(2,3) [unfolded ls', simplified]
  have small: "0 < 100 - 3 * third" "third \<le> 100" by (simp_all add: third_def)
  have rest: "ledger_amount (100 - 3 * third)"
    using third_multiple by (simp add: ledger_amount_iff third_def)
  have ok: "transfer_source_ok (?src l l')"
    if "open_lot_wf l" "open_lot_wf l'" "lot_cost_local l = 100" "lot_cost_base l = 100"
      "lot_cost_local l' = third" "lot_cost_base l' = third" for l l'
    using open_lot_wfD [OF that(2)] that third_amount small by (simp add: lot_named_def sample_numbers)
  have oks: "\<And>x. x \<in> set [?src a a', ?src b b', ?src c c'] \<Longrightarrow> transfer_source_ok x"
    using ok [of a a'] ok [of b b'] ok [of c c'] opens costs by (auto simp del: transfer_source_ok.simps)
  obtain acc where acc: "basis_transfer_allocations [?src a a', ?src b b', ?src c c'] [] = Inr acc"
    using basis_transfer_allocations_ok [OF oks] by blast
  have sub: "policy_subtract state_policy f 0 (100 - 3 * third) = Inr (- (100 - 3 * third))" for f
    using cost_state.policy_subtract_exact [of 0 "100 - 3 * third" f] rest by (simp add: sample_numbers third_def)
  have "basis_transfer_allocations [?src d d'] acc =
      Inl (ValueError ''transferred_cost_local must be nonnegative'')"
    using open_lot_wfD [OF opens(8)] costs sub small third_amount
    by (simp add: SourceLotBasisTransferAllocation_def required_text_def nonnegative_decimal_def lot_named_def)
  then show ?thesis
    using basis_transfer_allocations_append [of "[?src a a', ?src b b', ?src c c']" "[?src d d']" "[]"] acc
    by (simp add: basis_transfer_result_def transfer_sources_def ls ls' del: basis_transfer_allocations.simps)
qed

text \<open>
  C21. A basis transfer within the available basis can raise after the lots were rebased. Four lots
  carry 100, 100, 100 and 0 of basis; transferring 200 leaves 33.3333333333 on each of the first
  three and gives the remainder 0.0000000001 to the last lot, whose basis thereby grows. The
  evidence constructor rejects the negative movement with a \<open>ValueError\<close>, but the book already
  carries the new basis.
\<close>

theorem fifo_transfer_raises_after_rebasing:
  "fifo_wf (sample_book four_lots) \<and>
   basis_transfer_error (book_lots (sample_book four_lots) (''P'', ''I'')) 200 200 = Inr None \<and>
   (\<exists>s'. fifo_transfer_basis_out_with_allocations ''P'' ''I'' 200 200 (sample_book four_lots) =
        (Inl (ValueError ''transferred_cost_local must be nonnegative''), s') \<and>
      book_cost_local (book_lots (sample_book four_lots) (''P'', ''I'')) = 300 \<and>
      book_cost_local (book_lots s' (''P'', ''I'')) = 100)"
proof -
  let ?s = "sample_book four_lots"
  let ?k = "(''P'', ''I'')"
  have book: "book_cost_local four_lots = sum_list [100, 100, 100, 0]" "book_cost_base four_lots = sum_list [100, 100, 100, 0]"
    using four_lots_wf(3,4) by simp_all
  have after: "book_cost_local four_lots_after = sum_list [third, third, third, 100 - 3 * third]"
    using four_lots_after_wf(2) by simp
  have deque: "fifo_open_lots ?s ?k = [0, 1, 2, 3]" "fifo_store ?s = four_lots"
    by (simp_all add: sample_book_def four_lots_def upt_rec)
  have lots: "map ((!) four_lots) [0, 1, 2, 3] = four_lots" "map ((!) four_lots_after) [0, 1, 2, 3] = four_lots_after"
    by (simp_all add: four_lots_def four_lots_after_def)
  have opens: "\<And>l. l \<in> set four_lots \<Longrightarrow> open_lot_wf l" by (rule four_lots_wf(1))
  have totals: "ambient_sum (map ols_cost_base (map lot_view four_lots)) = 300"
    "ambient_sum (map ols_cost_local (map lot_view four_lots)) = 300"
    using book_totals(1,2) [of four_lots, OF opens] book by simp_all
  have error: "basis_transfer_error four_lots 200 200 = Inr None"
    using rmap_open_state [of four_lots, OF opens] totals
    by (simp add: basis_transfer_error_def basis_transfer_amount_error_def)
  have states: "rmap (\<lambda>a. open_state (four_lots ! a)) [0, 1, 2, 3] = Inr (map lot_view four_lots)"
    "rmap (\<lambda>a. open_state (four_lots_after ! a)) [0, 1, 2, 3] = Inr (map lot_view four_lots_after)"
    using rmap_open_state [of four_lots, OF opens] rmap_open_state [of four_lots_after, OF four_lots_after_wf(1)]
      rmap_map [of open_state "(!) four_lots" "[0, 1, 2, 3]"] rmap_map [of open_state "(!) four_lots_after" "[0, 1, 2, 3]"]
    unfolding lots by (simp_all del: rmap.simps)
  have filter: "filter (\<lambda>a. 0 < remaining_quantity (four_lots ! a)) [0, 1, 2, 3] = [0, 1, 2, 3]"
    by (simp add: four_lots_def sample_lot_def)
  have allocate: "allocate_fifo_basis_transfer [0, 1, 2, 3] 200 200 four_lots = (Inr (), four_lots_after)"
    unfolding allocate_fifo_basis_transfer_def Let_def filter states(1) obind_Inr totals dec_sub_def
    using third_loop sig_round_ambient_ledger [of 100]
    by (simp add: sample_numbers third_totals_def four_lots_after_def del: allocate_fifo_loop.simps)
  have sources: "map (\<lambda>(a, before, after). (lot_id (four_lots_after ! a), lot_transaction_id (four_lots_after ! a),
          acquisition_date (four_lots_after ! a), before, after))
        (zip [0, 1, 2, 3] (zip (map lot_view four_lots) (map lot_view four_lots_after))) =
      transfer_sources four_lots four_lots_after"
    by (simp add: transfer_sources_def four_lots_def four_lots_after_def)
  define s' where "s' = ?s\<lparr>fifo_store := four_lots_after\<rparr>"
  have "fifo_transfer_basis_out_with_allocations ''P'' ''I'' 200 200 ?s =
      (Inl (ValueError ''transferred_cost_local must be nonnegative''), s')"
    unfolding fifo_transfer_basis_out_with_allocations_def Let_def deque lots(1) error filter
      states allocate using four_sources sources by (simp add: s'_def states(2) del: rmap.simps One_nat_def)
  moreover have "book_lots s' ?k = four_lots_after"
    using deque lots(2) by (simp add: book_lots_def s'_def)
  ultimately show ?thesis
    using four_lots_wf(2) error book after by (simp add: sample_book_lots)
qed

end
