(* ===== verification/Average_Cost_Properties.thy ===== *)
theory Average_Cost_Properties
  imports Average_Cost_Disposal Fifo_Properties
begin

text \<open>
  The average-cost strategy as its callers see it: what each operation of
  \<open>AverageCostBasisStrategy\<close> does to well-formed books, and what it leaves behind when it raises.
\<close>

section \<open>A sample pool\<close>

definition sample_acquisition :: "string \<Rightarrow> rat \<Rightarrow> rat \<Rightarrow> rat \<Rightarrow> cost_basis_transaction" where
  "sample_acquisition tid q local base =
     (plain_transaction tid ''BUY'' q local)\<lparr>net_cost := Some base, net_cost_local := Some local\<rparr>"

lemma sample_acquisition_simps [simp]:
  "transaction_id (sample_acquisition tid q local base) = tid"
  "txn_quantity (sample_acquisition tid q local base) = q"
  "transaction_key (sample_acquisition tid q local base) = (''P'', ''I'')"
  by (simp_all add: sample_acquisition_def plain_transaction_def transaction_key_def)

lemma sample_acquisition_inputs:
  "0 < q \<Longrightarrow> 0 \<le> local \<Longrightarrow> 0 \<le> base \<Longrightarrow>
     validated_buy_lot_inputs (sample_acquisition tid q local base) = Inr (Some (q, base, local))"
  "source_lot_original_quantity_of (sample_acquisition tid q local base) q = Inr q"
  by (simp_all add: sample_acquisition_def plain_transaction_def validated_buy_lot_inputs_def
      require_buy_lot_cost_basis_def should_skip_empty_buy_lot_def
      validate_non_negative_buy_lot_cost_basis_def source_lot_original_quantity_of_def
      resolve_source_lot_original_quantity_def)

definition one_source :: avco_state where
  "one_source = snd (avco_add_buy_lot (sample_acquisition ''A'' 10 100 120) AverageCostBasisStrategy)"

definition two_sources :: avco_state where
  "two_sources = snd (avco_add_buy_lot (sample_acquisition ''B'' 20 300 330) one_source)"

lemma empty_strategy [simp]:
  "pool_of AverageCostBasisStrategy k = AverageCostPool" "avco_allocation AverageCostBasisStrategy = AverageCostSourceAllocation"
  "contributions AverageCostSourceAllocation = []" "book_sources AverageCostSourceAllocation k = []"
  by (simp_all add: pool_of_def AverageCostBasisStrategy_def AverageCostSourceAllocation_def book_sources_def ids_of_def)

lemma one_source_wf:
  "avco_add_buy_lot (sample_acquisition ''A'' 10 100 120) AverageCostBasisStrategy = (Inr (), one_source)"
  "avco_wf one_source" "pool_quantity (pool_of one_source (''P'', ''I'')) = 10"
  "pool_cost_local (pool_of one_source (''P'', ''I'')) = 100" "pool_cost_base (pool_of one_source (''P'', ''I'')) = 120"
  "dom (map_of (contributions (avco_allocation one_source))) = {''A''}"
  "map fst (book_sources (avco_allocation one_source) (''P'', ''I'')) = [''A'']"
proof -
  have "avco_bookable (sample_acquisition ''A'' 10 100 120) AverageCostBasisStrategy 10 120 100 10"
    by (simp add: avco_bookable_def sample_acquisition_inputs sample_numbers sample_ids AverageCostPool_def)
  from avco_add_buy_lot_wf [OF avco_empty_wf this refl] obtain s' where
    s': "avco_add_buy_lot (sample_acquisition ''A'' 10 100 120) AverageCostBasisStrategy = (Inr (), s')"
    "avco_wf s'" "pool_quantity (pool_of s' (''P'', ''I'')) = 10"
    "pool_cost_local (pool_of s' (''P'', ''I'')) = 100" "pool_cost_base (pool_of s' (''P'', ''I'')) = 120"
    "dom (map_of (contributions (avco_allocation s'))) = {''A''}"
    "map fst (book_sources (avco_allocation s') (''P'', ''I'')) = [''A'']"
    by (auto simp: AverageCostPool_def)
  have "one_source = s'" by (simp add: one_source_def s'(1))
  with s' show "avco_add_buy_lot (sample_acquisition ''A'' 10 100 120) AverageCostBasisStrategy = (Inr (), one_source)"
    "avco_wf one_source" "pool_quantity (pool_of one_source (''P'', ''I'')) = 10"
    "pool_cost_local (pool_of one_source (''P'', ''I'')) = 100" "pool_cost_base (pool_of one_source (''P'', ''I'')) = 120"
    "dom (map_of (contributions (avco_allocation one_source))) = {''A''}"
    "map fst (book_sources (avco_allocation one_source) (''P'', ''I'')) = [''A'']"
    by simp_all
qed

lemma one_source_names: "source_names (book_sources (avco_allocation one_source) (''P'', ''I'')) = [''LOT-A'']"
proof -
  obtain p A where r: "add_source (''P'', ''I'') ''A'' ''LOT-A''
      (utc_transaction_date (sample_acquisition ''A'' 10 100 120)) 10 (Some 10) 100 120
      (pool_quantity p) AverageCostSourceAllocation = (Inr (), A)"
    "one_source = AverageCostBasisStrategy\<lparr>avco_pools := dict_set (''P'', ''I'') p (avco_pools AverageCostBasisStrategy),
       avco_allocation := A\<rparr>"
    using one_source_wf(1)
    by (auto simp: avco_add_buy_lot_def sample_acquisition_inputs Let_def obind_eq_Inr on_allocation_def on_pool_def
        split: prod.splits)
  then show ?thesis
    unfolding r(2)
    by (auto simp: add_source_def book_sources_def ids_of_def sample_ids AverageCostSourceAllocation_def
        obind_eq_Inr rbind_eq_Inr split: sum.splits if_splits)
qed

lemma two_sources_wf:
  "avco_wf two_sources" "pool_quantity (pool_of two_sources (''P'', ''I'')) = 30"
  "pool_cost_local (pool_of two_sources (''P'', ''I'')) = 400" "pool_cost_base (pool_of two_sources (''P'', ''I'')) = 450"
  "dom (map_of (contributions (avco_allocation two_sources))) = {''A'', ''B''}"
proof -
  have "''B'' \<notin> dom (map_of (contributions (avco_allocation one_source)))" unfolding one_source_wf(6) by simp
  then have fresh: "map_of (contributions (avco_allocation one_source)) ''B'' = None" by (simp add: domIff)
  have "avco_bookable (sample_acquisition ''B'' 20 300 330) one_source 20 330 300 20"
    unfolding avco_bookable_def sample_acquisition_simps one_source_names one_source_wf(3-5)
    by (simp add: fresh sample_acquisition_inputs sample_numbers sample_ids)
  from avco_add_buy_lot_wf [OF one_source_wf(2) this refl, unfolded sample_acquisition_simps one_source_wf(3-6)]
  obtain s' where
    s': "avco_add_buy_lot (sample_acquisition ''B'' 20 300 330) one_source = (Inr (), s')"
    "avco_wf s'" "pool_quantity (pool_of s' (''P'', ''I'')) = 10 + 20"
    "pool_cost_local (pool_of s' (''P'', ''I'')) = 100 + 300" "pool_cost_base (pool_of s' (''P'', ''I'')) = 120 + 330"
    "dom (map_of (contributions (avco_allocation s'))) = {''B'', ''A''}"
    by (elim exE conjE) (rule that)
  have "two_sources = s'" by (simp add: two_sources_def s'(1))
  with s' show "avco_wf two_sources" "pool_quantity (pool_of two_sources (''P'', ''I'')) = 30"
    "pool_cost_local (pool_of two_sources (''P'', ''I'')) = 400" "pool_cost_base (pool_of two_sources (''P'', ''I'')) = 450"
    "dom (map_of (contributions (avco_allocation two_sources))) = {''A'', ''B''}"
    by (simp_all add: insert_commute)
qed

section \<open>Materialisation\<close>

text \<open>
  C5. Materialising a book of a well-formed average-cost strategy always succeeds: every active
  source gets a state within its original quantity, with non-negative ledger amounts; the source
  quantities add up to the pool quantity exactly; and the source costs add up to the pool cost
  exactly whenever some open source belongs to the current cost generation, and are all zero
  otherwise.
\<close>

theorem avco_materialize_conserves:
  assumes "avco_wf s"
  shows "\<exists>states. materialize_book key (pool_of s key) (avco_allocation s) = Inr states \<and>
    list_all2 (\<lambda>(tid, c) (tid', st). tid' = tid \<and> ols_original_quantity st = ctb_original_quantity c \<and>
      0 \<le> ols_quantity st \<and> ols_quantity st \<le> ctb_original_quantity c \<and>
      0 \<le> ols_cost_local st \<and> 0 \<le> ols_cost_base st)
      (book_sources (avco_allocation s) key) states \<and>
    states_quantity states = pool_quantity (pool_of s key) \<and>
    states_cost_local states =
      (if cost_carried ctb_cost_local_generation (cost_local_generation_by_key (avco_allocation s) key)
            (book_sources (avco_allocation s) key) states
       then pool_cost_local (pool_of s key) else 0) \<and>
    states_cost_base states =
      (if cost_carried ctb_cost_base_generation (cost_base_generation_by_key (avco_allocation s) key)
            (book_sources (avco_allocation s) key) states
       then pool_cost_base (pool_of s key) else 0)"
proof -
  obtain states where "materialize_book key (pool_of s key) (avco_allocation s) = Inr states"
    "materialized (avco_allocation s) key (pool_of s key) states"
    using materialize_book_wf [OF avco_wfD(2,1) [OF assms, of key]] by blast
  then show ?thesis
    by (auto simp: materialized_def source_state_def elim!: list_all2_mono)
qed

theorem avco_materialize_conserves_witness:
  "\<exists>states. materialize_book (''P'', ''I'') (pool_of two_sources (''P'', ''I'')) (avco_allocation two_sources) = Inr states \<and>
    states_quantity states = 30"
  using avco_materialize_conserves [OF two_sources_wf(1), of "(''P'', ''I'')"] two_sources_wf(2) by auto

section \<open>Disposal\<close>

text \<open>
  C2. Selling from a well-formed average-cost book succeeds for every positive ledger quantity
  within the holdings: the allocations add up to the sold quantity and to the disposed local and
  base cost exactly; the pool drops by exactly these amounts; the local cost that stays is the
  segment-start cost pro rata of the quantity that stays, normalised once, and does not depend on
  the earlier sales; other books are untouched and the invariant holds again.
\<close>

theorem avco_consume_correct:
  assumes "avco_wf s" and "ledger_amount q" and "0 < q" and "q \<le> pool_quantity (pool_of s (p, i))"
  shows "\<exists>r s'. avco_consume_sell_quantity_with_allocations p i q s = (Inr r, s') \<and> avco_wf s' \<and>
    ldr_error_reason r = None \<and> ldr_consumed_quantity r = q \<and>
    (\<Sum>a\<leftarrow>ldr_allocations r. consumed_quantity a) = q \<and>
    (\<Sum>a\<leftarrow>ldr_allocations r. consumed_cost_local a) = ldr_cost_local r \<and>
    (\<Sum>a\<leftarrow>ldr_allocations r. consumed_cost_base a) = ldr_cost_base r \<and>
    (\<forall>a \<in> set (ldr_allocations r). 0 < consumed_quantity a \<and> 0 \<le> consumed_cost_local a \<and> 0 \<le> consumed_cost_base a) \<and>
    pool_quantity (pool_of s' (p, i)) = pool_quantity (pool_of s (p, i)) - q \<and>
    ldr_cost_local r + pool_cost_local (pool_of s' (p, i)) = pool_cost_local (pool_of s (p, i)) \<and>
    ldr_cost_base r + pool_cost_base (pool_of s' (p, i)) = pool_cost_base (pool_of s (p, i)) \<and>
    pool_cost_local (pool_of s' (p, i)) =
      segment_cost (segment_start_cost_local (pool_of s (p, i))) (pool_quantity (pool_of s (p, i)) - q)
        (segment_start_quantity (pool_of s (p, i))) \<and>
    (\<forall>k. k \<noteq> (p, i) \<longrightarrow> pool_of s' k = pool_of s k)"
proof -
  obtain r s' where r: "avco_consume_sell_quantity_with_allocations p i q s = (Inr r, s')" "avco_wf s'"
    "ldr_error_reason r = None" "ldr_consumed_quantity r = q"
    "(\<Sum>a\<leftarrow>ldr_allocations r. consumed_quantity a) = q"
    "(\<Sum>a\<leftarrow>ldr_allocations r. consumed_cost_local a) = ldr_cost_local r"
    "(\<Sum>a\<leftarrow>ldr_allocations r. consumed_cost_base a) = ldr_cost_base r"
    "\<forall>a \<in> set (ldr_allocations r). ledger_allocation a \<and> 0 < consumed_quantity a"
    "pool_quantity (pool_of s' (p, i)) = pool_quantity (pool_of s (p, i)) - q"
    "ldr_cost_local r + pool_cost_local (pool_of s' (p, i)) = pool_cost_local (pool_of s (p, i))"
    "ldr_cost_base r + pool_cost_base (pool_of s' (p, i)) = pool_cost_base (pool_of s (p, i))"
    "segment_start_quantity (pool_of s' (p, i)) = segment_start_quantity (pool_of s (p, i))"
    "segment_start_cost_local (pool_of s' (p, i)) = segment_start_cost_local (pool_of s (p, i))"
    "\<forall>k. k \<noteq> (p, i) \<longrightarrow> pool_of s' k = pool_of s k"
    using avco_consume_wf [OF assms(1-3) refl assms(4)] by blast
  have "pool_wf (pool_of s' (p, i))" using avco_wfD(1) [OF r(2)] .
  then have "pool_cost_local (pool_of s' (p, i)) =
      segment_cost (segment_start_cost_local (pool_of s (p, i))) (pool_quantity (pool_of s (p, i)) - q)
        (segment_start_quantity (pool_of s (p, i)))"
    using r(9,12,13) by (simp add: pool_wf_def)
  moreover have "\<forall>a \<in> set (ldr_allocations r). 0 < consumed_quantity a \<and> 0 \<le> consumed_cost_local a \<and> 0 \<le> consumed_cost_base a"
    using r(8) by (auto simp: ledger_allocation_def)
  ultimately show ?thesis using r by blast
qed

theorem avco_consume_correct_witness:
  "\<exists>r s'. avco_consume_sell_quantity_with_allocations ''P'' ''I'' 15 two_sources = (Inr r, s') \<and>
    ldr_consumed_quantity r = 15 \<and> (\<Sum>a\<leftarrow>ldr_allocations r. consumed_quantity a) = 15 \<and>
    pool_quantity (pool_of s' (''P'', ''I'')) = 15"
  using avco_consume_correct [OF two_sources_wf(1), of 15 "''P''" "''I''"] two_sources_wf(2)
  by (auto simp: sample_numbers)

text \<open>
  C6. Within a disposal segment the pool does not depend on how a quantity is split into sales:
  selling \<open>a\<close> and then \<open>b\<close> leaves exactly the pool that selling \<open>a + b\<close> at once leaves, and the two
  disposed costs add up to the single one.
\<close>

theorem pool_dispose_split:
  assumes "pool_wf pool" and "ledger_amount a" and "0 < a" and "ledger_amount b" and "0 < b"
    and "a + b \<le> pool_quantity pool"
  shows "\<exists>base1 local1 base2 local2 p1 p2. pool_dispose a pool = (Inr (base1, local1), p1) \<and>
    pool_dispose b p1 = (Inr (base2, local2), p2) \<and>
    pool_dispose (a + b) pool = (Inr (base1 + base2, local1 + local2), p2)"
proof -
  have pq: "ledger_amount (pool_quantity pool)" using assms(1) by (simp add: pool_wf_def)
  have ab: "ledger_amount (a + b)"
    by (rule storable_mono [OF pq]) (use assms pq in \<open>auto simp: ledger_amount_iff\<close>)
  obtain b1 l1 p1 where 1: "pool_dispose a pool = (Inr (b1, l1), p1)" "pool_wf p1" "pool_quantity p1 = pool_quantity pool - a"
    "b1 = pool_cost_base pool - pool_cost_base p1" "l1 = pool_cost_local pool - pool_cost_local p1"
    "segment_start_quantity p1 = segment_start_quantity pool" "segment_start_cost_local p1 = segment_start_cost_local pool"
    "segment_start_cost_base p1 = segment_start_cost_base pool"
    using pool_dispose_wf [of pool a] assms by auto
  obtain b2 l2 p2 where 2: "pool_dispose b p1 = (Inr (b2, l2), p2)" "pool_wf p2" "pool_quantity p2 = pool_quantity p1 - b"
    "b2 = pool_cost_base p1 - pool_cost_base p2" "l2 = pool_cost_local p1 - pool_cost_local p2"
    "segment_start_quantity p2 = segment_start_quantity p1" "segment_start_cost_local p2 = segment_start_cost_local p1"
    "segment_start_cost_base p2 = segment_start_cost_base p1"
    using pool_dispose_wf [of p1 b] assms 1(2,3) by auto
  obtain b3 l3 p3 where 3: "pool_dispose (a + b) pool = (Inr (b3, l3), p3)" "pool_wf p3" "pool_quantity p3 = pool_quantity pool - (a + b)"
    "b3 = pool_cost_base pool - pool_cost_base p3" "l3 = pool_cost_local pool - pool_cost_local p3"
    "segment_start_quantity p3 = segment_start_quantity pool" "segment_start_cost_local p3 = segment_start_cost_local pool"
    "segment_start_cost_base p3 = segment_start_cost_base pool"
    using pool_dispose_wf [of pool "a + b"] assms ab by auto
  have q: "pool_quantity p3 = pool_quantity p2" using 1(3) 2(3) 3(3) by simp
  have "p3 = p2"
    by (rule average_cost_pool.equality)
      (use 1(6-8) 2(2,6-8) 3(2,6-8) q in \<open>auto simp: pool_wf_def\<close>)
  then show ?thesis using 1 2 3 by auto
qed

theorem pool_dispose_split_witness:
  "\<exists>base1 local1 base2 local2 p1 p2. pool_dispose 5 (pool_of two_sources (''P'', ''I'')) = (Inr (base1, local1), p1) \<and>
    pool_dispose 10 p1 = (Inr (base2, local2), p2) \<and>
    pool_dispose 15 (pool_of two_sources (''P'', ''I'')) = (Inr (base1 + base2, local1 + local2), p2)"
  using pool_dispose_split [OF avco_wfD(1) [OF two_sources_wf(1)], of 5 10 "(''P'', ''I'')"] two_sources_wf(2)
  by (simp add: sample_numbers)

text \<open>
  C16. The rejected sells change no pool and no source: a negative quantity, a quantity above the
  holdings, any quantity on an empty pool, and a zero quantity each return their own result without
  economics, and the state differs at most by an empty pool stored for the book.
\<close>

theorem avco_consume_rejected:
  assumes "q \<le> 0 \<or> pool_quantity (pool_of s (p, i)) < q \<or> pool_quantity (pool_of s (p, i)) = 0"
  shows "avco_consume_sell_quantity_with_allocations p i q s =
    (Inr \<lparr>ldr_cost_base = 0, ldr_cost_local = 0, ldr_consumed_quantity = 0, ldr_allocations = [],
      ldr_error_reason =
        (if q < 0 then Some (SellQuantityNegative q)
         else if pool_quantity (pool_of s (p, i)) < q
         then Some (SellExceedsAverageHoldings q (pool_quantity (pool_of s (p, i))))
         else if pool_quantity (pool_of s (p, i)) = 0
         then Some (Reason ''No holdings to sell against (Average Cost method).'') else None)\<rparr>,
     touch_pool (p, i) s)"
proof -
  have strip: "py_strip ''No holdings to sell against (Average Cost method).'' =
      ''No holdings to sell against (Average Cost method).''"
    by (simp add: py_strip_def py_lstrip_def is_py_space_def)
  show ?thesis
    using assms
    by (auto simp: avco_consume_sell_quantity_with_allocations_def non_positive_sell_quantity_error_def
        disposal_failed_eq disposal_empty_eq Let_def strip)
qed

theorem avco_consume_rejected_witness:
  "ldr_error_reason (case fst (avco_consume_sell_quantity_with_allocations ''P'' ''I'' 31 two_sources) of Inr r \<Rightarrow> r) =
    Some (SellExceedsAverageHoldings 31 30)"
  using avco_consume_rejected [of 31 two_sources "''P''" "''I''"] two_sources_wf(2) by simp

section \<open>Acquisition\<close>

text \<open>
  C18. Booking an acquisition with a new identity adds its quantity and costs to the pool exactly,
  appends it as the last source of its book, leaves the other pools alone and keeps the invariant.
\<close>

theorem avco_add_buy_lot_correct:
  assumes "avco_wf s" and "avco_bookable t s q base local original" and "key = transaction_key t"
  shows "\<exists>s'. avco_add_buy_lot t s = (Inr (), s') \<and> avco_wf s' \<and>
    pool_quantity (pool_of s' key) = pool_quantity (pool_of s key) + q \<and>
    pool_cost_local (pool_of s' key) = pool_cost_local (pool_of s key) + local \<and>
    pool_cost_base (pool_of s' key) = pool_cost_base (pool_of s key) + base \<and>
    map fst (book_sources (avco_allocation s') key) = map fst (book_sources (avco_allocation s) key) @ [transaction_id t] \<and>
    (\<forall>k. k \<noteq> key \<longrightarrow> pool_of s' k = pool_of s k)"
  using avco_add_buy_lot_wf [OF assms] by blast

theorem avco_add_buy_lot_correct_witness:
  "\<exists>s'. avco_add_buy_lot (sample_acquisition ''A'' 10 100 120) AverageCostBasisStrategy = (Inr (), s') \<and>
    pool_quantity (pool_of s' (''P'', ''I'')) = 10 \<and> pool_cost_local (pool_of s' (''P'', ''I'')) = 100"
proof -
  have "avco_bookable (sample_acquisition ''A'' 10 100 120) AverageCostBasisStrategy 10 120 100 10"
    by (simp add: avco_bookable_def sample_acquisition_inputs sample_numbers sample_ids AverageCostPool_def)
  from avco_add_buy_lot_correct [OF avco_empty_wf this refl] show ?thesis by (auto simp: AverageCostPool_def)
qed

text \<open>
  C20. \<open>add_buy_lot\<close> is not atomic: a transaction whose identity is already a source is added to the
  pool before \<open>add_source\<close> rejects it. The call raises, the sources stay as they were, and the pool
  has grown by the rejected quantity and costs.
\<close>

theorem avco_add_buy_lot_duplicate:
  assumes "avco_wf s" and "validated_buy_lot_inputs t = Inr (Some (q, base, local))"
    and "source_lot_original_quantity_of t q = Inr original"
    and "map_of (contributions (avco_allocation s)) (transaction_id t) \<noteq> None" and "key = transaction_key t"
    and "ledger_amount q" and "0 < q" and "ledger_amount base" and "0 \<le> base" and "ledger_amount local" and "0 \<le> local"
    and "pool_quantity (pool_of s key) + q < ledger_limit" and "pool_cost_local (pool_of s key) + local < ledger_limit"
    and "pool_cost_base (pool_of s key) + base < ledger_limit"
  shows "\<exists>s'. avco_add_buy_lot t s = (Inl (ValueError ''AVCO source transaction identity must be unique''), s') \<and>
    avco_allocation s' = avco_allocation s \<and>
    pool_quantity (pool_of s' key) = pool_quantity (pool_of s key) + q \<and>
    pool_cost_local (pool_of s' key) = pool_cost_local (pool_of s key) + local \<and>
    pool_cost_base (pool_of s' key) = pool_cost_base (pool_of s key) + base"
proof -
  obtain p where p: "pool_add q local base (pool_of s key) = (Inr (), p)"
    "pool_quantity p = pool_quantity (pool_of s key) + q" "pool_cost_local p = pool_cost_local (pool_of s key) + local"
    "pool_cost_base p = pool_cost_base (pool_of s key) + base"
    using pool_add_wf [OF avco_wfD(1) [OF assms(1), of key] assms(6,7,10,11,8,9,12-14)] by blast
  define s' where "s' = s\<lparr>avco_pools := dict_set key p (avco_pools s)\<rparr>"
  have "avco_add_buy_lot t s = (Inl (ValueError ''AVCO source transaction identity must be unique''), s')"
    using assms(2-4) on_pool_eq [of "pool_add q local base" s key, OF p(1)]
    by (auto simp: avco_add_buy_lot_def Let_def on_allocation_def add_source_def s'_def simp flip: assms(5))
  then show ?thesis using p by (auto simp: s'_def)
qed

theorem avco_add_buy_lot_duplicate_witness:
  "\<exists>s'. avco_add_buy_lot (sample_acquisition ''A'' 10 100 120) two_sources =
      (Inl (ValueError ''AVCO source transaction identity must be unique''), s') \<and>
    pool_quantity (pool_of s' (''P'', ''I'')) = 40 \<and> avco_allocation s' = avco_allocation two_sources"
proof -
  have dup: "map_of (contributions (avco_allocation two_sources)) (transaction_id (sample_acquisition ''A'' 10 100 120)) \<noteq> None"
    using two_sources_wf(5) by auto
  show ?thesis
    using avco_add_buy_lot_duplicate [OF two_sources_wf(1) sample_acquisition_inputs(1) sample_acquisition_inputs(2) dup refl]
      two_sources_wf(2-4) by (auto simp: sample_numbers)
qed

section \<open>Restatement\<close>

text \<open>
  C7. A restatement of an average-cost book is exact and atomic. When it returns, the pool quantity
  has changed by the signed delta, the pool costs have not changed, every source quantity is
  multiplied by the same exact ratio, other pools are untouched and the invariant holds; when it
  raises, no pool and no source has changed.
\<close>

theorem avco_restate_correct:
  assumes "avco_wf s" and "ledger_amount delta" and "avco_restate_lot_quantities p i delta s = (result, s')"
  shows "case result of
      Inl e \<Rightarrow> avco_allocation s' = avco_allocation s \<and> (\<forall>k. pool_of s' k = pool_of s k)
    | Inr r \<Rightarrow> avco_wf s' \<and> pool_quantity (pool_of s' (p, i)) = pool_quantity (pool_of s (p, i)) + delta \<and>
        pool_cost_local (pool_of s' (p, i)) = pool_cost_local (pool_of s (p, i)) \<and>
        pool_cost_base (pool_of s' (p, i)) = pool_cost_base (pool_of s (p, i)) \<and>
        map (\<lambda>(tid, c). (tid, ctb_quantity c)) (book_sources (avco_allocation s') (p, i)) =
          map (\<lambda>(tid, c). (tid, ctb_quantity c * ((pool_quantity (pool_of s (p, i)) + delta) / pool_quantity (pool_of s (p, i)))))
            (book_sources (avco_allocation s) (p, i)) \<and>
        (\<forall>k. k \<noteq> (p, i) \<longrightarrow> pool_of s' k = pool_of s k)"
proof (cases result)
  case (Inl e)
  then show ?thesis using avco_restate_raises assms(3) by auto
next
  case (Inr r)
  then show ?thesis
    using avco_restate_wf [OF assms(1,2) refl assms(3) [unfolded Inr]]
    by (simp add: case_prod_unfold restated_source_def comp_def)
qed

lemma one_source_parts:
  "ids_of (''P'', ''I'') (active_source_ids_by_key (avco_allocation one_source)) = [''A'']"
  "\<exists>c. contribution_of (avco_allocation one_source) ''A'' = Inr c \<and> ctb_original_quantity c = 10 \<and> ctb_quantity c = 10"
  "segment_start_quantity_by_key (avco_allocation one_source) (''P'', ''I'') = 10"
  "segment_start_quantity (pool_of one_source (''P'', ''I'')) = 10"
proof -
  obtain p A where r: "add_source (''P'', ''I'') ''A'' ''LOT-A''
      (utc_transaction_date (sample_acquisition ''A'' 10 100 120)) 10 (Some 10) 100 120
      (pool_quantity p) AverageCostSourceAllocation = (Inr (), A)"
    "one_source = AverageCostBasisStrategy\<lparr>avco_pools := dict_set (''P'', ''I'') p (avco_pools AverageCostBasisStrategy),
       avco_allocation := A\<rparr>" "pool_add 10 100 120 AverageCostPool = (Inr (), p)"
    using one_source_wf(1)
    by (auto simp: avco_add_buy_lot_def sample_acquisition_inputs Let_def obind_eq_Inr on_allocation_def on_pool_def
        split: prod.splits)
  have p: "pool_of one_source (''P'', ''I'') = p" unfolding r(2) by (simp add: pool_of_def)
  have q: "pool_quantity p = 10" using one_source_wf(3) p by simp
  show "ids_of (''P'', ''I'') (active_source_ids_by_key (avco_allocation one_source)) = [''A'']"
    "\<exists>c. contribution_of (avco_allocation one_source) ''A'' = Inr c \<and> ctb_original_quantity c = 10 \<and> ctb_quantity c = 10"
    "segment_start_quantity_by_key (avco_allocation one_source) (''P'', ''I'') = 10"
    using r(1) q unfolding r(2)
    by (auto simp: add_source_def ids_of_def sample_ids AverageCostSourceAllocation_def contribution_of_def
        obind_eq_Inr rbind_eq_Inr split: sum.splits if_splits)
  show "segment_start_quantity (pool_of one_source (''P'', ''I'')) = 10"
    using r(3) q unfolding p by (auto simp: pool_add_def obind_eq_Inr start_segment_def)
qed

lemma one_source_restated:
  "\<exists>r s'. avco_restate_lot_quantities ''P'' ''I'' 10 one_source = (Inr r, s')"
proof -
  define r where "r = \<lparr>quantity_before = 10, quantity_after = 20 :: rat\<rparr>"
  have r: "LotRestatement 10 20 = Inr r" by (simp add: LotRestatement_Inr r_def sample_numbers)
  then have delta: "from_signed_delta 10 10 = Inr r" using from_signed_delta_Inr [of 10 10 r] sample_numbers by simp
  have applied: "restatement_apply r 10 f = Inr 20" for f
    using restatement_apply_Inr [OF r, of 10 f 20] by (simp add: sample_numbers)
  obtain c where c: "contribution_of (avco_allocation one_source) ''A'' = Inr c" "ctb_original_quantity c = 10" "ctb_quantity c = 10"
    using one_source_parts(2) by blast
  have touched: "pool_of (touch_pool k one_source) k' = pool_of one_source k'" "avco_allocation (touch_pool k one_source) = avco_allocation one_source" for k k'
    by (simp_all add: touch_pool_def pool_of_def)
  show ?thesis
    using delta applied c one_source_wf(3) one_source_parts(1,3,4)
    by (simp add: avco_restate_lot_quantities_def Let_def touched on_allocation_def on_pool_def
        apply_quantity_restatement_def restated_contribution_def)
qed

theorem avco_restate_correct_witness:
  "\<exists>r s'. avco_restate_lot_quantities ''P'' ''I'' 10 one_source = (Inr r, s') \<and> avco_wf s' \<and>
     pool_quantity (pool_of s' (''P'', ''I'')) = 20 \<and> pool_cost_local (pool_of s' (''P'', ''I'')) = 100"
proof -
  obtain r s' where run: "avco_restate_lot_quantities ''P'' ''I'' 10 one_source = (Inr r, s')"
    using one_source_restated by blast
  from avco_restate_correct [OF one_source_wf(2) sample_numbers(5) run] run show ?thesis
    using one_source_wf(3,4) by auto
qed

end
