(* ===== verification/Average_Cost_Resume.thy ===== *)
theory Average_Cost_Resume
  imports Average_Cost_Checkpoint Average_Cost_Properties
begin

text \<open>
  What a checkpoint is for: a strategy restored from the checkpoint of a book continues as the
  strategy it was exported from. Two strategies are related at a book when they have the same pool
  and the same active sources there, whatever else they hold; every operation on the book gives the
  same result on related strategies and leaves them related.
\<close>

section \<open>Strategies that agree on a book\<close>

definition book_sim :: "lot_key \<Rightarrow> avco_state \<Rightarrow> avco_state \<Rightarrow> bool" where
  "book_sim key s t \<longleftrightarrow> pool_of t key = pool_of s key \<and>
     book_agrees key (avco_allocation s) (avco_allocation t) \<and>
     (\<forall>tid \<in> set (ids_of key (active_source_ids_by_key (avco_allocation s))).
        \<exists>c. map_of (contributions (avco_allocation s)) tid = Some c \<and> ctb_book_key c = key)"

definition outcome_sim :: "lot_key \<Rightarrow> ('a, avco_state) outcome \<Rightarrow> ('a, avco_state) outcome \<Rightarrow> bool" where
  "outcome_sim key m n \<longleftrightarrow> fst n = fst m \<and> book_sim key (snd m) (snd n)"

lemma outcome_sim_pair: "outcome_sim key (r, s) (r', t) \<longleftrightarrow> r' = r \<and> book_sim key s t"
  by (simp add: outcome_sim_def)

lemma outcome_sim_obind:
  assumes "outcome_sim key m n" and "\<And>x s t. book_sim key s t \<Longrightarrow> outcome_sim key (f x s) (g x t)"
  shows "outcome_sim key (obind m f) (obind n g)"
  using assms by (cases m; cases n; cases "fst m") (auto simp: outcome_sim_pair obind_def)

lemma named_contributions_agree:
  assumes "book_sim key s t"
  shows "active_source_contributions (avco_allocation t) key = active_source_contributions (avco_allocation s) key"
  using assms unfolding active_source_contributions_def named_contributions_def
  by (auto simp: book_sim_def book_agrees_def contribution_of_def intro!: rmap_cong)

lemma active_contributions_key:
  assumes "book_sim key s t" and "active_source_contributions (avco_allocation s) key = Inr sources"
  shows "\<forall>(tid, c) \<in> set sources. ctb_book_key c = key"
proof (clarify)
  fix tid c assume "(tid, c) \<in> set sources"
  then obtain i where "i < length sources" "sources ! i = (tid, c)" by (auto simp: in_set_conv_nth)
  with rmap_Inr_list_all2 [OF assms(2) [unfolded active_source_contributions_def named_contributions_def]]
  have "i < length (ids_of key (active_source_ids_by_key (avco_allocation s)))"
    "contribution_of (avco_allocation s) (ids_of key (active_source_ids_by_key (avco_allocation s)) ! i) = Inr c"
    by (auto simp: list_all2_conv_all_nth rbind_eq_Inr)
  then obtain tid' where "tid' \<in> set (ids_of key (active_source_ids_by_key (avco_allocation s)))"
    "contribution_of (avco_allocation s) tid' = Inr c" using nth_mem by blast
  then show "ctb_book_key c = key"
    using assms(1) by (auto simp: book_sim_def contribution_of_def split: option.splits)
qed

lemma disposal_factor_agree:
  "book_agrees key A B \<Longrightarrow> ctb_book_key c = key \<Longrightarrow> disposal_factor B c = disposal_factor A c"
  by (simp add: disposal_factor_def book_agrees_def)

lemma materialize_quantities_agree:
  "book_agrees key A B \<Longrightarrow> \<forall>c \<in> set cs. ctb_book_key c = key \<Longrightarrow>
     materialize_quantities B gen agg cs al = materialize_quantities A gen agg cs al"
  by (induction cs arbitrary: al) (auto simp: disposal_factor_agree intro!: rbind_cong)

lemma materialize_states_agree:
  "book_agrees key A B \<Longrightarrow> \<forall>(tid, c, q) \<in> set rows. ctb_book_key c = key \<Longrightarrow>
     materialize_states B key pool ll lb rows al = materialize_states A key pool ll lb rows al"
proof (induction rows arbitrary: al)
  case (Cons row rows)
  obtain tid c q where row: "row = (tid, c, q)" by (cases row)
  have scales: "cost_local_generation_by_key B key = cost_local_generation_by_key A key"
    "cost_base_generation_by_key B key = cost_base_generation_by_key A key"
    "cost_local_scale_by_key B key = cost_local_scale_by_key A key"
    "cost_base_scale_by_key B key = cost_base_scale_by_key A key"
    using Cons.prems(1) by (simp_all add: book_agrees_def)
  have IH: "materialize_states B key pool ll lb rows = materialize_states A key pool ll lb rows"
    by (rule ext, rule Cons.IH [OF Cons.prems(1)]) (use Cons.prems(2) in simp)
  have "disposal_factor B c = disposal_factor A c"
    using Cons.prems by (auto simp: row disposal_factor_agree)
  then show ?case unfolding row materialize_states.simps IH scales by simp
qed simp

lemma materialize_book_agree:
  assumes "book_sim key s t"
  shows "materialize_book key pool (avco_allocation t) = materialize_book key pool (avco_allocation s)"
proof (cases "active_source_contributions (avco_allocation s) key")
  case (Inl e)
  then show ?thesis using named_contributions_agree [OF assms] by (simp add: materialize_book_def)
next
  case (Inr sources)
  have agree: "book_agrees key (avco_allocation s) (avco_allocation t)" using assms by (simp add: book_sim_def)
  have keys: "\<forall>(tid, c) \<in> set sources. ctb_book_key c = key" using active_contributions_key [OF assms Inr] .
  have "\<forall>(tid, c, q) \<in> set (map (\<lambda>((tid, c), q). (tid, c, q)) (zip sources qs)). ctb_book_key c = key" for qs
    using keys by (auto dest!: set_zip_leftD)
  note states = materialize_states_agree [OF agree this]
  have quants: "materialize_quantities (avco_allocation t) gen agg (map snd sources) al =
      materialize_quantities (avco_allocation s) gen agg (map snd sources) al" for gen agg al
    using keys by (intro materialize_quantities_agree [OF agree]) auto
  have gens: "generation_by_key (avco_allocation t) key = generation_by_key (avco_allocation s) key"
    "cost_local_generation_by_key (avco_allocation t) key = cost_local_generation_by_key (avco_allocation s) key"
    "cost_base_generation_by_key (avco_allocation t) key = cost_base_generation_by_key (avco_allocation s) key"
    using agree by (simp_all add: book_agrees_def)
  show ?thesis
    by (simp add: materialize_book_def named_contributions_agree [OF assms] Inr quants gens states Let_def)
qed

lemma on_pool_sim:
  assumes "book_sim key s t"
  shows "outcome_sim key (on_pool key f s) (on_pool key f t)"
  using assms by (auto simp: outcome_sim_def on_pool_def book_sim_def split: prod.splits)

lemma apply_disposal_sim:
  assumes "book_sim key s t"
  shows "outcome_sim key (on_allocation (apply_disposal key b a) s) (on_allocation (apply_disposal key b a) t)"
  using assms
  by (auto simp: outcome_sim_def on_allocation_def apply_disposal_def book_sim_def book_agrees_def reset_book_def
      obind_def ids_of_def Let_def split: prod.splits sum.splits)

lemma touch_pool_sim: "book_sim key s t \<Longrightarrow> book_sim key (touch_pool key s) (touch_pool key t)"
  by (simp add: book_sim_def touch_pool_def)

lemma avco_consume_sim:
  assumes "book_sim (p, i) s t"
  shows "outcome_sim (p, i) (avco_consume_sell_quantity_with_allocations p i q s)
    (avco_consume_sell_quantity_with_allocations p i q t)"
proof -
  have sim: "book_sim (p, i) (touch_pool (p, i) s) (touch_pool (p, i) t)" using touch_pool_sim [OF assms] .
  then have q: "pool_quantity (pool_of (touch_pool (p, i) t) (p, i)) = pool_quantity (pool_of (touch_pool (p, i) s) (p, i))"
    by (simp add: book_sim_def)
  have pools: "book_sim (p, i) s t \<Longrightarrow> pool_of t (p, i) = pool_of s (p, i)" for s t by (simp add: book_sim_def)
  show ?thesis
    unfolding avco_consume_sell_quantity_with_allocations_def Let_def q
    by (auto simp: sim outcome_sim_pair named_contributions_agree [OF sim] materialize_book_agree [OF sim]
        materialize_book_agree pools simp del: allocation_touch intro!: outcome_sim_obind on_pool_sim apply_disposal_sim split: option.splits)
qed


lemma map_of_fold_dict_set_rev: "map_of (fold (\<lambda>(k, v). dict_set k v) ps d) k = (case map_of (rev ps) k of None \<Rightarrow> map_of d k | Some v \<Rightarrow> Some v)"
  by (induction ps arbitrary: d) (auto simp: map_add_def split: option.splits prod.splits)

lemma restated_contributions_agree:
  assumes "book_sim key s t"
  shows "rmap (restated_contribution r (avco_allocation t)) (ids_of key (active_source_ids_by_key (avco_allocation t))) =
    rmap (restated_contribution r (avco_allocation s)) (ids_of key (active_source_ids_by_key (avco_allocation s)))"
  using assms by (auto simp: book_sim_def book_agrees_def restated_contribution_def contribution_of_def intro!: rmap_cong)

lemma restated_contributions_rows:
  assumes "rmap (restated_contribution r A) ids = Inr ps"
  shows "map fst ps = ids \<and> (\<forall>(tid, c') \<in> set ps. \<exists>c. map_of (contributions A) tid = Some c \<and> ctb_book_key c' = ctb_book_key c)"
proof -
  have row: "p = (tid, snd p) \<and> (\<exists>c. map_of (contributions A) tid = Some c \<and> ctb_book_key (snd p) = ctb_book_key c)"
    if "restated_contribution r A tid = Inr p" for tid p
    using that by (auto simp: rbind_eq_Inr restated_contribution_def contribution_of_def split: option.splits)
  have "list_all2 (\<lambda>tid p. restated_contribution r A tid = Inr p) ids ps" using rmap_Inr_list_all2 [OF assms] .
  then show ?thesis
  proof (induction rule: list_all2_induct)
    case (Cons tid ids p ps)
    then show ?case using row [OF Cons.hyps(1)] by (cases p) auto
  qed simp
qed

lemma apply_quantity_restatement_sim:
  assumes "book_sim key s t"
  shows "outcome_sim key (on_allocation (apply_quantity_restatement key r) s) (on_allocation (apply_quantity_restatement key r) t)"
proof (cases "rmap (restated_contribution r (avco_allocation s)) (ids_of key (active_source_ids_by_key (avco_allocation s)))")
  case (Inl e)
  then show ?thesis
    using assms by (simp add: on_allocation_def apply_quantity_restatement_def restated_contributions_agree [OF assms] outcome_sim_pair)
next
  case (Inr ps)
  have seg: "segment_start_quantity_by_key (avco_allocation t) key = segment_start_quantity_by_key (avco_allocation s) key"
    using assms by (simp add: book_sim_def book_agrees_def)
  have keys: "\<exists>c. map_of (fold (\<lambda>(tid, c). dict_set tid c) ps (contributions (avco_allocation s))) tid = Some c \<and> ctb_book_key c = key"
    if "tid \<in> set (ids_of key (active_source_ids_by_key (avco_allocation s)))" for tid
  proof -
    note rows = conjunct1 [OF restated_contributions_rows [OF Inr]] conjunct2 [OF restated_contributions_rows [OF Inr]]
    have "tid \<in> set (map fst (rev ps))" using that unfolding rows(1) [symmetric] by simp
    then have "map_of (rev ps) tid \<noteq> None" by (simp add: map_of_eq_None_iff)
    then obtain c where c: "map_of (rev ps) tid = Some c" by blast
    then have "(tid, c) \<in> set ps" using map_of_SomeD [OF c] by simp
    then obtain c0 where "map_of (contributions (avco_allocation s)) tid = Some c0" "ctb_book_key c = ctb_book_key c0"
      using bspec [OF rows(2)] by auto
    moreover have "ctb_book_key c0 = key"
      using bspec [OF conjunct2 [OF conjunct2 [OF assms [unfolded book_sim_def]]] that] calculation(1) by simp
    ultimately show ?thesis by (simp add: map_of_fold_dict_set_rev c)
  qed
  let ?q = "restatement_apply r (segment_start_quantity_by_key (avco_allocation s) key)
    ''source_allocation_segment_start_quantity''"
  show ?thesis
  proof (cases ?q)
    case (Inl e)
    then show ?thesis
      using assms
      by (simp add: on_allocation_def apply_quantity_restatement_def restated_contributions_agree [OF assms] Inr seg outcome_sim_pair)
  next
    case q: (Inr q)
    let ?upd = "\<lambda>A. A\<lparr>contributions := fold (\<lambda>(tid, c). dict_set tid c) ps (contributions A),
      segment_start_quantity_by_key := (segment_start_quantity_by_key A)(key := q)\<rparr>"
    have "book_agrees key (?upd (avco_allocation s)) (?upd (avco_allocation t))"
      using assms by (simp add: book_sim_def book_agrees_def map_of_fold_dict_set_rev split: option.split)
    then have "book_sim key (s\<lparr>avco_allocation := ?upd (avco_allocation s)\<rparr>) (t\<lparr>avco_allocation := ?upd (avco_allocation t)\<rparr>)"
      using assms keys by (simp add: book_sim_def)
    then show ?thesis
      by (simp add: on_allocation_def apply_quantity_restatement_def restated_contributions_agree [OF assms] Inr seg q outcome_sim_pair)
  qed
qed

lemma avco_restate_sim:
  assumes "book_sim (p, i) s t"
  shows "outcome_sim (p, i) (avco_restate_lot_quantities p i d s) (avco_restate_lot_quantities p i d t)"
proof -
  have sim: "book_sim (p, i) (touch_pool (p, i) s) (touch_pool (p, i) t)" using touch_pool_sim [OF assms] .
  have pools: "pool_of t (p, i) = pool_of s (p, i)" using assms by (simp add: book_sim_def)
  show ?thesis
    unfolding avco_restate_lot_quantities_def Let_def pool_of_touch pools
    by (intro outcome_sim_obind on_pool_sim apply_quantity_restatement_sim) (simp_all add: sim outcome_sim_pair)
qed

lemma apply_basis_transfer_sim:
  assumes "book_sim key s t"
  shows "outcome_sim key (on_allocation (apply_basis_transfer key a b c d) s) (on_allocation (apply_basis_transfer key a b c d) t)"
  using assms
  by (auto simp: outcome_sim_def on_allocation_def apply_basis_transfer_def book_sim_def book_agrees_def
      obind_def split: prod.splits sum.splits)

lemma avco_transfer_sim:
  assumes "book_sim (p, i) s t"
  shows "outcome_sim (p, i) (avco_transfer_basis_out_with_allocations p i cb cl s)
    (avco_transfer_basis_out_with_allocations p i cb cl t)"
proof -
  have sim: "book_sim (p, i) (touch_pool (p, i) s) (touch_pool (p, i) t)" using touch_pool_sim [OF assms] .
  have pools: "book_sim (p, i) s t \<Longrightarrow> pool_of t (p, i) = pool_of s (p, i)" for s t by (simp add: book_sim_def)
  have mat: "materialize_book (p, i) (pool_of s (p, i)) (avco_allocation (touch_pool (p, i) t)) =
      materialize_book (p, i) (pool_of s (p, i)) (avco_allocation (touch_pool (p, i) s))"
    using materialize_book_agree [OF sim] .
  show ?thesis
    unfolding avco_transfer_basis_out_with_allocations_def Let_def pool_of_touch pools [OF assms] mat
    by (auto simp: sim outcome_sim_pair named_contributions_agree materialize_book_agree pools
        simp del: allocation_touch intro!: outcome_sim_obind on_pool_sim apply_basis_transfer_sim split: option.splits)
qed

lemma add_source_sim:
  assumes "book_sim key s t" and "map_of (contributions (avco_allocation s)) tid = None"
    and "map_of (contributions (avco_allocation t)) tid = None"
  shows "outcome_sim key (on_allocation (add_source key tid lid acq q orig cl cb after) s)
    (on_allocation (add_source key tid lid acq q orig cl cb after) t)"
  using assms
  by (auto simp: outcome_sim_def on_allocation_def add_source_def book_sim_def book_agrees_def ids_of_def)

lemma avco_add_sim:
  assumes "book_sim (transaction_key x) s t" and "map_of (contributions (avco_allocation s)) (transaction_id x) = None"
    and "map_of (contributions (avco_allocation t)) (transaction_id x) = None"
  shows "outcome_sim (transaction_key x) (avco_add_buy_lot x s) (avco_add_buy_lot x t)"
proof -
  have step: "outcome_sim (transaction_key x)
      (obind (on_pool (transaction_key x) f s) (\<lambda>_ s. obind (orig, s) (\<lambda>original s. on_allocation
         (add_source (transaction_key x) (transaction_id x) lid acq q (Some original) cl cb
            (pool_quantity (pool_of s (transaction_key x)))) s)))
      (obind (on_pool (transaction_key x) f t) (\<lambda>_ s. obind (orig, s) (\<lambda>original s. on_allocation
         (add_source (transaction_key x) (transaction_id x) lid acq q (Some original) cl cb
            (pool_quantity (pool_of s (transaction_key x)))) s)))" for f orig lid acq q cl cb
  proof -
    obtain r p where f: "f (pool_of s (transaction_key x)) = (r, p)" by (cases "f (pool_of s (transaction_key x))")
    have f': "f (pool_of t (transaction_key x)) = (r, p)" using assms(1) f by (simp add: book_sim_def)
    have sim: "book_sim (transaction_key x) (s\<lparr>avco_pools := dict_set (transaction_key x) p (avco_pools s)\<rparr>)
        (t\<lparr>avco_pools := dict_set (transaction_key x) p (avco_pools t)\<rparr>)"
      using assms(1) by (simp add: book_sim_def)
    show ?thesis
      using sim add_source_sim [OF sim] assms(2,3)
      by (cases r; cases orig) (simp_all add: on_pool_eq [of f s, OF f] on_pool_eq [of f t, OF f'] outcome_sim_pair)
  qed
  show ?thesis
    unfolding avco_add_buy_lot_def Let_def
    using step assms(1) by (auto simp: outcome_sim_pair split: sum.splits option.splits)
qed

section \<open>Export, restore and continue\<close>

lemma AverageCostAllocationCheckpoint_Inr:
  assumes "AverageCostAllocationCheckpoint cp = Inr cp'"
  shows "cp' = cp" "distinct (map acc_source_transaction_id (cp_sources cp))"
    "pcp_quantity (cp_pool cp) \<noteq> 0 \<Longrightarrow> validate_materialized_totals cp = Inr ()"
  using assms by (auto simp: AverageCostAllocationCheckpoint_def Let_def rbind_eq_Inr split: if_splits)

lemma AverageCostPoolCheckpoint_Inr:
  "AverageCostPoolCheckpoint p i sec rep q cl cb = Inr cp \<Longrightarrow>
     cp = \<lparr>pcp_portfolio_id = p, pcp_instrument_id = i, pcp_security_id = sec,
       representative_source_transaction_id = rep, pcp_quantity = q, pcp_cost_local = cl, pcp_cost_base = cb,
       pcp_state_version = AVERAGE_COST_POOL_STATE_VERSION\<rparr>"
  by (auto simp: AverageCostPoolCheckpoint_def rbind_eq_Inr)

definition stripped_source :: "string \<times> source_contribution \<Rightarrow> bool" where
  "stripped_source source \<longleftrightarrow> py_strip (fst source) = fst source \<and>
     py_strip (ctb_source_lot_id (snd source)) = ctb_source_lot_id (snd source)"

lemma accumulator_of_Inr:
  assumes "accumulator_of (n, source) = Inr a" and "stripped_source source" and "ctb_book_key (snd source) = key"
  shows "acc_source_transaction_id a = fst source" "contribution_from key a = snd source"
  using assms
  by (auto simp: accumulator_of_def AverageCostSourceAccumulator_def rbind_eq_Inr stripped_source_def
      contribution_from_def required_text_def split: prod.splits intro!: source_contribution.equality)

lemma exported_sources:
  assumes "rmap accumulator_of (enumerate n sources) = Inr accs" and "list_all stripped_source sources"
    and "\<forall>(tid, c) \<in> set sources. ctb_book_key c = key"
  shows "map (\<lambda>a. (acc_source_transaction_id a, contribution_from key a)) accs = sources"
  using assms
proof (induction sources arbitrary: n accs)
  case (Cons source sources)
  obtain a as where a: "accs = a # as" "accumulator_of (n, source) = Inr a" "rmap accumulator_of (enumerate (Suc n) sources) = Inr as"
    using Cons.prems(1) by (auto simp: rbind_eq_Inr)
  moreover have "acc_source_transaction_id a = fst source" "contribution_from key a = snd source"
    using accumulator_of_Inr [OF a(2)] Cons.prems(2,3) by auto
  ultimately show ?case using Cons.IH [OF a(3)] Cons.prems(2,3) by simp
qed simp

lemma map_of_fold_accumulators:
  "map_of (fold (\<lambda>a. dict_set (acc_source_transaction_id a) (contribution_from key a)) accs d) =
     map_of d ++ map_of (rev (map (\<lambda>a. (acc_source_transaction_id a, contribution_from key a)) accs))"
  by (induction accs arbitrary: d) (auto simp: map_add_assoc [symmetric] simp flip: map_add_upd_left fun_upd_def intro!: ext)

lemma export_agree:
  assumes "book_sim key s t"
  shows "export_checkpoint key sec pool (avco_allocation t) = export_checkpoint key sec pool (avco_allocation s)"
proof -
  have "generation_by_key (avco_allocation t) key = generation_by_key (avco_allocation s) key"
    "disposal_scale_by_key (avco_allocation t) key = disposal_scale_by_key (avco_allocation s) key"
    "segment_start_scale_by_key (avco_allocation t) key = segment_start_scale_by_key (avco_allocation s) key"
    "segment_start_quantity_by_key (avco_allocation t) key = segment_start_quantity_by_key (avco_allocation s) key"
    "cost_local_scale_by_key (avco_allocation t) key = cost_local_scale_by_key (avco_allocation s) key"
    "cost_base_scale_by_key (avco_allocation t) key = cost_base_scale_by_key (avco_allocation s) key"
    "cost_local_generation_by_key (avco_allocation t) key = cost_local_generation_by_key (avco_allocation s) key"
    "cost_base_generation_by_key (avco_allocation t) key = cost_base_generation_by_key (avco_allocation s) key"
    using assms by (simp_all add: book_sim_def book_agrees_def)
  then show ?thesis by (simp add: export_checkpoint_def named_contributions_agree [OF assms] Let_def)
qed

lemma restore_exported:
  assumes wf: "alloc_wf key pool A" and quantity: "0 < pool_quantity pool"
    and strip: "list_all stripped_source (book_sources A key)" and exp: "export_checkpoint key sec pool A = Inr cp"
  shows "\<exists>B. restore_checkpoint cp AverageCostSourceAllocation = (Inr pool, B) \<and> checkpoint_key cp = key \<and> book_agrees key A B"
proof -
  let ?src = "book_sources A key"
  have keys: "\<forall>(tid, c) \<in> set ?src. ctb_book_key c = key" using wf by (auto simp: alloc_wf_def source_wf_def)
  obtain pool_cp accs raw where r: "AverageCostPoolCheckpoint (fst key) (snd key) sec
        (if ?src \<noteq> [] then Some (fst (last ?src)) else None) (pool_quantity pool) (pool_cost_local pool) (pool_cost_base pool) = Inr pool_cp"
      "rmap accumulator_of (enumerate 1 ?src) = Inr accs" "AverageCostAllocationCheckpoint raw = Inr cp"
    and raw: "raw = \<lparr>cp_pool = pool_cp, cp_segment_start_quantity = segment_start_quantity pool,
        cp_segment_start_cost_local = segment_start_cost_local pool, cp_segment_start_cost_base = segment_start_cost_base pool,
        source_allocation_segment_start_quantity = segment_start_quantity_by_key A key,
        allocation_generation = generation_by_key A key, cp_disposal_scale = disposal_scale_by_key A key,
        cp_segment_start_scale = segment_start_scale_by_key A key, cp_cost_local_scale = cost_local_scale_by_key A key,
        cp_cost_base_scale = cost_base_scale_by_key A key, cp_cost_local_generation = cost_local_generation_by_key A key,
        cp_cost_base_generation = cost_base_generation_by_key A key, cp_sources = accs,
        cp_state_version = AVERAGE_COST_ALLOCATION_STATE_VERSION\<rparr>"
    using exp quantity active_source_contributions_wf [OF wf]
    by (auto simp: export_checkpoint_def Let_def rbind_eq_Inr simp del: One_nat_def)
  note cp = AverageCostAllocationCheckpoint_Inr(1,2) [OF r(3)] and pool_cp = AverageCostPoolCheckpoint_Inr [OF r(1)]
  have accs: "map (\<lambda>a. (acc_source_transaction_id a, contribution_from key a)) accs = ?src"
    using exported_sources [OF r(2) strip keys] .
  have ids: "map acc_source_transaction_id accs = ids_of key (active_source_ids_by_key A)"
    using arg_cong [OF accs, of "map fst"] by (simp add: comp_def)
  have dist: "distinct (map fst ?src)" using wf by (simp add: alloc_wf_def)
  have key: "checkpoint_key cp = key" by (simp add: checkpoint_key_def cp(1) raw pool_cp)
  obtain P B where PB: "restore_checkpoint cp AverageCostSourceAllocation = (Inr P, B)"
    by (simp add: restore_checkpoint_def Let_def AverageCostSourceAllocation_def)
  have P: "P = pool"
    using PB by (auto simp: restore_checkpoint_def Let_def AverageCostSourceAllocation_def cp(1) raw pool_cp)
  have rev: "map_of (rev ?src) = map_of ?src"
    using dist by (subst map_of_inject_set) (simp_all add: distinct_map flip: rev_map)
  have B: "map_of (contributions B) = map_of ?src"
    using PB map_of_fold_accumulators [of key accs "[]"] accs rev
    by (auto simp: restore_checkpoint_def Let_def AverageCostSourceAllocation_def key) (simp add: cp(1) raw)
  have look: "map_of ?src tid = map_of (contributions A) tid" if "tid \<in> set (ids_of key (active_source_ids_by_key A))" for tid
    using that wf by (auto simp: book_sources_def map_of_map_restrict alloc_wf_def)
  have "ids_of key (active_source_ids_by_key B) = ids_of key (active_source_ids_by_key A)"
    using PB by (auto simp: restore_checkpoint_def Let_def AverageCostSourceAllocation_def ids_of_def key)
      (simp add: cp(1) raw ids ids_of_def)
  moreover have "generation_by_key B key = generation_by_key A key \<and> disposal_scale_by_key B key = disposal_scale_by_key A key \<and>
     segment_start_scale_by_key B key = segment_start_scale_by_key A key \<and>
     segment_start_quantity_by_key B key = segment_start_quantity_by_key A key \<and>
     cost_local_scale_by_key B key = cost_local_scale_by_key A key \<and>
     cost_base_scale_by_key B key = cost_base_scale_by_key A key \<and>
     cost_local_generation_by_key B key = cost_local_generation_by_key A key \<and>
     cost_base_generation_by_key B key = cost_base_generation_by_key A key"
    using PB by (auto simp: restore_checkpoint_def Let_def AverageCostSourceAllocation_def key) (simp_all add: cp(1) raw)
  ultimately have "book_agrees key A B" using look by (simp add: book_agrees_def B)
  then show ?thesis using PB P key by blast
qed

end
