(* ===== verification/Average_Cost_Export.thy ===== *)
theory Average_Cost_Export
  imports Average_Cost_Resume
begin

text \<open>
  When the checkpoint of an average-cost book can be written: a book that has only seen acquisitions
  always exports, and a book with disposals may be refused by the checkpoint's own validation. Holds
  the properties of checkpoints.
\<close>

section \<open>Books without disposals\<close>

text \<open>A book into which only acquisitions were booked: no scale has moved, and the pool is the sum of
  its sources.\<close>

definition undisposed_source :: "source_contribution \<Rightarrow> bool" where
  "undisposed_source c \<longleftrightarrow> disposal_scale_at_entry c = 1 \<and> cost_local_scale_at_entry c = 1 \<and>
     cost_base_scale_at_entry c = 1 \<and> ctb_cost_local_generation c = 0 \<and> ctb_cost_base_generation c = 0"

definition undisposed :: "lot_key \<Rightarrow> avco_state \<Rightarrow> bool" where
  "undisposed key s \<longleftrightarrow>
     (let A = avco_allocation s; pool = pool_of s key; sources = map snd (book_sources A key) in
      generation_by_key A key = 0 \<and> disposal_scale_by_key A key = 1 \<and> segment_start_scale_by_key A key = 1 \<and>
      cost_local_scale_by_key A key = 1 \<and> cost_base_scale_by_key A key = 1 \<and>
      cost_local_generation_by_key A key = 0 \<and> cost_base_generation_by_key A key = 0 \<and>
      segment_start_quantity_by_key A key = pool_quantity pool \<and>
      segment_start_quantity pool = pool_quantity pool \<and> segment_start_cost_local pool = pool_cost_local pool \<and>
      segment_start_cost_base pool = pool_cost_base pool \<and> list_all undisposed_source sources \<and>
      sum_list (map ctb_quantity sources) = pool_quantity pool \<and>
      sum_list (map ctb_cost_local sources) = pool_cost_local pool \<and>
      sum_list (map ctb_cost_base sources) = pool_cost_base pool)"

lemma normalize_checkpoint_storable:
  assumes "ledger_amount x" shows "normalize_checkpoint_value x = Inr x"
proof -
  obtain m where m: "x * 10 ^ 10 = of_int m" using assms by (auto simp: ledger_amount_iff on_scale_def elim: Ints_cases)
  have "\<bar>x * 10 ^ 10\<bar> < 10 ^ 18" using assms by (simp add: ledger_amount_iff abs_mult)
  then have "\<bar>of_int m :: rat\<bar> < of_int (10 ^ 18)" using m by simp
  then have "\<bar>m\<bar> < 10 ^ 18" by (simp only: of_int_abs [symmetric] of_int_less_iff)
  also have "(10::int) ^ 18 \<le> 10 ^ context_precision state_policy"
    by (rule power_increasing) (simp_all add: context_precision_def policy_instances)
  finally have "\<bar>m\<bar> < 10 ^ context_precision state_policy" .
  moreover have "x = of_int m / 10 ^ 10" using m by (simp add: field_simps)
  ultimately show ?thesis by (simp add: normalize_checkpoint_value_def dec_quantize_def m Let_def)
qed

lemma unit_scaling:
  assumes "ledger_amount x"
  shows "dec_mul (context_precision state_policy) x 1 = x" "dec_div (context_precision state_policy) x 1 = Inr x"
  using assms by (simp_all add: dec_mul_def dec_div_def cost_state.sig_round_storable)

lemma materialized_sum_unit:
  assumes "\<forall>a \<in> set accs. acc_disposal_scale_at_entry a = 1 \<and> ledger_amount (field a) \<and> 0 \<le> field a"
    and "case scaling of None \<Rightarrow> True | Some (sc, e) \<Rightarrow> sc = 1 \<and> (\<forall>a \<in> set accs. e a = 1)"
    and "case generation of None \<Rightarrow> True | Some (g, cur) \<Rightarrow> \<forall>a \<in> set accs. g a = cur"
    and "ledger_amount x" "0 \<le> x" "x + (\<Sum>a\<leftarrow>accs. field a) < ledger_limit"
  shows "materialized_sum 1 field scaling generation accs x = Inr (x + (\<Sum>a\<leftarrow>accs. field a))"
  using assms
proof (induction accs arbitrary: x)
  case (Cons a accs)
  have a: "acc_disposal_scale_at_entry a = 1" "ledger_amount (field a)" "0 \<le> field a" using Cons.prems(1) by auto
  have rest: "0 \<le> (\<Sum>a\<leftarrow>accs. field a)" using Cons.prems(1) by (intro sum_list_nonneg') auto
  have "x + field a < ledger_limit" using Cons.prems(6) rest by simp
  note add = nonneg_adds(2,3) [OF Cons.prems(4,5) a(2,3) this]
  have sum: "dec_add (context_precision state_policy) x (field a) = x + field a"
    using Cons.prems(4) a(2) by (simp add: dec_add_def cost_state.sig_round_storable_add)
  have skip: "\<not> (case generation of None \<Rightarrow> False | Some (g, cur) \<Rightarrow> g a \<noteq> cur)"
    using Cons.prems(3) by (auto split: option.splits)
  have scale: "(case scaling of None \<Rightarrow> Inr (field a)
       | Some (sc, e) \<Rightarrow> dec_div (context_precision state_policy) (dec_mul (context_precision state_policy) (field a) sc) (e a))
      = Inr (field a)"
    using Cons.prems(2) unit_scaling [OF a(2)] by (auto split: option.splits)
  have "materialized_sum 1 field scaling generation accs (x + field a) = Inr (x + field a + (\<Sum>a\<leftarrow>accs. field a))"
  proof (rule Cons.IH)
    show "case scaling of None \<Rightarrow> True | Some (sc, e) \<Rightarrow> sc = 1 \<and> (\<forall>a \<in> set accs. e a = 1)"
      using Cons.prems(2) by (auto split: option.splits)
    show "case generation of None \<Rightarrow> True | Some (g, cur) \<Rightarrow> \<forall>a \<in> set accs. g a = cur"
      using Cons.prems(3) by (auto split: option.splits)
  qed (use Cons.prems(1,6) add in auto)
  then show ?case using skip scale by (simp add: a(1) unit_scaling [OF a(2)] sum add.assoc)
qed simp

definition accumulator_view :: "nat \<times> string \<times> source_contribution \<Rightarrow> source_accumulator" where
  "accumulator_view row =
     (case row of (sequence, tid, c) \<Rightarrow>
       \<lparr>acc_source_transaction_id = tid, acc_source_lot_id = ctb_source_lot_id c,
        acc_source_acquisition_date = ctb_source_acquisition_date c, acc_source_sequence = int sequence,
        acc_generation = ctb_generation c, acc_original_quantity = ctb_original_quantity c,
        acc_quantity = ctb_quantity c, acc_cost_local = ctb_cost_local c, acc_cost_base = ctb_cost_base c,
        acc_disposal_scale_at_entry = disposal_scale_at_entry c,
        acc_cost_local_scale_at_entry = cost_local_scale_at_entry c,
        acc_cost_base_scale_at_entry = cost_base_scale_at_entry c,
        acc_cost_local_generation = ctb_cost_local_generation c,
        acc_cost_base_generation = ctb_cost_base_generation c\<rparr>)"

lemma accumulator_of_wf:
  assumes "source_wf A key (snd source)" and "undisposed_source (snd source)" and "generation_by_key A key = 0"
    and "stripped_source source" and "py_strip (fst source) \<noteq> []" and "py_strip (ctb_source_lot_id (snd source)) \<noteq> []"
    and "1 \<le> n"
  shows "accumulator_of (n, source) = Inr (accumulator_view (n, source))"
  using assms
  by (cases source)
    (simp add: accumulator_of_def AverageCostSourceAccumulator_def accumulator_view_def required_text_def
      stripped_source_def source_wf_def undisposed_source_def checkpoint_require_decimal_def require_nonnegative_integer_def)

lemma accumulator_view_simps [simp]:
  "acc_source_transaction_id (accumulator_view row) = fst (snd row)"
  "acc_source_lot_id (accumulator_view row) = ctb_source_lot_id (snd (snd row))"
  "acc_source_sequence (accumulator_view row) = int (fst row)"
  "acc_generation (accumulator_view row) = ctb_generation (snd (snd row))"
  "acc_quantity (accumulator_view row) = ctb_quantity (snd (snd row))"
  "acc_cost_local (accumulator_view row) = ctb_cost_local (snd (snd row))"
  "acc_cost_base (accumulator_view row) = ctb_cost_base (snd (snd row))"
  "acc_disposal_scale_at_entry (accumulator_view row) = disposal_scale_at_entry (snd (snd row))"
  "acc_cost_local_scale_at_entry (accumulator_view row) = cost_local_scale_at_entry (snd (snd row))"
  "acc_cost_base_scale_at_entry (accumulator_view row) = cost_base_scale_at_entry (snd (snd row))"
  "acc_cost_local_generation (accumulator_view row) = ctb_cost_local_generation (snd (snd row))"
  "acc_cost_base_generation (accumulator_view row) = ctb_cost_base_generation (snd (snd row))"
  by (simp_all add: accumulator_view_def case_prod_unfold)

lemma map_snd_enumerate: "map (\<lambda>row. f (snd row)) (enumerate n xs) = map f xs"
  by (induction xs arbitrary: n) auto

lemma undisposedD:
  assumes "undisposed key s"
  shows "generation_by_key (avco_allocation s) key = 0" "disposal_scale_by_key (avco_allocation s) key = 1"
    "segment_start_scale_by_key (avco_allocation s) key = 1" "cost_local_scale_by_key (avco_allocation s) key = 1"
    "cost_base_scale_by_key (avco_allocation s) key = 1" "cost_local_generation_by_key (avco_allocation s) key = 0"
    "cost_base_generation_by_key (avco_allocation s) key = 0"
    "segment_start_quantity_by_key (avco_allocation s) key = pool_quantity (pool_of s key)"
    "segment_start_quantity (pool_of s key) = pool_quantity (pool_of s key)"
    "segment_start_cost_local (pool_of s key) = pool_cost_local (pool_of s key)"
    "segment_start_cost_base (pool_of s key) = pool_cost_base (pool_of s key)"
    "list_all undisposed_source (map snd (book_sources (avco_allocation s) key))"
    "sum_list (map ctb_quantity (map snd (book_sources (avco_allocation s) key))) = pool_quantity (pool_of s key)"
    "sum_list (map ctb_cost_local (map snd (book_sources (avco_allocation s) key))) = pool_cost_local (pool_of s key)"
    "sum_list (map ctb_cost_base (map snd (book_sources (avco_allocation s) key))) = pool_cost_base (pool_of s key)"
  using assms unfolding undisposed_def Let_def by blast+

lemma undisposed_totals:
  assumes wf: "avco_wf s" and u: "undisposed key s" and quantity: "0 < pool_quantity (pool_of s key)"
    and cp: "cp_pool cp = pool_cp" "pcp_quantity pool_cp = pool_quantity (pool_of s key)"
      "pcp_cost_local pool_cp = pool_cost_local (pool_of s key)" "pcp_cost_base pool_cp = pool_cost_base (pool_of s key)"
      "cp_segment_start_quantity cp = pool_quantity (pool_of s key)"
      "cp_segment_start_cost_local cp = pool_cost_local (pool_of s key)"
      "cp_segment_start_cost_base cp = pool_cost_base (pool_of s key)"
      "source_allocation_segment_start_quantity cp = pool_quantity (pool_of s key)"
      "cp_disposal_scale cp = 1" "cp_segment_start_scale cp = 1" "cp_cost_local_scale cp = 1" "cp_cost_base_scale cp = 1"
      "cp_cost_local_generation cp = 0" "cp_cost_base_generation cp = 0"
      "cp_sources cp = map accumulator_view (enumerate 1 (book_sources (avco_allocation s) key))"
  shows "validate_materialized_totals cp = Inr ()"
proof -
  let ?p = "context_precision state_policy" and ?P = "pool_of s key" and ?src = "book_sources (avco_allocation s) key"
  have pw: "pool_wf ?P" using avco_wfD(1) [OF wf] .
  note costs = pool_wf_costs [OF pw]
  have q: "ledger_amount (pool_quantity ?P)" using pw by (simp add: pool_wf_def)
  have one: "ledger_amount 1" by (simp add: ledger_amount_iff)
  have scale: "dec_div ?p (dec_mul ?p 1 (pool_quantity ?P)) (pool_quantity ?P) = Inr 1"
    using quantity q one by (simp add: dec_div_def dec_mul_def cost_state.sig_round_storable)
  have seg: "segment_remaining_cost c (pool_quantity ?P) (pool_quantity ?P) = Inr c" if "ledger_amount c" for c
    using quantity q that
    by (simp add: segment_remaining_cost_def dec_div_def dec_mul_def cost_state.sig_round_storable_mult cost_state.sig_round_storable)
  have src: "source_wf (avco_allocation s) key (snd x) \<and> undisposed_source (snd x)" if "x \<in> set ?src" for x
    using that avco_wfD(2) [OF wf, of key] undisposedD(12) [OF u] by (auto simp: alloc_wf_def list_all_iff)
  have rows: "source_wf (avco_allocation s) key (snd (snd row)) \<and> undisposed_source (snd (snd row))"
    if "row \<in> set (enumerate n ?src)" for row n
  proof -
    have "snd row \<in> set ?src"
      using that nth_mem [of "fst row - n" ?src] by (simp add: in_set_enumerate_eq less_diff_conv2)
    then show ?thesis using src by blast
  qed
  have tot: "materialized_total cp field scaling generation = Inr t"
    if "\<And>row. field (accumulator_view row) = g (snd (snd row))"
      "\<And>c. source_wf (avco_allocation s) key c \<Longrightarrow> ledger_amount (g c) \<and> 0 \<le> g c" "sum_list (map g (map snd ?src)) = t"
      "ledger_amount t" "0 \<le> t"
      "case scaling of None \<Rightarrow> True | Some (sc, e) \<Rightarrow> sc = 1 \<and> (\<forall>a \<in> set (cp_sources cp). e a = 1)"
      "case generation of None \<Rightarrow> True | Some (gen, cur) \<Rightarrow> \<forall>a \<in> set (cp_sources cp). gen a = cur" for field scaling generation g t
  proof -
    have sum: "(\<Sum>a\<leftarrow>cp_sources cp. field a) = t"
      using that(3) by (simp add: cp(15) that(1) comp_def map_snd_enumerate [where f = "\<lambda>x. g (snd x)"] del: One_nat_def)
    have "materialized_sum 1 field scaling generation (cp_sources cp) 0 = Inr (0 + (\<Sum>a\<leftarrow>cp_sources cp. field a))"
    proof (rule materialized_sum_unit)
      show "\<forall>a \<in> set (cp_sources cp). acc_disposal_scale_at_entry a = 1 \<and> ledger_amount (field a) \<and> 0 \<le> field a"
        using rows that(1,2) by (auto simp: cp(15) undisposed_source_def simp del: One_nat_def)
      show "0 + (\<Sum>a\<leftarrow>cp_sources cp. field a) < ledger_limit" using that(4,5) sum unfolding ledger_amount_iff by linarith
    qed (use that in \<open>simp_all add: ledger_amount_iff\<close>)
    then show ?thesis using sum that(4) by (simp add: materialized_total_def cp(9) normalize_checkpoint_storable)
  qed
  have ones: "acc_cost_local_scale_at_entry a = 1 \<and> acc_cost_base_scale_at_entry a = 1 \<and>
      acc_cost_local_generation a = 0 \<and> acc_cost_base_generation a = 0" if "a \<in> set (cp_sources cp)" for a
    using that rows by (auto simp: cp(15) undisposed_source_def simp del: One_nat_def)
  have "materialized_total cp acc_quantity None None = Inr (pool_quantity ?P)"
    by (rule tot [where g = ctb_quantity]) (use undisposedD(13) [OF u] q quantity in \<open>auto simp: source_wf_def\<close>)
  moreover have "materialized_total cp acc_cost_local (Some (1, acc_cost_local_scale_at_entry)) (Some (acc_cost_local_generation, 0)) =
      Inr (pool_cost_local ?P)"
    by (rule tot [where g = ctb_cost_local]) (use undisposedD(14) [OF u] costs ones in \<open>auto simp: source_wf_def\<close>)
  moreover have "materialized_total cp acc_cost_base (Some (1, acc_cost_base_scale_at_entry)) (Some (acc_cost_base_generation, 0)) =
      Inr (pool_cost_base ?P)"
    by (rule tot [where g = ctb_cost_base]) (use undisposedD(15) [OF u] costs ones in \<open>auto simp: source_wf_def\<close>)
  ultimately show ?thesis
    using scale seg costs
    by (simp add: validate_materialized_totals_def Let_def cp normalize_checkpoint_storable one)
qed

lemma export_undisposed:
  assumes wf: "avco_wf s" and u: "undisposed key s" and quantity: "0 < pool_quantity (pool_of s key)"
    and strip: "list_all stripped_source (book_sources (avco_allocation s) key)"
  shows "\<exists>cp. export_checkpoint key sec (pool_of s key) (avco_allocation s) = Inr cp"
proof -
  let ?A = "avco_allocation s" and ?P = "pool_of s key"
  let ?src = "book_sources ?A key"
  let ?accs = "map accumulator_view (enumerate 1 ?src)"
  note ud = undisposedD [OF u]
  have aw: "alloc_wf key ?P ?A" using avco_wfD(2) [OF wf] .
  have pw: "pool_wf ?P" using avco_wfD(1) [OF wf] .
  have src: "source_wf ?A key (snd x) \<and> undisposed_source (snd x) \<and> stripped_source x \<and> py_strip (fst x) \<noteq> [] \<and>
      py_strip (ctb_source_lot_id (snd x)) \<noteq> []" if "x \<in> set ?src" for x
    using that aw ud(12) strip by (auto simp: alloc_wf_def list_all_iff)
  have row: "1 \<le> fst row \<and> snd row \<in> set ?src" if "row \<in> set (enumerate 1 ?src)" for row
    using that nth_mem [of "fst row - 1" ?src] by (simp add: in_set_enumerate_eq less_diff_conv2 del: One_nat_def)
  have accs: "rmap accumulator_of (enumerate 1 ?src) = Inr ?accs"
  proof (rule rmap_total)
    fix row assume "row \<in> set (enumerate 1 ?src)"
    from row [OF this] show "accumulator_of row = Inr (accumulator_view row)"
      using src [of "snd row"] accumulator_of_wf [of ?A key "snd row" "fst row"] ud(1) by simp
  qed
  have nonempty: "?src \<noteq> []" using quantity ud(13) by auto
  have rep: "fst (last ?src) \<in> set (map fst ?src)"
    unfolding set_map using last_in_set [OF nonempty] by (rule imageI)
  have rep': "fst (last ?src) \<noteq> []"
    using last_in_set [OF nonempty] src [of "last ?src"] by (auto simp: py_strip_def py_lstrip_def)
  define pool_cp where "pool_cp = \<lparr>pcp_portfolio_id = fst key, pcp_instrument_id = snd key, pcp_security_id = sec,
    representative_source_transaction_id = Some (fst (last ?src)), pcp_quantity = pool_quantity ?P,
    pcp_cost_local = pool_cost_local ?P, pcp_cost_base = pool_cost_base ?P,
    pcp_state_version = AVERAGE_COST_POOL_STATE_VERSION\<rparr>"
  have pool_cp: "AverageCostPoolCheckpoint (fst key) (snd key) sec (Some (fst (last ?src)))
      (pool_quantity ?P) (pool_cost_local ?P) (pool_cost_base ?P) = Inr pool_cp"
    using quantity pool_wf_costs [OF pw] rep'
    by (simp add: AverageCostPoolCheckpoint_def require_nonnegative_finite_def pool_cp_def)
  define cp where "cp = \<lparr>cp_pool = pool_cp, cp_segment_start_quantity = pool_quantity ?P,
    cp_segment_start_cost_local = pool_cost_local ?P, cp_segment_start_cost_base = pool_cost_base ?P,
    source_allocation_segment_start_quantity = pool_quantity ?P, allocation_generation = 0, cp_disposal_scale = 1,
    cp_segment_start_scale = 1, cp_cost_local_scale = 1, cp_cost_base_scale = 1, cp_cost_local_generation = 0,
    cp_cost_base_generation = 0, cp_sources = ?accs, cp_state_version = AVERAGE_COST_ALLOCATION_STATE_VERSION\<rparr>"
  have totals: "validate_materialized_totals cp = Inr ()"
    by (rule undisposed_totals [OF wf u quantity, of _ pool_cp]) (simp_all add: cp_def pool_cp_def)
  have ids: "map acc_source_transaction_id ?accs = map fst ?src"
    using map_snd_enumerate [of fst 1 ?src] by (simp add: comp_def del: One_nat_def)
  have lots: "map acc_source_lot_id ?accs = source_names ?src"
  proof -
    have "map acc_source_lot_id ?accs = map (\<lambda>x. ctb_source_lot_id (snd x)) ?src"
      using map_snd_enumerate [of "\<lambda>x. ctb_source_lot_id (snd x)" 1 ?src] by (simp add: comp_def del: One_nat_def)
    also have "\<dots> = source_names ?src"
      by (rule map_cong [OF refl]) (use src in \<open>auto simp: stripped_source_def\<close>)
    finally show ?thesis .
  qed
  have seqs: "map acc_source_sequence ?accs = map int [1..<length ?accs + 1]"
  proof -
    have "map acc_source_sequence ?accs = map int (map fst (enumerate 1 ?src))"
      unfolding map_map comp_def by (simp del: One_nat_def)
    also have "map fst (enumerate 1 ?src) = [1..<length ?accs + 1]"
      by (rule nth_equalityI) (simp_all add: nth_enumerate_eq del: One_nat_def upt_Suc)
    finally show ?thesis .
  qed
  have gens: "list_all (\<lambda>a. acc_generation a = 0) ?accs"
    "list_all (\<lambda>a. acc_cost_local_generation a \<le> 0 \<and> acc_cost_base_generation a \<le> 0) ?accs"
    using row src ud(1) by (auto simp: list_all_iff source_wf_def undisposed_source_def simp del: One_nat_def)
  have accs_nonempty: "enumerate 1 ?src \<noteq> []" using nonempty by (cases ?src) simp_all
  have dist: "distinct (map fst ?src)" "distinct (source_names ?src)" using aw by (auto simp: alloc_wf_def)
  have fields: "cp_pool cp = pool_cp" "pcp_quantity pool_cp = pool_quantity ?P" "cp_segment_start_quantity cp = pool_quantity ?P"
    "cp_segment_start_cost_local cp = pool_cost_local ?P" "cp_segment_start_cost_base cp = pool_cost_base ?P"
    "source_allocation_segment_start_quantity cp = pool_quantity ?P" "allocation_generation cp = 0"
    "cp_disposal_scale cp = 1" "cp_segment_start_scale cp = 1" "cp_cost_local_scale cp = 1" "cp_cost_base_scale cp = 1"
    "cp_cost_local_generation cp = 0" "cp_cost_base_generation cp = 0"
    "cp_state_version cp = AVERAGE_COST_ALLOCATION_STATE_VERSION"
    by (simp_all add: cp_def pool_cp_def)
  have "distinct (map acc_source_transaction_id (cp_sources cp))" "distinct (map acc_source_lot_id (cp_sources cp))"
    "map acc_source_sequence (cp_sources cp) = map int [1..<length (cp_sources cp) + 1]" "cp_sources cp \<noteq> []"
    "list_all (\<lambda>a. acc_generation a = 0) (cp_sources cp)"
    "list_all (\<lambda>a. acc_cost_local_generation a \<le> 0 \<and> acc_cost_base_generation a \<le> 0) (cp_sources cp)"
    "representative_source_transaction_id pool_cp \<in> Some ` set (map acc_source_transaction_id (cp_sources cp))"
    using dist gens accs_nonempty rep unfolding ids [symmetric] lots [symmetric] seqs [symmetric]
    by (simp_all add: cp_def pool_cp_def seqs del: One_nat_def upt_Suc set_map map_map)
  then have "AverageCostAllocationCheckpoint cp = Inr cp"
    using totals quantity pool_wf_costs [OF pw]
    by (simp add: AverageCostAllocationCheckpoint_def Let_def fields checkpoint_require_decimal_def
        require_nonnegative_integer_def del: One_nat_def upt_Suc set_map)
  then show ?thesis
    using accs pool_cp nonempty quantity ud active_source_contributions_wf [OF aw]
    by (simp add: export_checkpoint_def Let_def cp_def del: One_nat_def)
qed

lemma undisposed_empty: "undisposed key AverageCostBasisStrategy"
  by (simp add: undisposed_def AverageCostPool_def) (simp add: AverageCostSourceAllocation_def)

lemma pool_add_segment:
  assumes "pool_add q cl cb p = (Inr (), p')"
  shows "segment_start_quantity p' = pool_quantity p'" "segment_start_cost_local p' = pool_cost_local p'"
    "segment_start_cost_base p' = pool_cost_base p'"
  using assms by (auto simp: pool_add_def obind_eq_Inr Let_def start_segment_def)

lemma add_source_book:
  assumes fresh: "map_of (contributions A) tid = None" and dom: "set (ids_of key (active_source_ids_by_key A)) \<subseteq> dom (map_of (contributions A))"
    and run: "add_source key tid lid acq q (Some orig) cl cb after A = (r, A')"
  shows "book_sources A' key = book_sources A key @ [(tid, \<lparr>ctb_book_key = key, ctb_source_lot_id = lid,
    ctb_source_acquisition_date = acq, ctb_generation = generation_by_key A key, ctb_original_quantity = orig,
    ctb_quantity = q, ctb_cost_local = cl, ctb_cost_base = cb, disposal_scale_at_entry = disposal_scale_by_key A key,
    cost_local_scale_at_entry = cost_local_scale_by_key A key, cost_base_scale_at_entry = cost_base_scale_by_key A key,
    ctb_cost_local_generation = cost_local_generation_by_key A key,
    ctb_cost_base_generation = cost_base_generation_by_key A key\<rparr>)]"
proof -
  have "tid \<notin> set (ids_of key (active_source_ids_by_key A))" using fresh dom by (auto simp: domIff)
  then show ?thesis using run fresh by (auto simp: add_source_def book_sources_def ids_of_def)
qed

lemma avco_add_undisposed:
  assumes wf: "avco_wf s" and u: "undisposed key s" and b: "avco_bookable t s q base local original"
    and key: "key = transaction_key t" and run: "avco_add_buy_lot t s = (Inr (), s')"
  shows "undisposed key s' \<and> map (\<lambda>(tid, c). (tid, ctb_source_lot_id c)) (book_sources (avco_allocation s') key) =
    map (\<lambda>(tid, c). (tid, ctb_source_lot_id c)) (book_sources (avco_allocation s) key) @ [(transaction_id t, ''LOT-'' @ transaction_id t)]"
proof -
  let ?A = "avco_allocation s"
  have v: "validated_buy_lot_inputs t = Inr (Some (q, base, local))" "source_lot_original_quantity_of t q = Inr original"
    and fresh: "map_of (contributions ?A) (transaction_id t) = None"
    using b by (simp_all add: avco_bookable_def)
  obtain p where p: "pool_add q local base (pool_of s key) = (Inr (), p)" "pool_quantity p = pool_quantity (pool_of s key) + q"
    "pool_cost_local p = pool_cost_local (pool_of s key) + local" "pool_cost_base p = pool_cost_base (pool_of s key) + base"
    using pool_add_wf [OF avco_wfD(1) [OF wf, of key], of q local base] b key by (auto simp: avco_bookable_def)
  obtain A' where A': "add_source key (transaction_id t) (''LOT-'' @ transaction_id t) (utc_transaction_date t) q (Some original)
      local base (pool_quantity p) ?A = (Inr (), A')"
    using fresh by (simp add: add_source_def)
  have s': "s' = s\<lparr>avco_pools := dict_set key p (avco_pools s), avco_allocation := A'\<rparr>"
    using run v on_pool_eq [of "pool_add q local base" s key, OF p(1)] A'
    by (simp add: avco_add_buy_lot_def Let_def on_allocation_def flip: key)
  have dom: "set (ids_of key (active_source_ids_by_key ?A)) \<subseteq> dom (map_of (contributions ?A))"
    using avco_wfD(2) [OF wf, of key] by (simp add: alloc_wf_def)
  note book = add_source_book [OF fresh dom A']
  have scales: "generation_by_key A' = generation_by_key ?A" "disposal_scale_by_key A' = disposal_scale_by_key ?A"
    "segment_start_scale_by_key A' key = disposal_scale_by_key ?A key" "cost_local_scale_by_key A' = cost_local_scale_by_key ?A"
    "cost_base_scale_by_key A' = cost_base_scale_by_key ?A" "cost_local_generation_by_key A' = cost_local_generation_by_key ?A"
    "cost_base_generation_by_key A' = cost_base_generation_by_key ?A" "segment_start_quantity_by_key A' key = pool_quantity p"
    using A' fresh by (auto simp: add_source_def)
  have pool': "pool_of s' key = p" "avco_allocation s' = A'" by (simp_all add: s' pool_of_def)
  have "undisposed key s'"
    using undisposedD [OF u] pool_add_segment [OF p(1)] p(2-4)
    by (simp add: undisposed_def Let_def pool' scales book undisposed_source_def)
  then show ?thesis by (simp add: pool'(2) book)
qed

section \<open>Properties of checkpoints\<close>

lemma py_strip_lot_id:
  assumes "py_strip x = x" and "x \<noteq> []"
  shows "py_strip (''LOT-'' @ x) = ''LOT-'' @ x"
proof -
  have "\<not> is_py_space (last x)"
  proof
    assume sp: "is_py_space (last x)"
    have "py_lstrip x = x"
    proof -
      have "length (py_strip x) \<le> length (py_lstrip x)" "length (py_lstrip x) \<le> length x"
        by (simp_all add: py_strip_def py_lstrip_def length_dropWhile_le le_trans [OF length_dropWhile_le])
      then have "length (py_lstrip x) = length x" using assms(1) by simp
      then show ?thesis unfolding py_lstrip_def by (metis append_Nil append_eq_conv_conj length_0_conv takeWhile_dropWhile_id length_append add_cancel_left_left)
    qed
    then have eq: "dropWhile is_py_space (rev x) = rev x" using assms(1) by (simp add: py_strip_def py_lstrip_def rev_swap)
    obtain y ys where rx: "rev x = y # ys" using assms(2) by (cases "rev x") auto
    have "is_py_space y" using sp rx by (metis hd_rev list.sel(1))
    then have "dropWhile is_py_space ys = y # ys" using eq unfolding rx by simp
    then show False using length_dropWhile_le [of is_py_space ys] by simp
  qed
  moreover have "rev x = last x # tl (rev x)" using assms(2) by (metis hd_Cons_tl hd_rev rev_is_Nil_conv)
  ultimately have "dropWhile is_py_space (rev x @ rev ''LOT-'') = rev x @ rev ''LOT-''"
    by (metis append_Cons dropWhile.simps(2))
  moreover have "py_lstrip (''LOT-'' @ x) = ''LOT-'' @ x" by (simp add: py_lstrip_def is_py_space_def)
  ultimately show ?thesis by (simp add: py_strip_def py_lstrip_def)
qed

lemma export_checkpoint_Inr:
  assumes "export_checkpoint key sec pool A = Inr cp" and "active_source_contributions A key = Inr sources"
  shows "pcp_quantity (cp_pool cp) = pool_quantity pool" "length (cp_sources cp) = length sources"
  using assms
  by (auto simp: export_checkpoint_def Let_def rbind_eq_Inr simp del: One_nat_def
      dest!: AverageCostAllocationCheckpoint_Inr(1) AverageCostPoolCheckpoint_Inr rmap_Inr_length)

text \<open>
  C8. Exporting the checkpoint of an open average-cost book and restoring it gives a strategy that
  continues as the original: it exports the same checkpoint again, and every sale, restatement and
  basis transfer of the book returns the same result on both and leaves them in agreement on the
  book. Identifiers are assumed to carry no surrounding white space, which the checkpoint strips.
\<close>

theorem avco_checkpoint_roundtrip:
  assumes "avco_wf s" and "0 < pool_quantity (pool_of s (p, i))"
    and "list_all stripped_source (book_sources (avco_allocation s) (p, i))"
    and "export_allocation_checkpoint p i sec s = Inr cp"
  shows "\<exists>t. from_allocation_checkpoint cp = Inr t \<and> export_allocation_checkpoint p i sec t = Inr cp \<and>
    (\<forall>q. outcome_sim (p, i) (avco_consume_sell_quantity_with_allocations p i q s)
      (avco_consume_sell_quantity_with_allocations p i q t)) \<and>
    (\<forall>d. outcome_sim (p, i) (avco_restate_lot_quantities p i d s) (avco_restate_lot_quantities p i d t)) \<and>
    (\<forall>cb cl. outcome_sim (p, i) (avco_transfer_basis_out_with_allocations p i cb cl s)
      (avco_transfer_basis_out_with_allocations p i cb cl t))"
proof -
  let ?key = "(p, i)"
  have pool: "map_of (avco_pools s) ?key = Some (pool_of s ?key)"
    and exp: "export_checkpoint ?key sec (pool_of s ?key) (avco_allocation s) = Inr cp"
    using assms(4) by (auto simp: export_allocation_checkpoint_def pool_of_def Let_def split: option.splits)
  note wf = avco_wfD(2) [OF assms(1), of ?key]
  obtain B where B: "restore_checkpoint cp AverageCostSourceAllocation = (Inr (pool_of s ?key), B)"
    "checkpoint_key cp = ?key" "book_agrees ?key (avco_allocation s) B"
    using restore_exported [OF wf assms(2,3) exp] by blast
  define t where "t = \<lparr>avco_pools = [(?key, pool_of s ?key)], avco_allocation = B\<rparr>"
  have t: "from_allocation_checkpoint cp = Inr t"
    using B(1,2) by (simp add: from_allocation_checkpoint_def t_def) (simp add: AverageCostBasisStrategy_def)
  have "\<forall>tid \<in> set (ids_of ?key (active_source_ids_by_key (avco_allocation s))).
      \<exists>c. map_of (contributions (avco_allocation s)) tid = Some c \<and> ctb_book_key c = ?key"
    using wf by (force simp: alloc_wf_def book_sources_def source_wf_def)
  then have sim: "book_sim ?key s t" using B(3) by (simp add: book_sim_def t_def pool_of_def)
  have "export_allocation_checkpoint p i sec t = Inr cp"
    using exp export_agree [OF sim] by (simp add: export_allocation_checkpoint_def t_def)
  then show ?thesis using t avco_consume_sim [OF sim] avco_restate_sim [OF sim] avco_transfer_sim [OF sim] by blast
qed

text \<open>
  C22. A book into which only acquisitions were booked can always be exported: after any further
  bookable acquisition with a fresh identity the checkpoint validates, and the book is still one
  without disposals.
\<close>

theorem avco_export_acquisitions:
  assumes "avco_wf s" and "undisposed (p, i) s" and "avco_bookable x s q base local original" and "transaction_key x = (p, i)"
    and "list_all stripped_source (book_sources (avco_allocation s) (p, i))" and "py_strip (transaction_id x) = transaction_id x"
  shows "\<exists>s' cp. avco_add_buy_lot x s = (Inr (), s') \<and> undisposed (p, i) s' \<and>
    list_all stripped_source (book_sources (avco_allocation s') (p, i)) \<and>
    export_allocation_checkpoint p i sec s' = Inr cp \<and> pcp_quantity (cp_pool cp) = pool_quantity (pool_of s (p, i)) + q \<and>
    length (cp_sources cp) = length (book_sources (avco_allocation s) (p, i)) + 1"
proof -
  let ?key = "(p, i)"
  obtain s' where s': "avco_add_buy_lot x s = (Inr (), s')" "avco_wf s'"
    "pool_quantity (pool_of s' ?key) = pool_quantity (pool_of s ?key) + q"
    "map fst (book_sources (avco_allocation s') ?key) = map fst (book_sources (avco_allocation s) ?key) @ [transaction_id x]"
    using avco_add_buy_lot_wf [OF assms(1,3) assms(4) [symmetric]] by blast
  note u = avco_add_undisposed [OF assms(1,2,3) assms(4) [symmetric] s'(1)]
  let ?ids = "map (\<lambda>(tid, c). (tid, ctb_source_lot_id c))"
  have strip_ids: "list_all stripped_source src \<longleftrightarrow> list_all (\<lambda>(tid, lid). py_strip tid = tid \<and> py_strip lid = lid) (?ids src)" for src
    by (auto simp: list_all_iff stripped_source_def)
  have named: "transaction_id x \<noteq> []" using assms(3) by (auto simp: avco_bookable_def py_strip_def py_lstrip_def)
  have strip: "list_all stripped_source (book_sources (avco_allocation s') ?key)"
    using assms(5,6) py_strip_lot_id [OF assms(6) named] unfolding strip_ids conjunct2 [OF u] by simp
  have "0 \<le> pool_quantity (pool_of s ?key)" "0 < q"
    using avco_wfD(1) [OF assms(1), of ?key] assms(3) by (auto simp: pool_wf_def avco_bookable_def)
  then have pos: "0 < pool_quantity (pool_of s' ?key)" using s'(3) by simp
  obtain cp where cp: "export_checkpoint ?key sec (pool_of s' ?key) (avco_allocation s') = Inr cp"
    using export_undisposed [OF s'(2) conjunct1 [OF u] pos strip] by blast
  have "map_of (avco_pools s') ?key = Some (pool_of s' ?key)"
    using pos by (auto simp: pool_of_def AverageCostPool_def split: option.splits)
  then have "export_allocation_checkpoint p i sec s' = Inr cp" using cp by (simp add: export_allocation_checkpoint_def)
  moreover note export_checkpoint_Inr [OF cp active_source_contributions_wf [OF avco_wfD(2) [OF s'(2)]]]
  moreover have "length (book_sources (avco_allocation s') ?key) = length (book_sources (avco_allocation s) ?key) + 1"
    using arg_cong [OF s'(4), of length] by (simp add: book_sources_def)
  ultimately show ?thesis using s'(1,3) u strip by auto
qed

theorem avco_export_acquisitions_witness:
  "\<exists>s' cp. avco_add_buy_lot (sample_acquisition ''A'' 10 100 120) AverageCostBasisStrategy = (Inr (), s') \<and>
    export_allocation_checkpoint ''P'' ''I'' ''S'' s' = Inr cp \<and> pcp_quantity (cp_pool cp) = 10 \<and> length (cp_sources cp) = 1"
proof -
  have "avco_bookable (sample_acquisition ''A'' 10 100 120) AverageCostBasisStrategy 10 120 100 10"
    by (simp add: avco_bookable_def sample_acquisition_inputs sample_numbers sample_ids AverageCostPool_def)
  from avco_export_acquisitions [OF avco_empty_wf undisposed_empty this, of "''P''" "''I''" "''S''"]
  show ?thesis by (simp add: sample_ids AverageCostPool_def) blast
qed

lemma one_source_undisposed:
  "undisposed (''P'', ''I'') one_source"
  "map (\<lambda>(tid, c). (tid, ctb_source_lot_id c)) (book_sources (avco_allocation one_source) (''P'', ''I'')) = [(''A'', ''LOT-A'')]"
proof -
  have "avco_bookable (sample_acquisition ''A'' 10 100 120) AverageCostBasisStrategy 10 120 100 10"
    by (simp add: avco_bookable_def sample_acquisition_inputs sample_numbers sample_ids AverageCostPool_def)
  from avco_add_undisposed [OF avco_empty_wf undisposed_empty this refl one_source_wf(1)]
  show "undisposed (''P'', ''I'') one_source"
    "map (\<lambda>(tid, c). (tid, ctb_source_lot_id c)) (book_sources (avco_allocation one_source) (''P'', ''I'')) = [(''A'', ''LOT-A'')]"
    by simp_all
qed

theorem avco_checkpoint_roundtrip_witness:
  "\<exists>cp t. export_allocation_checkpoint ''P'' ''I'' ''S'' one_source = Inr cp \<and> from_allocation_checkpoint cp = Inr t \<and>
    outcome_sim (''P'', ''I'') (avco_consume_sell_quantity_with_allocations ''P'' ''I'' 4 one_source)
      (avco_consume_sell_quantity_with_allocations ''P'' ''I'' 4 t)"
proof -
  have strip: "list_all stripped_source (book_sources (avco_allocation one_source) (''P'', ''I''))"
    using one_source_undisposed(2) by (auto simp: stripped_source_def map_eq_Cons_conv sample_ids)
  have pos: "0 < pool_quantity (pool_of one_source (''P'', ''I''))" by (simp add: one_source_wf(3))
  obtain cp where "export_checkpoint (''P'', ''I'') ''S'' (pool_of one_source (''P'', ''I'')) (avco_allocation one_source) = Inr cp"
    using export_undisposed [OF one_source_wf(2) one_source_undisposed(1) pos strip] by (rule exE)
  moreover have "map_of (avco_pools one_source) (''P'', ''I'') = Some (pool_of one_source (''P'', ''I''))"
    using pos by (auto simp: pool_of_def AverageCostPool_def split: option.splits)
  ultimately have exp: "export_allocation_checkpoint ''P'' ''I'' ''S'' one_source = Inr cp"
    by (simp add: export_allocation_checkpoint_def)
  from avco_checkpoint_roundtrip [OF one_source_wf(2) pos strip exp] exp show ?thesis by (elim exE conjE) (intro exI conjI, assumption+, rule spec)
qed

end
