(* ===== verification/Average_Cost_Conflict.thy ===== *)
theory Average_Cost_Conflict
  imports Average_Cost_Export
begin

text \<open>
  Exact effects of an acquisition and of a partial sale on an average-cost book, and a run of
  ordinary operations after which the book's checkpoint is refused.
\<close>

section \<open>Exact effects\<close>

definition book_scales :: "lot_key \<Rightarrow> avco_state \<Rightarrow> (rat \<times> rat \<times> rat \<times> rat \<times> rat) \<times> int \<times> int \<times> int" where
  "book_scales key s =
     (let A = avco_allocation s in
      ((disposal_scale_by_key A key, segment_start_scale_by_key A key, segment_start_quantity_by_key A key,
        cost_local_scale_by_key A key, cost_base_scale_by_key A key),
       generation_by_key A key, cost_local_generation_by_key A key, cost_base_generation_by_key A key))"

lemma avco_add_effect:
  assumes wf: "avco_wf s" and b: "avco_bookable t s q base local original" and key: "key = transaction_key t"
    and scales: "book_scales key s = ((d, ss, sq, sl, sb), g, gl, gb)"
  shows "\<exists>s'. avco_add_buy_lot t s = (Inr (), s') \<and> avco_wf s' \<and>
    pool_of s' key = start_segment ((pool_of s key)\<lparr>pool_quantity := pool_quantity (pool_of s key) + q,
      pool_cost_local := pool_cost_local (pool_of s key) + local, pool_cost_base := pool_cost_base (pool_of s key) + base\<rparr>) \<and>
    book_sources (avco_allocation s') key = book_sources (avco_allocation s) key @
      [(transaction_id t, \<lparr>ctb_book_key = key, ctb_source_lot_id = ''LOT-'' @ transaction_id t,
        ctb_source_acquisition_date = utc_transaction_date t, ctb_generation = g, ctb_original_quantity = original,
        ctb_quantity = q, ctb_cost_local = local, ctb_cost_base = base, disposal_scale_at_entry = d,
        cost_local_scale_at_entry = sl, cost_base_scale_at_entry = sb, ctb_cost_local_generation = gl,
        ctb_cost_base_generation = gb\<rparr>)] \<and>
    book_scales key s' = ((d, d, pool_quantity (pool_of s key) + q, sl, sb), g, gl, gb) \<and>
    dom (map_of (contributions (avco_allocation s'))) = insert (transaction_id t) (dom (map_of (contributions (avco_allocation s))))"
proof -
  let ?A = "avco_allocation s" and ?P = "pool_of s key"
  have v: "validated_buy_lot_inputs t = Inr (Some (q, base, local))" "source_lot_original_quantity_of t q = Inr original"
    and fresh: "map_of (contributions ?A) (transaction_id t) = None"
    using b by (simp_all add: avco_bookable_def)
  obtain p where p: "pool_add q local base ?P = (Inr (), p)" "pool_quantity p = pool_quantity ?P + q"
    "pool_cost_local p = pool_cost_local ?P + local" "pool_cost_base p = pool_cost_base ?P + base"
    using pool_add_wf [OF avco_wfD(1) [OF wf, of key], of q local base] b key by (auto simp: avco_bookable_def)
  have p': "p = start_segment (?P\<lparr>pool_quantity := pool_quantity ?P + q, pool_cost_local := pool_cost_local ?P + local,
      pool_cost_base := pool_cost_base ?P + base\<rparr>)"
    using pool_add_segment [OF p(1)] p(2-4) by (intro average_cost_pool.equality) (simp_all add: start_segment_def)
  obtain A' where A': "add_source key (transaction_id t) (''LOT-'' @ transaction_id t) (utc_transaction_date t) q (Some original)
      local base (pool_quantity p) ?A = (Inr (), A')"
    using fresh by (simp add: add_source_def)
  define s' where "s' = s\<lparr>avco_pools := dict_set key p (avco_pools s), avco_allocation := A'\<rparr>"
  have run: "avco_add_buy_lot t s = (Inr (), s')"
    using v on_pool_eq [of "pool_add q local base" s key, OF p(1)] A'
    by (simp add: avco_add_buy_lot_def Let_def on_allocation_def s'_def flip: key)
  have "avco_wf s'" using avco_add_buy_lot_wf [OF wf b key] run by auto
  moreover have dom: "set (ids_of key (active_source_ids_by_key ?A)) \<subseteq> dom (map_of (contributions ?A))"
    using avco_wfD(2) [OF wf, of key] by (simp add: alloc_wf_def)
  moreover have "book_scales key s' = ((d, d, pool_quantity ?P + q, sl, sb), g, gl, gb)"
    using scales A' fresh p(2) by (auto simp: book_scales_def Let_def add_source_def s'_def)
  moreover have "dom (map_of (contributions A')) = insert (transaction_id t) (dom (map_of (contributions ?A)))"
    using A' fresh by (auto simp: add_source_def)
  ultimately show ?thesis
    using run add_source_book [OF fresh dom A'] scales
    by (auto simp: s'_def p' pool_of_def book_scales_def Let_def)
qed

lemma avco_consume_effect:
  assumes wf: "avco_wf s" and q: "ledger_amount q" "0 < q" "q < pool_quantity (pool_of s key)" and key: "key = (p, i)"
    and scales: "book_scales key s = ((d, ss, sq, sl, sb), g, gl, gb)"
  shows "\<exists>r s'. avco_consume_sell_quantity_with_allocations p i q s = (Inr r, s') \<and> avco_wf s' \<and>
    pool_of s' key = (pool_of s key)\<lparr>pool_quantity := pool_quantity (pool_of s key) - q,
      pool_cost_local := segment_cost (segment_start_cost_local (pool_of s key)) (pool_quantity (pool_of s key) - q) (segment_start_quantity (pool_of s key)),
      pool_cost_base := segment_cost (segment_start_cost_base (pool_of s key)) (pool_quantity (pool_of s key) - q) (segment_start_quantity (pool_of s key))\<rparr> \<and>
    book_sources (avco_allocation s') key = book_sources (avco_allocation s) key \<and>
    book_scales key s' = ((sig_round (context_precision state_policy)
      (sig_round (context_precision state_policy) (ss * (pool_quantity (pool_of s key) - q)) / sq), ss, sq, sl, sb), g, gl, gb) \<and>
    contributions (avco_allocation s') = contributions (avco_allocation s)"
proof -
  let ?A = "avco_allocation s" and ?P = "pool_of s key" and ?p = "context_precision state_policy"
  obtain r s' where run: "avco_consume_sell_quantity_with_allocations p i q s = (Inr r, s')" "avco_wf s'"
    "pool_quantity (pool_of s' key) = pool_quantity ?P - q"
    "segment_start_quantity (pool_of s' key) = segment_start_quantity ?P"
    "segment_start_cost_local (pool_of s' key) = segment_start_cost_local ?P"
    "segment_start_cost_base (pool_of s' key) = segment_start_cost_base ?P"
    using avco_consume_wf [OF wf q(1,2) key less_imp_le [OF q(3)]] by blast
  have pool: "pool_of s' key = ?P\<lparr>pool_quantity := pool_quantity ?P - q,
      pool_cost_local := segment_cost (segment_start_cost_local ?P) (pool_quantity ?P - q) (segment_start_quantity ?P),
      pool_cost_base := segment_cost (segment_start_cost_base ?P) (pool_quantity ?P - q) (segment_start_quantity ?P)\<rparr>"
    using avco_wfD(1) [OF run(2), of key] run(3-6) by (intro average_cost_pool.equality) (auto simp: pool_wf_def)
  have sq: "0 < sq" and ss: "segment_start_scale_by_key ?A key = ss"
    using avco_wfD(2) [OF wf, of key] q scales by (auto simp: alloc_wf_def book_scales_def Let_def)
  have guards: "non_positive_sell_quantity_error q = None" "\<not> pool_quantity ?P < q" "pool_quantity ?P \<noteq> 0" "q \<noteq> 0"
    using q by (auto simp: non_positive_sell_quantity_error_def)
  obtain cogs s1 s2 where steps:
    "on_pool key (pool_dispose q) (touch_pool key s) = (Inr cogs, s1)"
    "on_allocation (apply_disposal key (pool_quantity ?P) (pool_quantity (pool_of s1 key))) s1 = (Inr (), s2)" "s' = s2"
    using run(1) guards
    by (auto simp: avco_consume_sell_quantity_with_allocations_def Let_def obind_eq_Inr simp flip: key)
  have s1: "avco_allocation s1 = ?A" "pool_of s1 key = pool_of s' key"
    using steps by (auto simp: on_pool_def on_allocation_def pool_of_def split: prod.splits)
  have "apply_disposal key (pool_quantity ?P) (pool_quantity ?P - q) ?A = (Inr (), avco_allocation s')"
    using steps(2,3) s1 pool by (auto simp: on_allocation_def split: prod.splits)
  then have A': "avco_allocation s' = ?A\<lparr>disposal_scale_by_key := (disposal_scale_by_key ?A)
      (key := sig_round ?p (sig_round ?p (ss * (pool_quantity ?P - q)) / sq))\<rparr>"
    using q sq scales
    by (auto simp: apply_disposal_def Let_def dec_div_def dec_mul_def book_scales_def split: if_splits)
  have "book_sources (avco_allocation s') key = book_sources ?A key" by (simp add: A' book_sources_def)
  moreover have "book_scales key s' = ((sig_round ?p (sig_round ?p (ss * (pool_quantity ?P - q)) / sq), ss, sq, sl, sb), g, gl, gb)"
    using scales by (simp add: A' book_scales_def Let_def)
  ultimately show ?thesis using run(1,2) pool by (simp add: A')
qed

section \<open>A refused checkpoint\<close>

lemma sig_decimal:
  assumes "\<bar>m\<bar> < 10 ^ p" shows "sig_round p (of_int m / 10 ^ k) = of_int m / 10 ^ k"
  by (rule sig_round_exact [of _ m "- int k"]) (use assms in \<open>simp_all add: power_int_minus divide_inverse\<close>)

lemma short_decimal:
  "\<bar>m\<bar> < 1000 \<Longrightarrow> sig_round (context_precision state_policy) (of_int m / 10 ^ k) = of_int m / 10 ^ k"
  using power_increasing [of 3 "context_precision state_policy" "10::int"]
  by (intro sig_decimal) (auto simp: context_precision_def policy_instances)

lemma small_values:
  "sig_round (context_precision state_policy) 1 = 1" "sig_round (context_precision state_policy) 2 = 2"
  "sig_round (context_precision state_policy) (1 / 2) = 1 / 2" "sig_round (context_precision state_policy) (1 / 4) = 1 / 4"
  "sig_round (context_precision state_policy) (3 / 10000000000) = 3 / 10000000000"
  "sig_round (context_precision state_policy) (3 / 20000000000) = 3 / 20000000000"
  "sig_round (context_precision state_policy) (3 / 40000000000) = 3 / 40000000000"
  "sig_round (context_precision state_policy) (1 / 10000000000) = 1 / 10000000000"
  "sig_round (context_precision state_policy) (1 / 40000000000) = 1 / 40000000000"
  "sig_round (context_precision state_policy) (1 / 20000000000) = 1 / 20000000000"
  "sig_round (context_precision state_policy) (1 / 8000000000) = 1 / 8000000000"
  using short_decimal [of 1 0] short_decimal [of 2 0] short_decimal [of 5 1] short_decimal [of 25 2]
    short_decimal [of 3 10] short_decimal [of 15 11] short_decimal [of 75 12] short_decimal [of 1 10]
    short_decimal [of 25 12] short_decimal [of 5 11] short_decimal [of 125 12]
  by simp_all

lemma half_even_values: "round_half_even (3 / 2) = 2" "round_half_even (5 / 4) = 1"
  by (simp_all add: round_half_even_def Let_def floor_divide_of_int_eq [of 3 2, simplified] floor_divide_of_int_eq [of 5 4, simplified])

lemma state_scale: "cp_scale state_policy = 10"
  by (simp add: policy_instances)

lemma segment_values:
  "segment_cost (3 / 10000000000) 1 2 = 1 / 5000000000"
  using half_even_values(1) by (simp add: segment_cost_def round_to_scale_def small_values state_scale)

lemma small_amounts: "ledger_amount (3 / 10000000000)" "ledger_amount (1 / 10000000000)" "ledger_amount (1 / 5000000000)"
  by (simp_all add: ledger_amount_iff on_scale_def)

definition micro_lot :: "string \<Rightarrow> rat \<Rightarrow> rat \<Rightarrow> cost_basis_transaction" where
  "micro_lot tid q units = sample_acquisition tid q (units / 10000000000) (units / 10000000000)"

text \<open>The book after buying 2 for 0.0000000003, selling 1, buying 1 for 0.0000000001 and selling 1.\<close>

lemma micro_run:
  "\<exists>s1 r2 s2 s3 r4 s4.
    avco_add_buy_lot (micro_lot ''A'' 2 3) AverageCostBasisStrategy = (Inr (), s1) \<and>
    avco_consume_sell_quantity_with_allocations ''P'' ''I'' 1 s1 = (Inr r2, s2) \<and>
    avco_add_buy_lot (micro_lot ''B'' 1 1) s2 = (Inr (), s3) \<and>
    avco_consume_sell_quantity_with_allocations ''P'' ''I'' 1 s3 = (Inr r4, s4) \<and> avco_wf s4 \<and>
    pool_of s4 (''P'', ''I'') = \<lparr>pool_quantity = 1, pool_cost_local = 1 / 5000000000, pool_cost_base = 1 / 5000000000,
      segment_start_quantity = 2, segment_start_cost_local = 3 / 10000000000, segment_start_cost_base = 3 / 10000000000\<rparr> \<and>
    book_scales (''P'', ''I'') s4 = ((1 / 4, 1 / 2, 2, 1, 1), 0, 0, 0) \<and>
    map (\<lambda>(tid, c). (tid, ctb_source_lot_id c, ctb_quantity c, ctb_cost_local c, ctb_cost_base c, disposal_scale_at_entry c))
      (book_sources (avco_allocation s4) (''P'', ''I'')) =
      [(''A'', ''LOT-A'', 2, 3 / 10000000000, 3 / 10000000000, 1), (''B'', ''LOT-B'', 1, 1 / 10000000000, 1 / 10000000000, 1 / 2)] \<and>
    list_all (\<lambda>(tid, c). cost_local_scale_at_entry c = 1 \<and> cost_base_scale_at_entry c = 1 \<and> ctb_cost_local_generation c = 0 \<and>
      ctb_cost_base_generation c = 0) (book_sources (avco_allocation s4) (''P'', ''I''))"
proof -
  let ?k = "(''P'', ''I'')" and ?s0 = AverageCostBasisStrategy
  have key: "?k = transaction_key (micro_lot tid q units)" for tid q units by (simp add: micro_lot_def)
  have id: "transaction_id (micro_lot tid q units) = tid" for tid q units by (simp add: micro_lot_def)
  have inputs: "validated_buy_lot_inputs (micro_lot tid q u) = Inr (Some (q, u / 10000000000, u / 10000000000))"
    "source_lot_original_quantity_of (micro_lot tid q u) q = Inr q" if "0 < q" "0 \<le> u" for tid q u
    using that by (simp_all add: micro_lot_def sample_acquisition_inputs)
  have b1: "avco_bookable (micro_lot ''A'' 2 3) ?s0 2 (3 / 10000000000) (3 / 10000000000) 2"
    by (simp add: avco_bookable_def inputs id sample_numbers small_amounts sample_ids AverageCostPool_def flip: key)
  have sc0: "book_scales ?k ?s0 = ((1, 1, 0, 1, 1), 0, 0, 0)"
    by (simp add: book_scales_def) (simp add: AverageCostSourceAllocation_def)
  obtain s1 where s1: "avco_add_buy_lot (micro_lot ''A'' 2 3) ?s0 = (Inr (), s1)" "avco_wf s1"
    "pool_of s1 ?k = \<lparr>pool_quantity = 2, pool_cost_local = 3 / 10000000000, pool_cost_base = 3 / 10000000000,
      segment_start_quantity = 2, segment_start_cost_local = 3 / 10000000000, segment_start_cost_base = 3 / 10000000000\<rparr>"
    "book_sources (avco_allocation s1) ?k = [(''A'', \<lparr>ctb_book_key = ?k, ctb_source_lot_id = ''LOT-A'',
        ctb_source_acquisition_date = utc_transaction_date (micro_lot ''A'' 2 3), ctb_generation = 0, ctb_original_quantity = 2,
        ctb_quantity = 2, ctb_cost_local = 3 / 10000000000, ctb_cost_base = 3 / 10000000000, disposal_scale_at_entry = 1,
        cost_local_scale_at_entry = 1, cost_base_scale_at_entry = 1, ctb_cost_local_generation = 0, ctb_cost_base_generation = 0\<rparr>)]"
    "book_scales ?k s1 = ((1, 1, 2, 1, 1), 0, 0, 0)" "dom (map_of (contributions (avco_allocation s1))) = {''A''}"
    using avco_add_effect [OF avco_empty_wf b1 key sc0]
    by (elim exE conjE) (rule that, simp_all add: id AverageCostPool_def start_segment_def)
  have q1: "1 < pool_quantity (pool_of s1 ?k)" by (simp add: s1(3))
  obtain r2 s2 where s2: "avco_consume_sell_quantity_with_allocations ''P'' ''I'' 1 s1 = (Inr r2, s2)" "avco_wf s2"
    "pool_of s2 ?k = \<lparr>pool_quantity = 1, pool_cost_local = 1 / 5000000000, pool_cost_base = 1 / 5000000000,
      segment_start_quantity = 2, segment_start_cost_local = 3 / 10000000000, segment_start_cost_base = 3 / 10000000000\<rparr>"
    "book_sources (avco_allocation s2) ?k = book_sources (avco_allocation s1) ?k"
    "book_scales ?k s2 = ((1 / 2, 1, 2, 1, 1), 0, 0, 0)" "contributions (avco_allocation s2) = contributions (avco_allocation s1)"
    using avco_consume_effect [OF s1(2) sample_numbers(2) zero_less_one q1 refl s1(5)]
    by (elim exE conjE) (rule that, assumption, assumption, simp_all add: s1(3) segment_values small_values)
  have "''B'' \<notin> dom (map_of (contributions (avco_allocation s2)))" unfolding s2(6) s1(6) by simp
  then have fresh: "map_of (contributions (avco_allocation s2)) ''B'' = None" by (simp add: domIff)
  have b3: "avco_bookable (micro_lot ''B'' 1 1) s2 1 (1 / 10000000000) (1 / 10000000000) 1"
    unfolding avco_bookable_def id key [symmetric] s2(3,4) s1(4)
    by (simp add: inputs fresh sample_numbers small_amounts sample_ids)
  obtain s3 where s3: "avco_add_buy_lot (micro_lot ''B'' 1 1) s2 = (Inr (), s3)" "avco_wf s3"
    "pool_of s3 ?k = \<lparr>pool_quantity = 2, pool_cost_local = 3 / 10000000000, pool_cost_base = 3 / 10000000000,
      segment_start_quantity = 2, segment_start_cost_local = 3 / 10000000000, segment_start_cost_base = 3 / 10000000000\<rparr>"
    "book_sources (avco_allocation s3) ?k = book_sources (avco_allocation s1) ?k @ [(''B'', \<lparr>ctb_book_key = ?k, ctb_source_lot_id = ''LOT-B'',
        ctb_source_acquisition_date = utc_transaction_date (micro_lot ''B'' 1 1), ctb_generation = 0, ctb_original_quantity = 1,
        ctb_quantity = 1, ctb_cost_local = 1 / 10000000000, ctb_cost_base = 1 / 10000000000, disposal_scale_at_entry = 1 / 2,
        cost_local_scale_at_entry = 1, cost_base_scale_at_entry = 1, ctb_cost_local_generation = 0, ctb_cost_base_generation = 0\<rparr>)]"
    "book_scales ?k s3 = ((1 / 2, 1 / 2, 2, 1, 1), 0, 0, 0)"
    using avco_add_effect [OF s2(2) b3 key s2(5)]
    by (elim exE conjE) (rule that, simp_all add: id s2(3,4) start_segment_def)
  have q3: "1 < pool_quantity (pool_of s3 ?k)" by (simp add: s3(3))
  obtain r4 s4 where s4: "avco_consume_sell_quantity_with_allocations ''P'' ''I'' 1 s3 = (Inr r4, s4)" "avco_wf s4"
    "pool_of s4 ?k = \<lparr>pool_quantity = 1, pool_cost_local = 1 / 5000000000, pool_cost_base = 1 / 5000000000,
      segment_start_quantity = 2, segment_start_cost_local = 3 / 10000000000, segment_start_cost_base = 3 / 10000000000\<rparr>"
    "book_sources (avco_allocation s4) ?k = book_sources (avco_allocation s3) ?k"
    "book_scales ?k s4 = ((1 / 4, 1 / 2, 2, 1, 1), 0, 0, 0)"
    using avco_consume_effect [OF s3(2) sample_numbers(2) zero_less_one q3 refl s3(5)]
    by (elim exE conjE) (rule that, assumption, assumption, simp_all add: s3(3) segment_values small_values)
  show ?thesis
    by (rule exI [of _ s1], rule exI [of _ r2], rule exI [of _ s2], rule exI [of _ s3], rule exI [of _ r4], rule exI [of _ s4],
        intro conjI s1(1) s2(1) s3(1) s4(1-3,5)) (simp_all add: s4(4) s3(4) s1(4))
qed

lemma normalize_checkpoint_half_even:
  "normalize_checkpoint_value (3 / 20000000000) = Inr (1 / 5000000000)"
  "normalize_checkpoint_value (1 / 8000000000) = Inr (1 / 10000000000)"
  "normalize_checkpoint_value (1 / 4) = Inr (1 / 4)" "normalize_checkpoint_value 1 = Inr 1"
proof -
  have "10 \<le> (10::int) ^ context_precision state_policy"
    using power_increasing [of 1 "context_precision state_policy" "10::int"] by (simp add: context_precision_def policy_instances)
  then show "normalize_checkpoint_value (3 / 20000000000) = Inr (1 / 5000000000)"
    "normalize_checkpoint_value (1 / 8000000000) = Inr (1 / 10000000000)"
    using half_even_values by (simp_all add: normalize_checkpoint_value_def dec_quantize_def)
  show "normalize_checkpoint_value (1 / 4) = Inr (1 / 4)" "normalize_checkpoint_value 1 = Inr 1"
    by (simp_all add: normalize_checkpoint_storable ledger_amount_iff on_scale_def)
qed

text \<open>
  C23. The checkpoint of a well-formed average-cost book can be refused in ordinary use. The pool
  rounds its cost once per disposal segment while the sources are scaled exactly, and the checkpoint
  demands that the two agree to the last stored digit: after buying 2 for 0.0000000003, selling 1,
  buying 1 for 0.0000000001 and selling 1 every operation has succeeded and the strategy is
  well-formed, yet exporting the book raises.
\<close>

theorem avco_export_conflict:
  "\<exists>s1 r2 s2 s3 r4 s4.
    avco_add_buy_lot (micro_lot ''A'' 2 3) AverageCostBasisStrategy = (Inr (), s1) \<and>
    avco_consume_sell_quantity_with_allocations ''P'' ''I'' 1 s1 = (Inr r2, s2) \<and>
    avco_add_buy_lot (micro_lot ''B'' 1 1) s2 = (Inr (), s3) \<and>
    avco_consume_sell_quantity_with_allocations ''P'' ''I'' 1 s3 = (Inr r4, s4) \<and> avco_wf s4 \<and>
    export_allocation_checkpoint ''P'' ''I'' ''S'' s4 =
      Inl (ValueError ''AVCO source accumulators conflict with aggregate pool state'')"
proof -
  let ?k = "(''P'', ''I'')"
  obtain s1 r2 s2 s3 r4 s4 where run:
    "avco_add_buy_lot (micro_lot ''A'' 2 3) AverageCostBasisStrategy = (Inr (), s1)"
    "avco_consume_sell_quantity_with_allocations ''P'' ''I'' 1 s1 = (Inr r2, s2)"
    "avco_add_buy_lot (micro_lot ''B'' 1 1) s2 = (Inr (), s3)"
    "avco_consume_sell_quantity_with_allocations ''P'' ''I'' 1 s3 = (Inr r4, s4)" "avco_wf s4"
    and pool: "pool_of s4 ?k = \<lparr>pool_quantity = 1, pool_cost_local = 1 / 5000000000, pool_cost_base = 1 / 5000000000,
      segment_start_quantity = 2, segment_start_cost_local = 3 / 10000000000, segment_start_cost_base = 3 / 10000000000\<rparr>"
    and scales: "book_scales ?k s4 = ((1 / 4, 1 / 2, 2, 1, 1), 0, 0, 0)"
    and src: "map (\<lambda>(tid, c). (tid, ctb_source_lot_id c, ctb_quantity c, ctb_cost_local c, ctb_cost_base c, disposal_scale_at_entry c))
      (book_sources (avco_allocation s4) ?k) =
      [(''A'', ''LOT-A'', 2, 3 / 10000000000, 3 / 10000000000, 1), (''B'', ''LOT-B'', 1, 1 / 10000000000, 1 / 10000000000, 1 / 2)]"
    and units: "list_all (\<lambda>(tid, c). cost_local_scale_at_entry c = 1 \<and> cost_base_scale_at_entry c = 1 \<and> ctb_cost_local_generation c = 0 \<and>
      ctb_cost_base_generation c = 0) (book_sources (avco_allocation s4) ?k)"
    using micro_run by (elim exE conjE) (rule that, assumption+)
  obtain a b where ab: "book_sources (avco_allocation s4) ?k = [(''A'', a), (''B'', b)]"
    using src by (auto simp: map_eq_Cons_conv)
  have fields: "ctb_source_lot_id a = ''LOT-A''" "ctb_quantity a = 2" "ctb_cost_local a = 3 / 10000000000"
    "ctb_cost_base a = 3 / 10000000000" "disposal_scale_at_entry a = 1"
    "ctb_source_lot_id b = ''LOT-B''" "ctb_quantity b = 1" "ctb_cost_local b = 1 / 10000000000"
    "ctb_cost_base b = 1 / 10000000000" "disposal_scale_at_entry b = 1 / 2"
    "cost_local_scale_at_entry a = 1" "cost_base_scale_at_entry a = 1" "ctb_cost_local_generation a = 0" "ctb_cost_base_generation a = 0"
    "cost_local_scale_at_entry b = 1" "cost_base_scale_at_entry b = 1" "ctb_cost_local_generation b = 0" "ctb_cost_base_generation b = 0"
    using src units unfolding ab by simp_all
  note wf = avco_wfD(2) [OF run(5), of ?k]
  have gens: "ctb_generation a = 0" "ctb_generation b = 0" "2 \<le> ctb_original_quantity a" "1 \<le> ctb_original_quantity b"
    using wf scales fields(2,7) unfolding alloc_wf_def ab by (auto simp: source_wf_def book_scales_def Let_def)
  have sc: "disposal_scale_by_key (avco_allocation s4) ?k = 1 / 4" "segment_start_scale_by_key (avco_allocation s4) ?k = 1 / 2"
    "segment_start_quantity_by_key (avco_allocation s4) ?k = 2" "cost_local_scale_by_key (avco_allocation s4) ?k = 1"
    "cost_base_scale_by_key (avco_allocation s4) ?k = 1" "generation_by_key (avco_allocation s4) ?k = 0"
    "cost_local_generation_by_key (avco_allocation s4) ?k = 0" "cost_base_generation_by_key (avco_allocation s4) ?k = 0"
    using scales by (simp_all add: book_scales_def Let_def)
  have "accumulator_of (1, ''A'', a) = Inr (accumulator_view (1, ''A'', a))" "accumulator_of (2, ''B'', b) = Inr (accumulator_view (2, ''B'', b))"
    using gens
    by (simp_all add: accumulator_of_def AverageCostSourceAccumulator_def accumulator_view_def required_text_def fields
      sample_ids checkpoint_require_decimal_def require_nonnegative_integer_def)
  then have accs: "rmap accumulator_of (enumerate 1 [(''A'', a), (''B'', b)]) = Inr [accumulator_view (1, ''A'', a), accumulator_view (2, ''B'', b)]"
    by (simp add: numeral_2_eq_2)
  have "export_checkpoint ?k ''S'' (pool_of s4 ?k) (avco_allocation s4) =
      Inl (ValueError ''AVCO source accumulators conflict with aggregate pool state'')"
    unfolding export_checkpoint_def active_source_contributions_wf [OF wf, unfolded ab] rbind_Inr Let_def accs
    by (simp add: AverageCostPoolCheckpoint_def require_nonnegative_finite_def pool sc
        AverageCostAllocationCheckpoint_def checkpoint_require_decimal_def require_nonnegative_integer_def fields gens
        validate_materialized_totals_def segment_remaining_cost_def dec_div_def dec_mul_def dec_add_def small_values
        materialized_total_def normalize_checkpoint_half_even)
  moreover have "map_of (avco_pools s4) ?k = Some (pool_of s4 ?k)"
    using pool by (auto simp: pool_of_def AverageCostPool_def split: option.splits)
  ultimately have "export_allocation_checkpoint ''P'' ''I'' ''S'' s4 =
      Inl (ValueError ''AVCO source accumulators conflict with aggregate pool state'')"
    by (simp add: export_allocation_checkpoint_def)
  with run show ?thesis by (intro exI conjI)
qed

end
