(* ===== verification/Average_Cost_Transition.thy ===== *)
theory Average_Cost_Transition
  imports Average_Cost_Conflict
begin

text \<open>
  Pool checkpoints built from lot states: the checkpoint after an incremental transition, and the
  checkpoint rebuilt from the materialised sources of a book.
\<close>

section \<open>Sums over lot states\<close>

lemma sum_state_field_exact:
  assumes "\<forall>st \<in> set states. ledger_amount (field st) \<and> 0 \<le> field st" and "ledger_amount x" "0 \<le> x"
    and "x + (\<Sum>st\<leftarrow>states. field st) < ledger_limit"
  shows "sum_state_field name field states x = Inr (x + (\<Sum>st\<leftarrow>states. field st)) \<and> ledger_amount (x + (\<Sum>st\<leftarrow>states. field st))"
  using assms
proof (induction states arbitrary: x)
  case (Cons st states)
  have rest: "0 \<le> (\<Sum>st\<leftarrow>states. field st)" using Cons.prems(1) by (intro sum_list_nonneg') auto
  have st: "ledger_amount (field st)" "0 \<le> field st" using Cons.prems(1) by auto
  have "x + field st < ledger_limit" using Cons.prems(4) rest by simp
  note add = nonneg_adds [OF Cons.prems(2,3) st this]
  show ?case using Cons.IH [of "x + field st"] Cons.prems(1,4) add by (simp add: add.assoc)
qed simp

lemma last_open_source_cases:
  "(\<exists>tid st. last_open_source dflt states = Some tid \<and> (tid, st) \<in> set states \<and> 0 < ols_quantity st) \<or>
   (last_open_source dflt states = dflt \<and> (\<forall>(tid, st) \<in> set states. \<not> 0 < ols_quantity st))"
proof (cases "find (\<lambda>(tid, st). 0 < ols_quantity st) (rev states)")
  case None
  then have "last_open_source dflt states = dflt" by (simp add: last_open_source_def)
  then show ?thesis using None by (auto simp: find_None_iff)
next
  case (Some x)
  obtain tid st where x: "x = (tid, st)" by (cases x)
  have "(tid, st) \<in> set states" "0 < ols_quantity st"
    using Some by (auto simp: find_Some_iff x) (metis in_set_conv_nth length_rev set_rev)
  then show ?thesis using Some by (auto simp: last_open_source_def x)
qed

lemma last_open_source_eq:
  "last_open_source dflt states =
     (let still_open = filter (\<lambda>(tid, st). 0 < ols_quantity st) states in
      if still_open = [] then dflt else Some (fst (last still_open)))"
proof -
  have find_hd: "find P xs = (case filter P xs of [] \<Rightarrow> None | x # _ \<Rightarrow> Some x)" for P and xs :: "'a list"
    by (induction xs) simp_all
  let ?open = "filter (\<lambda>(tid, st). 0 < ols_quantity st) states"
  have "filter (\<lambda>(tid, st). 0 < ols_quantity st) (rev states) = rev ?open" by (simp add: rev_filter)
  then show ?thesis
    by (cases ?open rule: rev_cases) (simp_all add: last_open_source_def find_hd case_prod_unfold)
qed

text \<open>A sum of storable non-negative fields is exact or overflows.\<close>

lemma sum_state_field_overflow:
  assumes "\<forall>st \<in> set states. ledger_amount (field st) \<and> 0 \<le> field st" and "ledger_amount x" "0 \<le> x"
    and "\<not> x + (\<Sum>st\<leftarrow>states. field st) < ledger_limit"
  shows "sum_state_field name field states x =
    Inl (DecimalPrecisionError (''pool_'' @ name) MAGNITUDE_OVERFLOW (policy_id state_policy))"
  using assms
proof (induction states arbitrary: x)
  case Nil
  then show ?case by (simp add: storable_def)
next
  case (Cons st states)
  have st: "ledger_amount (field st)" "0 \<le> field st" using Cons.prems(1) by auto
  show ?case
  proof (cases "x + field st < ledger_limit")
    case True
    note add = nonneg_adds [OF Cons.prems(2,3) st this]
    show ?thesis using Cons.IH [of "x + field st"] Cons.prems(1,4) add by (simp add: add.assoc)
  next
    case False
    then show ?thesis using cost_state.policy_add_exact [OF Cons.prems(2) st(1)] Cons.prems(3) st(2) by simp
  qed
qed

lemma sum_state_field_result:
  assumes "\<forall>st \<in> set states. ledger_amount (field st) \<and> 0 \<le> field st"
  shows "sum_state_field name field states 0 =
    (if (\<Sum>st\<leftarrow>states. field st) < ledger_limit then Inr (\<Sum>st\<leftarrow>states. field st)
     else Inl (DecimalPrecisionError (''pool_'' @ name) MAGNITUDE_OVERFLOW (policy_id state_policy)))"
  using sum_state_field_exact [OF assms, of 0 name] sum_state_field_overflow [OF assms, of 0 name] by auto

text \<open>A lot state as the transition validates it, with storable amounts.\<close>

definition storable_state :: "open_lot_state \<Rightarrow> bool" where
  "storable_state st \<longleftrightarrow> ledger_amount (ols_quantity st) \<and> 0 \<le> ols_quantity st \<and>
     ledger_amount (ols_cost_local st) \<and> 0 \<le> ols_cost_local st \<and> ledger_amount (ols_cost_base st) \<and> 0 \<le> ols_cost_base st \<and>
     (ols_quantity st = 0 \<longrightarrow> ols_cost_local st = 0 \<and> ols_cost_base st = 0)"

lemma storable_sums:
  assumes "list_all storable_state states"
  shows "0 \<le> (\<Sum>st\<leftarrow>states. ols_quantity st)" "0 \<le> (\<Sum>st\<leftarrow>states. ols_cost_local st)" "0 \<le> (\<Sum>st\<leftarrow>states. ols_cost_base st)"
    "(\<Sum>st\<leftarrow>states. ols_quantity st) = 0 \<Longrightarrow> (\<Sum>st\<leftarrow>states. ols_cost_local st) = 0 \<and> (\<Sum>st\<leftarrow>states. ols_cost_base st) = 0"
proof -
  show q: "0 \<le> (\<Sum>st\<leftarrow>states. ols_quantity st)" "0 \<le> (\<Sum>st\<leftarrow>states. ols_cost_local st)" "0 \<le> (\<Sum>st\<leftarrow>states. ols_cost_base st)"
    using assms by (auto simp: list_all_iff storable_state_def intro!: sum_list_nonneg')
  show "(\<Sum>st\<leftarrow>states. ols_cost_local st) = 0 \<and> (\<Sum>st\<leftarrow>states. ols_cost_base st) = 0" if "(\<Sum>st\<leftarrow>states. ols_quantity st) = 0"
    using assms that
  proof (induction states)
    case (Cons st states)
    have "0 \<le> (\<Sum>st\<leftarrow>states. ols_quantity st)"
      using Cons.prems(1) by (auto simp: list_all_iff storable_state_def intro!: sum_list_nonneg')
    then show ?case using Cons by (auto simp: storable_state_def add_nonneg_eq_0_iff)
  qed simp
qed

lemma field_sums:
  assumes "list_all storable_state states" and "(\<Sum>st\<leftarrow>states. ols_quantity st) < ledger_limit"
    and "(\<Sum>st\<leftarrow>states. ols_cost_local st) < ledger_limit" and "(\<Sum>st\<leftarrow>states. ols_cost_base st) < ledger_limit"
  shows "sum_state_field n1 ols_quantity states 0 = Inr (\<Sum>st\<leftarrow>states. ols_quantity st)" "ledger_amount (\<Sum>st\<leftarrow>states. ols_quantity st)"
    "sum_state_field n2 ols_cost_local states 0 = Inr (\<Sum>st\<leftarrow>states. ols_cost_local st)" "ledger_amount (\<Sum>st\<leftarrow>states. ols_cost_local st)"
    "sum_state_field n3 ols_cost_base states 0 = Inr (\<Sum>st\<leftarrow>states. ols_cost_base st)" "ledger_amount (\<Sum>st\<leftarrow>states. ols_cost_base st)"
  using sum_state_field_exact [of states ols_quantity 0 n1] sum_state_field_exact [of states ols_cost_local 0 n2]
    sum_state_field_exact [of states ols_cost_base 0 n3] assms sample_numbers(1)
  by (auto simp: list_all_iff storable_state_def)

section \<open>Transitions\<close>

lemma transition_after_exact:
  assumes "AverageCostPoolCheckpoint p i sec rep q0 l0 b0 = Inr before"
    and "AverageCostPoolTransition before existing explicit = Inr t"
    and "storable_state existing" and "list_all storable_state (map snd explicit)"
    and "ols_quantity existing + (\<Sum>st\<leftarrow>map snd explicit. ols_quantity st) < ledger_limit"
    and "ols_cost_local existing + (\<Sum>st\<leftarrow>map snd explicit. ols_cost_local st) < ledger_limit"
    and "ols_cost_base existing + (\<Sum>st\<leftarrow>map snd explicit. ols_cost_base st) < ledger_limit"
  shows "\<exists>cp. transition_after t = Inr cp \<and>
    pcp_quantity cp = ols_quantity existing + (\<Sum>st\<leftarrow>map snd explicit. ols_quantity st) \<and>
    pcp_cost_local cp = ols_cost_local existing + (\<Sum>st\<leftarrow>map snd explicit. ols_cost_local st) \<and>
    pcp_cost_base cp = ols_cost_base existing + (\<Sum>st\<leftarrow>map snd explicit. ols_cost_base st) \<and>
    representative_source_transaction_id cp =
      last_open_source (if 0 < ols_quantity existing then rep else None) explicit \<and>
    (0 < pcp_quantity cp \<longrightarrow> representative_source_transaction_id cp \<noteq> None) \<and>
    (pcp_quantity cp = 0 \<longrightarrow> pcp_cost_local cp = 0 \<and> pcp_cost_base cp = 0)"
proof -
  let ?states = "map snd explicit"
  let ?Q = "\<Sum>st\<leftarrow>?states. ols_quantity st" and ?L = "\<Sum>st\<leftarrow>?states. ols_cost_local st" and ?B = "\<Sum>st\<leftarrow>?states. ols_cost_base st"
  have t: "t = \<lparr>transition_before = before, existing_sources_after = existing, explicit_sources_after = explicit\<rparr>"
    "ols_quantity existing \<le> pcp_quantity before" "\<forall>(tid, st) \<in> set explicit. py_strip tid \<noteq> []"
  proof -
    obtain us where "rmap validate_explicit_source explicit = Inr us" "\<not> pcp_quantity before < ols_quantity existing"
      "t = \<lparr>transition_before = before, existing_sources_after = existing, explicit_sources_after = explicit\<rparr>"
      using assms(2) by (auto simp: AverageCostPoolTransition_def rbind_eq_Inr)
    moreover from calculation(1) have "\<forall>(tid, st) \<in> set explicit. py_strip tid \<noteq> []"
      by (induction explicit arbitrary: us) (auto simp: rbind_eq_Inr validate_explicit_source_def)
    ultimately show "t = \<lparr>transition_before = before, existing_sources_after = existing, explicit_sources_after = explicit\<rparr>"
      "ols_quantity existing \<le> pcp_quantity before" "\<forall>(tid, st) \<in> set explicit. py_strip tid \<noteq> []" by auto
  qed
  have before: "before = \<lparr>pcp_portfolio_id = p, pcp_instrument_id = i, pcp_security_id = sec,
      representative_source_transaction_id = rep, pcp_quantity = q0, pcp_cost_local = l0, pcp_cost_base = b0,
      pcp_state_version = AVERAGE_COST_POOL_STATE_VERSION\<rparr>" "0 < q0 \<longrightarrow> rep \<notin> {None, Some []}"
    using AverageCostPoolCheckpoint_Inr [OF assms(1)] assms(1) by (auto simp: AverageCostPoolCheckpoint_def rbind_eq_Inr)
  have sel: "pcp_portfolio_id before = p" "pcp_instrument_id before = i" "pcp_security_id before = sec"
    "representative_source_transaction_id before = rep" by (simp_all add: before(1))
  have ex: "ledger_amount (ols_quantity existing)" "0 \<le> ols_quantity existing" "ledger_amount (ols_cost_local existing)"
    "0 \<le> ols_cost_local existing" "ledger_amount (ols_cost_base existing)" "0 \<le> ols_cost_base existing"
    "ols_quantity existing = 0 \<Longrightarrow> ols_cost_local existing = 0 \<and> ols_cost_base existing = 0"
    using assms(3) by (auto simp: storable_state_def)
  note sums = storable_sums [OF assms(4)]
  have lims: "?Q < ledger_limit" "?L < ledger_limit" "?B < ledger_limit" using assms(5-7) ex by linarith+
  note fields = field_sums [OF assms(4) lims]
  note adds = nonneg_adds(1,3) [OF ex(1,2) fields(2) sums(1) assms(5)] nonneg_adds(1,3) [OF ex(3,4) fields(4) sums(2) assms(6)]
    nonneg_adds(1,3) [OF ex(5,6) fields(6) sums(3) assms(7)]
  define rep' where "rep' = last_open_source (if 0 < ols_quantity existing then rep else None) explicit"
  have open_states: "0 < ols_quantity existing" if "0 < ols_quantity existing + ?Q" "\<forall>(tid, st) \<in> set explicit. \<not> 0 < ols_quantity st"
  proof -
    have "ols_quantity st = 0" if "st \<in> set ?states" for st
    proof -
      have "0 \<le> ols_quantity st" using assms(4) that by (auto simp: list_all_iff storable_state_def)
      moreover have "\<not> 0 < ols_quantity st" using \<open>\<forall>(tid, st) \<in> set explicit. \<not> 0 < ols_quantity st\<close> that by auto
      ultimately show ?thesis by linarith
    qed
    then have "map ols_quantity ?states = map (\<lambda>_. 0) ?states" by (intro map_cong) auto
    then have "?Q = 0" by (simp only: sum_list_0)
    then show ?thesis using that by simp
  qed
  have rep: "(\<exists>tid st. rep' = Some tid \<and> (tid, st) \<in> set explicit \<and> 0 < ols_quantity st) \<or> (rep' = rep \<and> 0 < ols_quantity existing)"
    if "0 < ols_quantity existing + ?Q"
    using last_open_source_cases [of "if 0 < ols_quantity existing then rep else None" explicit] open_states [OF that]
    unfolding rep'_def by auto
  have rep_ok: "rep' \<notin> {None, Some []}" if "0 < ols_quantity existing + ?Q"
    using rep [OF that] before(2) t(2,3) by (auto simp: before(1) py_strip_def py_lstrip_def)
  have closed: "ols_cost_local existing + ?L = 0 \<and> ols_cost_base existing + ?B = 0" if "ols_quantity existing + ?Q = 0"
    using that ex(2,7) sums by (auto simp: add_nonneg_eq_0_iff)
  have "AverageCostPoolCheckpoint p i sec rep' (ols_quantity existing + ?Q) (ols_cost_local existing + ?L) (ols_cost_base existing + ?B) =
      Inr \<lparr>pcp_portfolio_id = p, pcp_instrument_id = i, pcp_security_id = sec,
        representative_source_transaction_id = rep', pcp_quantity = ols_quantity existing + ?Q,
        pcp_cost_local = ols_cost_local existing + ?L, pcp_cost_base = ols_cost_base existing + ?B,
        pcp_state_version = AVERAGE_COST_POOL_STATE_VERSION\<rparr>"
    using adds rep_ok closed
    by (auto simp: AverageCostPoolCheckpoint_def require_nonnegative_finite_def require_def)
  then have "transition_after t = Inr \<lparr>pcp_portfolio_id = p, pcp_instrument_id = i, pcp_security_id = sec,
        representative_source_transaction_id = rep', pcp_quantity = ols_quantity existing + ?Q,
        pcp_cost_local = ols_cost_local existing + ?L, pcp_cost_base = ols_cost_base existing + ?B,
        pcp_state_version = AVERAGE_COST_POOL_STATE_VERSION\<rparr>"
    using fields(1,3,5) adds(1,3,5)
    unfolding transition_after_def Let_def t(1) pool_transition.simps sel rep'_def [symmetric] by simp
  then show ?thesis using rep_ok closed by (auto simp: rep'_def)
qed

lemma transition_after_overflow:
  assumes "AverageCostPoolTransition before existing explicit = Inr t"
    and "storable_state existing" and "list_all storable_state (map snd explicit)"
    and "\<not> (ols_quantity existing + (\<Sum>st\<leftarrow>map snd explicit. ols_quantity st) < ledger_limit \<and>
       ols_cost_local existing + (\<Sum>st\<leftarrow>map snd explicit. ols_cost_local st) < ledger_limit \<and>
       ols_cost_base existing + (\<Sum>st\<leftarrow>map snd explicit. ols_cost_base st) < ledger_limit)"
  shows "\<exists>f \<in> {''pool_quantity'', ''pool_cost_local'', ''pool_cost_base''}.
    transition_after t = Inl (DecimalPrecisionError f MAGNITUDE_OVERFLOW (policy_id state_policy))"
proof -
  let ?states = "map snd explicit"
  let ?Q = "\<Sum>st\<leftarrow>?states. ols_quantity st" and ?L = "\<Sum>st\<leftarrow>?states. ols_cost_local st" and ?B = "\<Sum>st\<leftarrow>?states. ols_cost_base st"
  have t: "t = \<lparr>transition_before = before, existing_sources_after = existing, explicit_sources_after = explicit\<rparr>"
    using assms(1) by (auto simp: AverageCostPoolTransition_def rbind_eq_Inr)
  have ex: "ledger_amount (ols_quantity existing)" "0 \<le> ols_quantity existing" "ledger_amount (ols_cost_local existing)"
    "0 \<le> ols_cost_local existing" "ledger_amount (ols_cost_base existing)" "0 \<le> ols_cost_base existing"
    using assms(2) by (auto simp: storable_state_def)
  have ok: "\<forall>st \<in> set ?states. ledger_amount (f st) \<and> 0 \<le> f st" if "f \<in> {ols_quantity, ols_cost_local, ols_cost_base}" for f
    using assms(3) that by (auto simp: list_all_iff storable_state_def)
  note fields = sum_state_field_result [OF ok [of ols_quantity]] sum_state_field_result [OF ok [of ols_cost_local]]
    sum_state_field_result [OF ok [of ols_cost_base]]
  have add: "policy_add state_policy f x (\<Sum>st\<leftarrow>?states. fld st) =
      (if x + (\<Sum>st\<leftarrow>?states. fld st) < ledger_limit then Inr (x + (\<Sum>st\<leftarrow>?states. fld st))
       else Inl (DecimalPrecisionError f MAGNITUDE_OVERFLOW (policy_id state_policy)))"
    if "fld \<in> {ols_quantity, ols_cost_local, ols_cost_base}" "ledger_amount x" "0 \<le> x" "(\<Sum>st\<leftarrow>?states. fld st) < ledger_limit" for f x fld
  proof -
    have "0 \<le> (\<Sum>st\<leftarrow>?states. fld st)" using storable_sums [OF assms(3)] that(1) by auto
    moreover have "ledger_amount (\<Sum>st\<leftarrow>?states. fld st)"
      using sum_state_field_exact [OF ok [OF that(1)], of 0 name] that(4) by simp
    ultimately show ?thesis using cost_state.policy_add_exact [OF that(2)] that(3) by simp
  qed
  show ?thesis
    using assms(4) fields add [of ols_quantity "ols_quantity existing"] add [of ols_cost_local "ols_cost_local existing"]
      add [of ols_cost_base "ols_cost_base existing"] ex
    unfolding transition_after_def Let_def t pool_transition.simps by (auto split: if_splits)
qed

text \<open>
  C24. A validated pool transition from a validated checkpoint, whose lot states carry storable amounts
  (non-negative, at most ten decimal places, below the storage limit, and no cost without quantity),
  has exactly two outcomes. When the quantities
  and both costs of the existing and the explicit sources add up to less than the storage limit, it
  produces its successor checkpoint: the three sums, exactly; as representative the last explicit
  source that is still open, or, when none is, the representative of the previous checkpoint as long as
  the existing sources keep some quantity, and none otherwise; an open pool has a representative, and
  a closed pool carries no cost. When one of the sums reaches the limit, it raises
  \<open>MAGNITUDE_OVERFLOW\<close> on a pool field.
\<close>

theorem transition_after_correct:
  assumes "AverageCostPoolCheckpoint p i sec rep q0 l0 b0 = Inr before"
    and "AverageCostPoolTransition before existing explicit = Inr t"
    and "storable_state existing" and "list_all storable_state (map snd explicit)"
  shows "let Q = ols_quantity existing + (\<Sum>st\<leftarrow>map snd explicit. ols_quantity st);
      L = ols_cost_local existing + (\<Sum>st\<leftarrow>map snd explicit. ols_cost_local st);
      B = ols_cost_base existing + (\<Sum>st\<leftarrow>map snd explicit. ols_cost_base st);
      still_open = filter (\<lambda>(tid, st). 0 < ols_quantity st) explicit in
    if Q < ledger_limit \<and> L < ledger_limit \<and> B < ledger_limit then
      \<exists>cp. transition_after t = Inr cp \<and> pcp_quantity cp = Q \<and> pcp_cost_local cp = L \<and> pcp_cost_base cp = B \<and>
        representative_source_transaction_id cp =
          (if still_open \<noteq> [] then Some (fst (last still_open))
           else if 0 < ols_quantity existing then rep else None) \<and>
        (0 < Q \<longrightarrow> representative_source_transaction_id cp \<noteq> None) \<and> (Q = 0 \<longrightarrow> L = 0 \<and> B = 0)
    else \<exists>f \<in> {''pool_quantity'', ''pool_cost_local'', ''pool_cost_base''}.
      transition_after t = Inl (DecimalPrecisionError f MAGNITUDE_OVERFLOW (policy_id state_policy))"
  using transition_after_exact [OF assms] transition_after_overflow [OF assms(2-4)]
  unfolding Let_def last_open_source_eq by (auto simp del: map_map)

definition sample_state :: "rat \<Rightarrow> rat \<Rightarrow> rat \<Rightarrow> open_lot_state" where
  "sample_state q l b = \<lparr>ols_original_quantity = q, ols_quantity = q, ols_cost_local = l, ols_cost_base = b, ols_amortized_cost = None\<rparr>"

theorem transition_after_correct_witness:
  "\<exists>before t cp. AverageCostPoolCheckpoint ''P'' ''I'' ''S'' (Some ''A'') 30 400 450 = Inr before \<and>
    AverageCostPoolTransition before (sample_state 20 300 330) [(''B'', sample_state 10 100 120)] = Inr t \<and>
    transition_after t = Inr cp \<and> pcp_quantity cp = 30 \<and> pcp_cost_local cp = 400 \<and> pcp_cost_base cp = 450"
proof -
  obtain before where before: "AverageCostPoolCheckpoint ''P'' ''I'' ''S'' (Some ''A'') 30 400 450 = Inr before"
    by (simp add: AverageCostPoolCheckpoint_def require_nonnegative_finite_def)
  obtain t where t: "AverageCostPoolTransition before (sample_state 20 300 330) [(''B'', sample_state 10 100 120)] = Inr t"
    using AverageCostPoolCheckpoint_Inr [OF before]
    by (simp add: AverageCostPoolTransition_def validate_open_lot_state_def validate_explicit_source_def
        require_nonnegative_finite_def sample_state_def sample_ids)
  have "storable_state (sample_state 20 300 330)" "list_all storable_state (map snd [(''B'', sample_state 10 100 120)])"
    by (simp_all add: storable_state_def sample_state_def sample_numbers)
  from transition_after_correct [OF before t this] before t show ?thesis
    by (auto simp: sample_state_def)
qed

section \<open>Rebuilding a pool from its sources\<close>

text \<open>
  C25. The pool checkpoint can always be rebuilt from the materialised sources of a well-formed open
  book: it has the quantity of the pool, and its representative is an open source of the book. On each
  cost side it has the cost of the pool when some open source belongs to the current cost generation
  of that side; without such a source the rebuilt cost is zero, whatever the pool carries.
\<close>

theorem rebuilt_pool_matches:
  assumes "avco_wf s" and "materialize_book (p, i) (pool_of s (p, i)) (avco_allocation s) = Inr states"
    and "0 < pool_quantity (pool_of s (p, i))"
  shows "\<exists>cp tid st. from_open_lot_states p i sec states = Inr cp \<and>
    pcp_quantity cp = pool_quantity (pool_of s (p, i)) \<and>
    pcp_cost_local cp =
      (if cost_carried ctb_cost_local_generation (cost_local_generation_by_key (avco_allocation s) (p, i))
            (book_sources (avco_allocation s) (p, i)) states
       then pool_cost_local (pool_of s (p, i)) else 0) \<and>
    pcp_cost_base cp =
      (if cost_carried ctb_cost_base_generation (cost_base_generation_by_key (avco_allocation s) (p, i))
            (book_sources (avco_allocation s) (p, i)) states
       then pool_cost_base (pool_of s (p, i)) else 0) \<and>
    is_compatible cp p i sec \<and>
    representative_source_transaction_id cp = Some tid \<and> (tid, st) \<in> set states \<and> 0 < ols_quantity st"
proof -
  let ?k = "(p, i)"
  note pw = avco_wfD(1) [OF assms(1), of ?k] and aw = avco_wfD(2) [OF assms(1), of ?k]
  have mat: "materialized (avco_allocation s) ?k (pool_of s ?k) states"
    using materialize_book_wf [OF aw pw] assms(2) by auto
  have all: "list_all2 (\<lambda>(tid, c) (tid', s). tid' = tid \<and> source_state c s) (book_sources (avco_allocation s) ?k) states"
    using mat by (simp add: materialized_def)
  define L B where "L = (if cost_carried ctb_cost_local_generation (cost_local_generation_by_key (avco_allocation s) ?k)
      (book_sources (avco_allocation s) ?k) states then pool_cost_local (pool_of s ?k) else 0)"
    and "B = (if cost_carried ctb_cost_base_generation (cost_base_generation_by_key (avco_allocation s) ?k)
      (book_sources (avco_allocation s) ?k) states then pool_cost_base (pool_of s ?k) else 0)"
  have sums: "(\<Sum>st\<leftarrow>map snd states. ols_quantity st) = pool_quantity (pool_of s ?k)"
    "(\<Sum>st\<leftarrow>map snd states. ols_cost_local st) = L" "(\<Sum>st\<leftarrow>map snd states. ols_cost_base st) = B"
    using mat by (simp_all add: materialized_def comp_def case_prod_unfold L_def B_def)
  have row: "storable_state st \<and> (\<exists>c. (tid, c) \<in> set (book_sources (avco_allocation s) ?k))" if mem: "(tid, st) \<in> set states" for tid st
  proof -
    obtain j where j: "j < length states" "states ! j = (tid, st)" using mem by (auto simp: in_set_conv_nth)
    obtain tid' c where src: "book_sources (avco_allocation s) ?k ! j = (tid', c)" by (cases "book_sources (avco_allocation s) ?k ! j")
    have "tid' = tid" "source_state c st" using list_all2_nthD2 [OF all j(1)] by (auto simp: src j(2))
    moreover have "j < length (book_sources (avco_allocation s) ?k)" using j(1) list_all2_lengthD [OF all] by simp
    ultimately show ?thesis using nth_mem src by (fastforce simp: source_state_def storable_state_def)
  qed
  then have st: "list_all storable_state (map snd states)" by (auto simp: list_all_iff)
  note pool_costs = pool_wf_costs [OF pw]
  have costs: "0 \<le> L" "L < ledger_limit" "0 \<le> B" "B < ledger_limit"
    using pool_costs unfolding ledger_amount_iff L_def B_def by auto
  have "ledger_amount (pool_quantity (pool_of s ?k))" using pw by (simp add: pool_wf_def)
  then have lims: "(\<Sum>st\<leftarrow>map snd states. ols_quantity st) < ledger_limit" "(\<Sum>st\<leftarrow>map snd states. ols_cost_local st) < ledger_limit"
    "(\<Sum>st\<leftarrow>map snd states. ols_cost_base st) < ledger_limit"
    unfolding sums using costs unfolding ledger_amount_iff by linarith+
  note fields = field_sums [OF st lims, unfolded sums]
  obtain tid st where rep: "last_open_source None states = Some tid" "(tid, st) \<in> set states" "0 < ols_quantity st"
  proof -
    have "\<not> (\<forall>(tid, st) \<in> set states. \<not> 0 < ols_quantity st)"
    proof
      assume none: "\<forall>(tid, st) \<in> set states. \<not> 0 < ols_quantity st"
      have "(\<Sum>st\<leftarrow>map snd states. ols_quantity st) \<le> 0" by (rule sum_list_nonpos) (use none in force)
      then show False using assms(3) sums(1) by simp
    qed
    then show ?thesis using last_open_source_cases [of None states] that by auto
  qed
  obtain c where "(tid, c) \<in> set (book_sources (avco_allocation s) ?k)" using row [OF rep(2)] by blast
  then have "tid \<noteq> []" using aw by (auto simp: alloc_wf_def py_strip_def py_lstrip_def)
  then have "from_open_lot_states p i sec states = Inr \<lparr>pcp_portfolio_id = p, pcp_instrument_id = i, pcp_security_id = sec,
      representative_source_transaction_id = Some tid, pcp_quantity = pool_quantity (pool_of s ?k),
      pcp_cost_local = L, pcp_cost_base = B, pcp_state_version = AVERAGE_COST_POOL_STATE_VERSION\<rparr>"
    using assms(3) costs
    by (simp add: from_open_lot_states_def fields rep(1) AverageCostPoolCheckpoint_def require_nonnegative_finite_def)
  then show ?thesis using rep by (auto simp: is_compatible_def L_def B_def)
qed

lemma undisposed_carried:
  assumes "avco_wf s" and "undisposed key s" and "materialize_book key (pool_of s key) (avco_allocation s) = Inr states"
    and "0 < pool_quantity (pool_of s key)"
  shows "cost_carried ctb_cost_local_generation (cost_local_generation_by_key (avco_allocation s) key)
      (book_sources (avco_allocation s) key) states"
    "cost_carried ctb_cost_base_generation (cost_base_generation_by_key (avco_allocation s) key)
      (book_sources (avco_allocation s) key) states"
proof -
  let ?src = "book_sources (avco_allocation s) key"
  have mat: "materialized (avco_allocation s) key (pool_of s key) states"
    using materialize_book_wf [OF avco_wfD(2,1) [OF assms(1), of key]] assms(3) by auto
  then have len: "length ?src = length states" and sum: "(\<Sum>(tid, st)\<leftarrow>states. ols_quantity st) = pool_quantity (pool_of s key)"
    by (auto simp: materialized_def dest: list_all2_lengthD)
  have "\<not> (\<forall>x \<in> set states. ols_quantity (snd x) \<le> 0)"
  proof
    assume none: "\<forall>x \<in> set states. ols_quantity (snd x) \<le> 0"
    have "(\<Sum>(tid, st)\<leftarrow>states. ols_quantity st) \<le> 0" by (rule sum_list_nonpos) (use none in force)
    then show False using assms(4) sum by simp
  qed
  then obtain j where j: "j < length states" "0 < ols_quantity (snd (states ! j))" by (auto simp: in_set_conv_nth not_le)
  then have mem: "(?src ! j, states ! j) \<in> set (zip ?src states)" using len by (auto simp: set_zip)
  have "undisposed_source (snd (?src ! j))"
    using undisposedD(12) [OF assms(2)] j(1) len by (simp add: list_all_length)
  with j(2) mem undisposedD(6,7) [OF assms(2)]
  show "cost_carried ctb_cost_local_generation (cost_local_generation_by_key (avco_allocation s) key) ?src states"
    "cost_carried ctb_cost_base_generation (cost_base_generation_by_key (avco_allocation s) key) ?src states"
    by (auto simp: cost_carried_def list_ex_iff undisposed_source_def split: prod.splits intro!: bexI [OF _ mem])
qed

theorem rebuilt_pool_matches_witness:
  "\<exists>states cp. materialize_book (''P'', ''I'') (pool_of one_source (''P'', ''I'')) (avco_allocation one_source) = Inr states \<and>
    from_open_lot_states ''P'' ''I'' ''S'' states = Inr cp \<and> pcp_quantity cp = 10 \<and> pcp_cost_local cp = 100 \<and> pcp_cost_base cp = 120"
proof -
  have pos: "0 < pool_quantity (pool_of one_source (''P'', ''I''))" by (simp add: one_source_wf(3))
  obtain states where states: "materialize_book (''P'', ''I'') (pool_of one_source (''P'', ''I'')) (avco_allocation one_source) = Inr states"
    using materialize_book_wf [OF avco_wfD(2,1) [OF one_source_wf(2), of "(''P'', ''I'')"]] by (elim exE conjE) (rule that)
  note carried = undisposed_carried [OF one_source_wf(2) one_source_undisposed(1) states pos]
  from rebuilt_pool_matches [OF one_source_wf(2) states pos, of "''S''"] states show ?thesis
    unfolding if_P [OF carried(1)] if_P [OF carried(2)] one_source_wf(3-5) by (elim exE conjE) (intro exI conjI, assumption+)
qed

end
