(* ===== verification/Transaction_Types.thy ===== *)
theory Transaction_Types
  imports Core_Prelude
begin

text \<open>
  The transaction-type registry of \<open>domain/transaction/type_registry.py\<close> as a table, its lookups,
  the lot-behaviour classes of \<open>lot_behavior.py\<close>, the corporate-action classes of
  \<open>corporate_action/classification.py\<close> and the effective processing type of
  \<open>processing_type.py\<close>. The sorted read-only view \<open>TRANSACTION_TYPE_REGISTRY\<close> is only looked up
  and filtered into sets, so the table keeps the order of the source.
\<close>

section \<open>The registry\<close>

definition SUPPORTED :: string where "SUPPORTED = ''supported''"
definition LIMITED :: string where "LIMITED = ''limited''"
definition DEFAULT_STRATEGY :: string where "DEFAULT_STRATEGY = ''default_strategy''"
definition INTERNAL_GENERATED :: string where "INTERNAL_GENERATED = ''internal_generated''"
definition TARGET_NOT_IMPLEMENTED :: string where "TARGET_NOT_IMPLEMENTED = ''target_not_implemented''"
definition MIGRATION_ONLY :: string where "MIGRATION_ONLY = ''migration_only''"

record type_definition =
  type_code :: string
  lifecycle_family :: string
  economic_role :: string
  position_effect :: string
  cash_effect :: string
  lot_behavior :: string
  settlement_behavior :: string
  income_behavior :: string
  default_cash_entry_mode :: "string option"
  calculation_support_status :: string
  production_booking_allowed :: bool

definition TransactionTypeDefinition ::
  "string \<Rightarrow> string \<Rightarrow> string \<Rightarrow> string \<Rightarrow> string \<Rightarrow> string \<Rightarrow> string \<Rightarrow> string \<Rightarrow> string option \<Rightarrow> string \<Rightarrow>
   bool \<Rightarrow> type_definition" where
  "TransactionTypeDefinition code family role position cash lot settlement income entry_mode status allowed =
     \<lparr>type_code = code, lifecycle_family = family, economic_role = role, position_effect = position,
      cash_effect = cash, lot_behavior = lot, settlement_behavior = settlement, income_behavior = income,
      default_cash_entry_mode = entry_mode, calculation_support_status = status,
      production_booking_allowed = allowed\<rparr>"

definition TRADE_AND_INCOME_TYPES :: "type_definition list" where
  "TRADE_AND_INCOME_TYPES =
     [TransactionTypeDefinition ''BUY'' ''trade'' ''security_buy'' ''increase'' ''outflow''
        ''open_lot'' ''requires_cash_leg'' ''none'' None SUPPORTED True,
      TransactionTypeDefinition ''SELL'' ''trade'' ''security_sell'' ''decrease'' ''inflow''
        ''consume_lot'' ''requires_cash_leg'' ''none'' None SUPPORTED True,
      TransactionTypeDefinition ''FX_SPOT'' ''fx'' ''fx_trade'' ''none'' ''linked_cash_legs''
        ''none'' ''requires_cash_leg'' ''none'' None SUPPORTED True,
      TransactionTypeDefinition ''FX_FORWARD'' ''fx'' ''fx_forward'' ''none'' ''linked_cash_legs''
        ''none'' ''requires_cash_leg'' ''none'' None SUPPORTED True,
      TransactionTypeDefinition ''FX_SWAP'' ''fx'' ''fx_swap'' ''none'' ''linked_cash_legs''
        ''none'' ''requires_cash_leg'' ''none'' None SUPPORTED True,
      TransactionTypeDefinition ''INTEREST'' ''income'' ''income_receipt'' ''none'' ''inflow''
        ''none'' ''requires_cash_leg'' ''interest_income'' (Some ''AUTO_GENERATE'') SUPPORTED True,
      TransactionTypeDefinition ''DIVIDEND'' ''income'' ''income_receipt'' ''none'' ''inflow''
        ''none'' ''requires_cash_leg'' ''distribution_income'' (Some ''AUTO_GENERATE'') SUPPORTED True,
      TransactionTypeDefinition ''DEPOSIT'' ''cash_movement'' ''cash_deposit'' ''cash_increase'' ''inflow''
        ''none'' ''cash_account_required'' ''none'' None SUPPORTED True,
      TransactionTypeDefinition ''WITHDRAWAL'' ''cash_movement'' ''cash_withdrawal'' ''cash_decrease'' ''outflow''
        ''none'' ''cash_account_required'' ''none'' None SUPPORTED True,
      TransactionTypeDefinition ''FEE'' ''expense'' ''fee'' ''cash_decrease'' ''outflow''
        ''none'' ''cash_account_required'' ''none'' None LIMITED True,
      TransactionTypeDefinition ''TAX'' ''expense'' ''tax'' ''cash_decrease'' ''outflow''
        ''none'' ''cash_account_required'' ''none'' None LIMITED True,
      TransactionTypeDefinition ''TRANSFER_IN'' ''transfer'' ''security_transfer_in'' ''increase'' ''none''
        ''preserve_or_restate_lot'' ''not_applicable'' ''none'' None SUPPORTED True,
      TransactionTypeDefinition ''TRANSFER_OUT'' ''transfer'' ''security_transfer_out'' ''decrease'' ''none''
        ''preserve_or_consume_lot'' ''not_applicable'' ''none'' None SUPPORTED True]"

definition CORPORATE_ACTION_TYPES :: "type_definition list" where
  "CORPORATE_ACTION_TYPES =
     [TransactionTypeDefinition ''MERGER_OUT'' ''corporate_action'' ''source_security_leg'' ''decrease'' ''none''
        ''transfer_basis_out'' ''not_applicable'' ''none'' None SUPPORTED True,
      TransactionTypeDefinition ''MERGER_IN'' ''corporate_action'' ''target_security_leg'' ''increase'' ''none''
        ''transfer_basis_in'' ''not_applicable'' ''none'' None SUPPORTED True,
      TransactionTypeDefinition ''EXCHANGE_OUT'' ''corporate_action'' ''source_security_leg'' ''decrease'' ''none''
        ''transfer_basis_out'' ''not_applicable'' ''none'' None SUPPORTED True,
      TransactionTypeDefinition ''EXCHANGE_IN'' ''corporate_action'' ''target_security_leg'' ''increase'' ''none''
        ''transfer_basis_in'' ''not_applicable'' ''none'' None SUPPORTED True,
      TransactionTypeDefinition ''REPLACEMENT_OUT'' ''corporate_action'' ''source_security_leg'' ''decrease'' ''none''
        ''transfer_basis_out'' ''not_applicable'' ''none'' None SUPPORTED True,
      TransactionTypeDefinition ''REPLACEMENT_IN'' ''corporate_action'' ''target_security_leg'' ''increase'' ''none''
        ''transfer_basis_in'' ''not_applicable'' ''none'' None SUPPORTED True,
      TransactionTypeDefinition ''SPIN_OFF'' ''corporate_action'' ''source_security_reduction'' ''decrease'' ''none''
        ''partial_basis_transfer'' ''not_applicable'' ''none'' None SUPPORTED True,
      TransactionTypeDefinition ''SPIN_IN'' ''corporate_action'' ''target_security_leg'' ''increase'' ''none''
        ''basis_allocation_in'' ''not_applicable'' ''none'' None SUPPORTED True,
      TransactionTypeDefinition ''DEMERGER_OUT'' ''corporate_action'' ''source_security_reduction'' ''decrease'' ''none''
        ''partial_basis_transfer'' ''not_applicable'' ''none'' None SUPPORTED True,
      TransactionTypeDefinition ''DEMERGER_IN'' ''corporate_action'' ''target_security_leg'' ''increase'' ''none''
        ''basis_allocation_in'' ''not_applicable'' ''none'' None SUPPORTED True,
      TransactionTypeDefinition ''CASH_CONSIDERATION'' ''corporate_action'' ''cash_consideration'' ''none'' ''inflow''
        ''none'' ''requires_cash_leg'' ''none'' None SUPPORTED True,
      TransactionTypeDefinition ''CASH_IN_LIEU'' ''corporate_action'' ''fractional_cash_settlement'' ''decrease'' ''inflow''
        ''consume_lot'' ''requires_cash_leg'' ''none'' None SUPPORTED True,
      TransactionTypeDefinition ''MATURITY_REDEMPTION'' ''redemption'' ''maturity_redemption'' ''decrease'' ''inflow''
        ''consume_lot'' ''requires_cash_leg'' ''none'' (Some ''AUTO_GENERATE'') SUPPORTED True,
      TransactionTypeDefinition ''CALL_REDEMPTION'' ''redemption'' ''call_redemption'' ''decrease'' ''inflow''
        ''consume_lot'' ''requires_cash_leg'' ''none'' (Some ''AUTO_GENERATE'') SUPPORTED True,
      TransactionTypeDefinition ''PARTIAL_REDEMPTION'' ''redemption'' ''partial_redemption'' ''decrease'' ''inflow''
        ''consume_lot'' ''requires_cash_leg'' ''none'' (Some ''AUTO_GENERATE'') SUPPORTED True]"

definition RESTATEMENT_AND_RIGHTS_TYPES :: "type_definition list" where
  "RESTATEMENT_AND_RIGHTS_TYPES =
     [TransactionTypeDefinition ''SPLIT'' ''corporate_action'' ''quantity_restatement'' ''increase'' ''none''
        ''quantity_restatement'' ''not_applicable'' ''none'' None SUPPORTED True,
      TransactionTypeDefinition ''REVERSE_SPLIT'' ''corporate_action'' ''quantity_restatement'' ''decrease'' ''none''
        ''quantity_restatement'' ''not_applicable'' ''none'' None SUPPORTED True,
      TransactionTypeDefinition ''CONSOLIDATION'' ''corporate_action'' ''quantity_restatement'' ''decrease'' ''none''
        ''quantity_restatement'' ''not_applicable'' ''none'' None SUPPORTED True,
      TransactionTypeDefinition ''BONUS_ISSUE'' ''corporate_action'' ''quantity_restatement'' ''increase'' ''none''
        ''quantity_restatement'' ''not_applicable'' ''none'' None SUPPORTED True,
      TransactionTypeDefinition ''STOCK_DIVIDEND'' ''corporate_action'' ''quantity_restatement'' ''increase'' ''none''
        ''quantity_restatement'' ''not_applicable'' ''none'' None SUPPORTED True,
      TransactionTypeDefinition ''RIGHTS_ANNOUNCE'' ''rights'' ''rights_notification'' ''none'' ''none''
        ''none'' ''not_applicable'' ''none'' None DEFAULT_STRATEGY True,
      TransactionTypeDefinition ''RIGHTS_ALLOCATE'' ''rights'' ''rights_allocation'' ''increase'' ''none''
        ''open_rights_lot'' ''not_applicable'' ''none'' None SUPPORTED True,
      TransactionTypeDefinition ''RIGHTS_EXPIRE'' ''rights'' ''rights_expiry'' ''decrease'' ''none''
        ''consume_rights_lot'' ''not_applicable'' ''none'' None SUPPORTED True,
      TransactionTypeDefinition ''RIGHTS_ADJUSTMENT'' ''rights'' ''rights_adjustment'' ''none'' ''none''
        ''policy_adjustment'' ''not_applicable'' ''none'' None DEFAULT_STRATEGY True,
      TransactionTypeDefinition ''RIGHTS_SELL'' ''rights'' ''rights_sale'' ''decrease'' ''inflow''
        ''consume_rights_lot'' ''requires_cash_leg'' ''none'' None SUPPORTED True,
      TransactionTypeDefinition ''RIGHTS_SUBSCRIBE'' ''rights'' ''rights_subscription'' ''decrease'' ''outflow''
        ''consume_rights_lot'' ''requires_cash_leg'' ''none'' None SUPPORTED True,
      TransactionTypeDefinition ''RIGHTS_OVERSUBSCRIBE'' ''rights'' ''rights_oversubscription'' ''decrease'' ''outflow''
        ''consume_rights_lot'' ''requires_cash_leg'' ''none'' None SUPPORTED True,
      TransactionTypeDefinition ''RIGHTS_REFUND'' ''rights'' ''rights_refund'' ''none'' ''inflow''
        ''none'' ''requires_cash_leg'' ''none'' None SUPPORTED True,
      TransactionTypeDefinition ''RIGHTS_SHARE_DELIVERY'' ''rights'' ''rights_share_delivery'' ''increase'' ''none''
        ''open_lot'' ''not_applicable'' ''none'' None SUPPORTED True,
      TransactionTypeDefinition ''ADJUSTMENT'' ''adjustment'' ''cash_or_position_adjustment'' ''mixed'' ''mixed''
        ''policy_adjustment'' ''conditional'' ''none'' None DEFAULT_STRATEGY True,
      TransactionTypeDefinition ''FX_CASH_SETTLEMENT_BUY'' ''fx'' ''generated_fx_cash_leg'' ''cash_increase'' ''inflow''
        ''none'' ''cash_account_required'' ''none'' None INTERNAL_GENERATED False,
      TransactionTypeDefinition ''FX_CASH_SETTLEMENT_SELL'' ''fx'' ''generated_fx_cash_leg'' ''cash_decrease'' ''outflow''
        ''none'' ''cash_account_required'' ''none'' None INTERNAL_GENERATED False,
      TransactionTypeDefinition ''OTHER'' ''migration'' ''unknown_legacy_type'' ''unknown'' ''unknown''
        ''unknown'' ''unknown'' ''none'' None MIGRATION_ONLY False]"

definition TARGET_NOT_IMPLEMENTED_TYPES :: "(string \<times> string \<times> string) list" where
  "TARGET_NOT_IMPLEMENTED_TYPES =
     [(''AMORTIZATION'', ''redemption'', ''principal_amortization''),
      (''ACCRETION'', ''redemption'', ''discount_accretion''),
      (''CONVERSION_EVENT'', ''conversion'', ''parent_conversion_event''),
      (''CONVERSION_OUT'', ''conversion'', ''source_security_leg''),
      (''CONVERSION_IN'', ''conversion'', ''target_security_leg''),
      (''EXERCISE_OUT'', ''conversion'', ''source_contract_leg''),
      (''EXERCISE_IN'', ''conversion'', ''target_security_leg''),
      (''STRIKE_PAYMENT'', ''conversion'', ''strike_cash_payment'')]"

definition target_not_implemented :: "string \<times> string \<times> string \<Rightarrow> type_definition" where
  "target_not_implemented row =
     (case row of (code, family, role) \<Rightarrow>
      TransactionTypeDefinition code family role ''target_model_required'' ''target_model_required''
        ''target_model_required'' ''target_model_required'' ''none'' None TARGET_NOT_IMPLEMENTED False)"

definition TRANSACTION_TYPE_REGISTRY :: "type_definition list" where
  "TRANSACTION_TYPE_REGISTRY =
     TRADE_AND_INCOME_TYPES @ CORPORATE_ACTION_TYPES @ RESTATEMENT_AND_RIGHTS_TYPES @
     map target_not_implemented TARGET_NOT_IMPLEMENTED_TYPES"

definition get_transaction_type_definition :: "string option \<Rightarrow> type_definition option" where
  "get_transaction_type_definition code =
     find (\<lambda>d. type_code d = normalize_code code) TRANSACTION_TYPE_REGISTRY"

definition is_registered_transaction_type :: "string option \<Rightarrow> bool" where
  "is_registered_transaction_type code \<longleftrightarrow> get_transaction_type_definition code \<noteq> None"

definition is_production_booking_transaction_type :: "string option \<Rightarrow> bool" where
  "is_production_booking_transaction_type code =
     (case get_transaction_type_definition code of None \<Rightarrow> False | Some d \<Rightarrow> production_booking_allowed d)"

definition require_registered_transaction_type :: "string option \<Rightarrow> type_definition res" where
  "require_registered_transaction_type code =
     (case get_transaction_type_definition code of
        None \<Rightarrow>
          Inl (ValueError (''Unknown transaction type: '' @
                 (if normalize_code code = [] then ''<blank>'' else normalize_code code)))
      | Some d \<Rightarrow> Inr d)"

text \<open>The four selections of production types; the lower-casing of the requested names is the
  ASCII one.\<close>

definition py_lower :: "string \<Rightarrow> string" where
  "py_lower s = map (\<lambda>c. let n = of_char c :: nat in if 65 \<le> n \<and> n \<le> 90 then char_of (n + 32) else c) s"

definition normalized_names :: "string option list \<Rightarrow> string list" where
  "normalized_names names =
     filter (\<lambda>n. n \<noteq> []) (map (\<lambda>v. py_lower (py_strip (case v of None \<Rightarrow> [] | Some s \<Rightarrow> s))) names)"

definition production_types :: "(type_definition \<Rightarrow> bool) \<Rightarrow> string set" where
  "production_types selected =
     set (map type_code (filter (\<lambda>d. production_booking_allowed d \<and> selected d) TRANSACTION_TYPE_REGISTRY))"

definition production_transaction_types_for_lifecycle_families :: "string option list \<Rightarrow> string set" where
  "production_transaction_types_for_lifecycle_families names =
     production_types (\<lambda>d. lifecycle_family d \<in> set (normalized_names names))"

definition production_transaction_types_for_position_effects :: "string option list \<Rightarrow> string set" where
  "production_transaction_types_for_position_effects names =
     production_types (\<lambda>d. position_effect d \<in> set (normalized_names names))"

definition production_transaction_types_for_lot_behaviors :: "string option list \<Rightarrow> string set" where
  "production_transaction_types_for_lot_behaviors names =
     production_types (\<lambda>d. lot_behavior d \<in> set (normalized_names names))"

definition production_transaction_types_for_generated_cash_legs :: "string set" where
  "production_transaction_types_for_generated_cash_legs =
     production_types (\<lambda>d. lifecycle_family d \<in> {''trade'', ''income'', ''redemption''} \<and>
       cash_effect d \<in> {''inflow'', ''outflow''} \<and> settlement_behavior d = ''requires_cash_leg'')"

section \<open>Lot behaviour\<close>

definition LOT_OPENING_BEHAVIORS :: "string set" where
  "LOT_OPENING_BEHAVIORS =
     {''basis_allocation_in'', ''open_lot'', ''open_rights_lot'', ''preserve_or_restate_lot'', ''transfer_basis_in''}"

definition LOT_STATE_MUTATING_BEHAVIORS :: "string set" where
  "LOT_STATE_MUTATING_BEHAVIORS = LOT_OPENING_BEHAVIORS \<union>
     {''consume_lot'', ''consume_rights_lot'', ''partial_basis_transfer'', ''preserve_or_consume_lot'',
      ''quantity_restatement'', ''transfer_basis_out''}"

definition STATE_DEPENDENT_LOT_BEHAVIORS :: "string set" where
  "STATE_DEPENDENT_LOT_BEHAVIORS = LOT_STATE_MUTATING_BEHAVIORS - LOT_OPENING_BEHAVIORS"

definition INCREMENTAL_SAFE_LOT_BEHAVIORS :: "string set" where
  "INCREMENTAL_SAFE_LOT_BEHAVIORS = LOT_OPENING_BEHAVIORS \<union> STATE_DEPENDENT_LOT_BEHAVIORS \<union> {''none''}"

definition AVERAGE_COST_POOL_LOT_BEHAVIORS :: "string set" where
  "AVERAGE_COST_POOL_LOT_BEHAVIORS = {''open_lot'', ''consume_lot''}"

definition transaction_lot_behavior :: "string option \<Rightarrow> string" where
  "transaction_lot_behavior transaction_type =
     (case get_transaction_type_definition (Some (normalize_code transaction_type)) of
        Some d \<Rightarrow> lot_behavior d | None \<Rightarrow> ''unknown'')"

section \<open>Corporate actions\<close>

definition SAME_INSTRUMENT_CORPORATE_ACTION_TYPES :: "string set" where
  "SAME_INSTRUMENT_CORPORATE_ACTION_TYPES =
     {''SPLIT'', ''REVERSE_SPLIT'', ''CONSOLIDATION'', ''BONUS_ISSUE'', ''STOCK_DIVIDEND''}"

definition SOURCE_BASIS_TRANSFER_TRANSACTION_TYPES :: "string set" where
  "SOURCE_BASIS_TRANSFER_TRANSACTION_TYPES = {''SPIN_OFF'', ''DEMERGER_OUT''}"

definition TARGET_BASIS_TRANSFER_TRANSACTION_TYPES :: "string set" where
  "TARGET_BASIS_TRANSFER_TRANSACTION_TYPES = {''SPIN_IN'', ''DEMERGER_IN''}"

definition QUANTITY_TRANSFER_CORPORATE_ACTION_PAIRS :: "(string \<times> string) list" where
  "QUANTITY_TRANSFER_CORPORATE_ACTION_PAIRS =
     [(''MERGER_OUT'', ''MERGER_IN''), (''EXCHANGE_OUT'', ''EXCHANGE_IN''), (''REPLACEMENT_OUT'', ''REPLACEMENT_IN'')]"

definition REDEMPTION_TRANSACTION_TYPES :: "string set" where
  "REDEMPTION_TRANSACTION_TYPES = {''MATURITY_REDEMPTION'', ''CALL_REDEMPTION'', ''PARTIAL_REDEMPTION''}"

definition RECONCILABLE_CORPORATE_ACTION_TYPES :: "string set" where
  "RECONCILABLE_CORPORATE_ACTION_TYPES =
     {''SPIN_OFF'', ''SPIN_IN'', ''DEMERGER_OUT'', ''DEMERGER_IN'', ''CASH_CONSIDERATION''} \<union>
     set (map fst QUANTITY_TRANSFER_CORPORATE_ACTION_PAIRS) \<union>
     set (map snd QUANTITY_TRANSFER_CORPORATE_ACTION_PAIRS) \<union> {''CASH_IN_LIEU''} \<union> {''ADJUSTMENT''}"

definition is_reconcilable_corporate_action :: "string option \<Rightarrow> bool" where
  "is_reconcilable_corporate_action transaction_type \<longleftrightarrow>
     normalize_code transaction_type \<in> RECONCILABLE_CORPORATE_ACTION_TYPES"

definition is_manifest_governed_corporate_action :: "string option \<Rightarrow> bool" where
  "is_manifest_governed_corporate_action transaction_type \<longleftrightarrow>
     normalize_code transaction_type \<in> RECONCILABLE_CORPORATE_ACTION_TYPES \<union> {''FEE'', ''TAX''}"

section \<open>Effective processing type\<close>

definition FX_COMPONENT_PROCESSING_TYPES :: "string set" where
  "FX_COMPONENT_PROCESSING_TYPES =
     {''FX_CONTRACT_OPEN'', ''FX_CONTRACT_CLOSE'', ''FX_CASH_SETTLEMENT_BUY'', ''FX_CASH_SETTLEMENT_SELL''}"

definition effective_processing_type :: "string option \<Rightarrow> string \<Rightarrow> string" where
  "effective_processing_type component transaction_type =
     (let component_type = normalize_code component in
      if component_type \<in> FX_COMPONENT_PROCESSING_TYPES then component_type
      else normalize_code (Some transaction_type))"

definition is_cash_instrument :: "string option \<Rightarrow> string option \<Rightarrow> bool" where
  "is_cash_instrument product asset \<longleftrightarrow> normalize_code product = ''CASH'' \<or> normalize_code asset = ''CASH''"

end
