(* ===== verification/Transaction_Ordering.thy ===== *)
theory Transaction_Ordering
  imports Cost_Basis_Transaction Transaction_Types
    "HOL-Library.Multiset" "HOL-Library.Char_ord" "HOL-Library.List_Lexorder" "HOL-Library.Product_Lexorder"
begin

text \<open>
  The ledger order of cost-basis transactions: \<open>transaction_ordering.py\<close>, the linked-leg ranks of
  \<open>corporate_action/ordering.py\<close>, and the durable ordering checkpoint of
  \<open>processing_checkpoint.py\<close>. Keys are tuples compared lexicographically, strings by code point,
  aware instants by their UTC instant.
\<close>

section \<open>Linked legs\<close>

definition SOURCE_OUT_RANK_TYPES :: "string set" where
  "SOURCE_OUT_RANK_TYPES = SOURCE_BASIS_TRANSFER_TRANSACTION_TYPES \<union> {''RIGHTS_ANNOUNCE'', ''RIGHTS_ALLOCATE''}"

definition TARGET_IN_RANK_TYPES :: "string set" where
  "TARGET_IN_RANK_TYPES = TARGET_BASIS_TRANSFER_TRANSACTION_TYPES \<union>
     {''RIGHTS_SUBSCRIBE'', ''RIGHTS_OVERSUBSCRIBE'', ''RIGHTS_SELL'', ''RIGHTS_EXPIRE'', ''RIGHTS_ADJUSTMENT''}"

definition CASH_CONSIDERATION_RANK_TYPES :: "string set" where
  "CASH_CONSIDERATION_RANK_TYPES = {''CASH_CONSIDERATION'', ''RIGHTS_SHARE_DELIVERY''}"

text \<open>The groups of \<open>_DEPENDENCY_RANK_BY_TYPE\<close> are disjoint, so the order of the tests is immaterial.\<close>

definition corporate_action_dependency_rank :: "string \<Rightarrow> int" where
  "corporate_action_dependency_rank ttype =
     (let code = normalize_code (Some ttype) in
      if code \<in> SOURCE_OUT_RANK_TYPES then 0
      else if code \<in> TARGET_IN_RANK_TYPES then 1
      else if code \<in> CASH_CONSIDERATION_RANK_TYPES then 2
      else if code = ''RIGHTS_REFUND'' then 3
      else if code \<in> SAME_INSTRUMENT_CORPORATE_ACTION_TYPES then 5
      else 4)"

definition corporate_action_target_order_key :: "int option \<Rightarrow> string option \<Rightarrow> int \<times> string" where
  "corporate_action_target_order_key sequence_hint target =
     (case sequence_hint of Some n \<Rightarrow> n | None \<Rightarrow> 2147483647, case target of Some t \<Rightarrow> t | None \<Rightarrow> [])"

text \<open>Unary minus of a \<open>Decimal\<close> rounds to the context, here the ambient one.\<close>

definition dec_neg :: "nat \<Rightarrow> rat \<Rightarrow> rat" where
  "dec_neg p x = sig_round p (- x)"

definition same_time_restatement_order_key :: "string \<Rightarrow> string \<Rightarrow> rat \<Rightarrow> (rat \<times> string) option" where
  "same_time_restatement_order_key ttype tid quantity =
     (if normalize_code (Some ttype) \<in> SAME_INSTRUMENT_CORPORATE_ACTION_TYPES
      then Some (dec_neg ambient quantity, tid) else None)"

section \<open>The order key\<close>

definition CASH_INFLOW_TRANSACTION_TYPES :: "string set" where
  "CASH_INFLOW_TRANSACTION_TYPES =
     {''DEPOSIT'', ''TRANSFER_IN'', ''MERGER_IN'', ''EXCHANGE_IN'', ''REPLACEMENT_IN'', ''BUY''}"

definition CASH_OUTFLOW_TRANSACTION_TYPES :: "string set" where
  "CASH_OUTFLOW_TRANSACTION_TYPES = {''SELL'', ''WITHDRAWAL'', ''FEE'', ''TAX'', ''TRANSFER_OUT''}"

definition is_cash_inflow :: "string \<Rightarrow> string \<Rightarrow> bool" where
  "is_cash_inflow component type \<longleftrightarrow>
     component \<in> {''FX_CASH_SETTLEMENT_BUY''} \<or> type \<in> CASH_INFLOW_TRANSACTION_TYPES"

definition is_cash_outflow :: "string \<Rightarrow> string \<Rightarrow> bool" where
  "is_cash_outflow component type \<longleftrightarrow>
     component \<in> {''FX_CASH_SETTLEMENT_SELL''} \<or> type \<in> CASH_OUTFLOW_TRANSACTION_TYPES"

definition cash_dependency_rank :: "cost_basis_transaction \<Rightarrow> int" where
  "cash_dependency_rank t =
     (let component = normalize_code (component_type t); type = normalize_code (Some (transaction_type t)) in
      if \<not> is_cash_instrument (product_type t) (asset_class t) then 1
      else if is_cash_inflow component type then 0
      else if is_cash_outflow component type then 2
      else 1)"

type_synonym transaction_order_key = "int \<times> int \<times> int \<times> int \<times> string \<times> rat \<times> string"

definition transaction_order_key :: "cost_basis_transaction \<Rightarrow> transaction_order_key" where
  "transaction_order_key t =
     (let (target_sequence, target) =
            corporate_action_target_order_key (child_sequence_hint t) (target_instrument_id t);
          order_quantity = (case source_lot_order_quantity t of Some q \<Rightarrow> q | None \<Rightarrow> txn_quantity t);
          (quantity_order, tid) =
            (case same_time_restatement_order_key (transaction_type t) (transaction_id t) order_quantity of
               Some key \<Rightarrow> key
             | None \<Rightarrow> (dec_neg ambient order_quantity, transaction_id t)) in
      (utc_us (transaction_date t), corporate_action_dependency_rank (transaction_type t),
       cash_dependency_rank t, target_sequence, target, quantity_order, tid))"

text \<open>\<open>list.sort\<close> is stable, as \<open>sort_key\<close> is.\<close>

definition sort_transactions ::
  "cost_basis_transaction list \<Rightarrow> cost_basis_transaction list \<Rightarrow> cost_basis_transaction list" where
  "sort_transactions existing_transactions new_transactions =
     sort_key transaction_order_key (existing_transactions @ new_transactions)"

section \<open>The processing checkpoint\<close>

datatype cost_basis_method = FIFO | AVCO

text \<open>\<open>normalize_cost_basis_method\<close> on a text; the default of an absent method is FIFO.\<close>

definition py_replace_char :: "char \<Rightarrow> char \<Rightarrow> string \<Rightarrow> string" where
  "py_replace_char old new s = map (\<lambda>c. if c = old then new else c) s"

definition normalize_cost_basis_method :: "string option \<Rightarrow> cost_basis_method res" where
  "normalize_cost_basis_method value =
     (case value of
        None \<Rightarrow> Inr FIFO
      | Some text \<Rightarrow>
          (let normalized = py_replace_char (CHR ''-'') (CHR ''_'') (py_upper (py_strip text)) in
           if normalized = ''FIFO'' then Inr FIFO
           else if normalized = ''AVCO'' then Inr AVCO
           else Inl (ValueError (''Unsupported cost basis method: '' @ text))))"

definition method_value :: "cost_basis_method \<Rightarrow> string" where
  "method_value m = (case m of FIFO \<Rightarrow> ''FIFO'' | AVCO \<Rightarrow> ''AVCO'')"

definition COST_BASIS_STATE_VERSION :: string where
  "COST_BASIS_STATE_VERSION = ''open-lot-v1''"

record processing_checkpoint =
  pcs_portfolio_id :: string
  pcs_security_id :: string
  pcs_cost_basis_method :: string
  latest_transaction_date :: int
  latest_dependency_rank :: int
  latest_cash_dependency_rank :: int
  latest_child_sequence :: int
  latest_target_instrument_id :: string
  latest_quantity :: rat
  latest_transaction_id :: string
  calculation_state_version :: string

definition CostBasisProcessingCheckpoint :: "processing_checkpoint \<Rightarrow> processing_checkpoint res" where
  "CostBasisProcessingCheckpoint cp =
     rbind (require (0 \<le> latest_quantity cp)
              (ValueError ''Latest cost-basis quantity must be nonnegative'')) (\<lambda>_. Inr cp)"

definition checkpoint_from_transaction ::
  "cost_basis_transaction \<Rightarrow> cost_basis_method \<Rightarrow> processing_checkpoint res" where
  "checkpoint_from_transaction t m =
     (case transaction_order_key t of (date, rank, cash_rank, sequence, target, _, tid) \<Rightarrow>
      CostBasisProcessingCheckpoint
       \<lparr>pcs_portfolio_id = portfolio_id t, pcs_security_id = security_id t,
        pcs_cost_basis_method = method_value m, latest_transaction_date = date,
        latest_dependency_rank = rank, latest_cash_dependency_rank = cash_rank,
        latest_child_sequence = sequence, latest_target_instrument_id = target,
        latest_quantity = txn_quantity t, latest_transaction_id = tid,
        calculation_state_version = COST_BASIS_STATE_VERSION\<rparr>)"

definition checkpoint_order_key :: "processing_checkpoint \<Rightarrow> transaction_order_key" where
  "checkpoint_order_key cp =
     (latest_transaction_date cp, latest_dependency_rank cp, latest_cash_dependency_rank cp,
      latest_child_sequence cp, latest_target_instrument_id cp, dec_neg ambient (latest_quantity cp),
      latest_transaction_id cp)"

definition permits_append :: "processing_checkpoint \<Rightarrow> cost_basis_transaction \<Rightarrow> cost_basis_method \<Rightarrow> bool" where
  "permits_append cp t m \<longleftrightarrow>
     calculation_state_version cp = COST_BASIS_STATE_VERSION \<and> pcs_cost_basis_method cp = method_value m \<and>
     portfolio_id t = pcs_portfolio_id cp \<and> security_id t = pcs_security_id cp \<and>
     checkpoint_order_key cp < transaction_order_key t"

section \<open>Correctness of the order\<close>

text \<open>With or without the restatement branch the key has one shape.\<close>

lemma order_key_eq:
  "transaction_order_key t =
     (utc_us (transaction_date t), corporate_action_dependency_rank (transaction_type t),
      cash_dependency_rank t,
      case child_sequence_hint t of Some n \<Rightarrow> n | None \<Rightarrow> 2147483647,
      case target_instrument_id t of Some i \<Rightarrow> i | None \<Rightarrow> [],
      dec_neg ambient (case source_lot_order_quantity t of Some q \<Rightarrow> q | None \<Rightarrow> txn_quantity t),
      transaction_id t)"
  by (simp add: transaction_order_key_def corporate_action_target_order_key_def same_time_restatement_order_key_def Let_def)

lemma order_key_last:
  "snd (snd (snd (snd (snd (snd (transaction_order_key t)))))) = transaction_id t"
  by (simp add: order_key_eq)

lemma order_key_inj: "transaction_order_key t = transaction_order_key u \<Longrightarrow> transaction_id t = transaction_id u"
  using order_key_last [of t] order_key_last [of u] by simp

text \<open>Under a key that separates them, a collection has one sorted arrangement.\<close>

lemma sort_key_unique:
  assumes same: "mset xs = mset ys" and inj: "inj_on f (set xs)"
  shows "sort_key f xs = sort_key f ys"
proof (rule map_inj_on)
  have "map f (sort_key f zs) = sort (map f zs)" for zs by (rule properties_for_sort [symmetric]) simp_all
  moreover have "sort (map f xs) = sort (map f ys)" using same by (intro properties_for_sort) simp_all
  ultimately show "map f (sort_key f xs) = map f (sort_key f ys)" by simp
  show "inj_on f (set (sort_key f xs) \<union> set (sort_key f ys))"
    using inj mset_eq_setD [OF same] by simp
qed

lemma order_key_inj_on:
  assumes "distinct (map transaction_id xs)" shows "inj_on transaction_order_key (set xs)"
  using assms by (auto intro!: inj_onI dest: order_key_inj simp: distinct_map inj_on_eq_iff)

lemma insort_key_append_greater: "f a \<le> f y \<Longrightarrow> insort_key f a (zs @ [y]) = insort_key f a zs @ [y]"
  by (induction zs) simp_all

lemma sort_key_append_greater:
  "(\<And>x. x \<in> set xs \<Longrightarrow> f x \<le> f y) \<Longrightarrow> sort_key f (xs @ [y]) = sort_key f xs @ [y]"
  by (induction xs) (simp_all add: insort_key_append_greater)

text \<open>Of two elements of a sorted list the one with the smaller key stands first.\<close>

lemma sorted_smaller_first:
  assumes "sorted (map f zs)" and "x \<in> set zs" and "y \<in> set zs" and less: "f x < f y"
  obtains as bs cs where "zs = as @ x # bs @ y # cs"
proof -
  obtain as rest where zs: "zs = as @ x # rest" using assms(2) by (auto dest: split_list)
  have "y \<notin> set as" using assms(1) less zs by (auto simp: sorted_append)
  then have "y \<in> set rest" using assms(3) less zs by auto
  then obtain bs cs where "rest = bs @ y # cs" by (auto dest: split_list)
  with zs show ?thesis by (auto intro: that)
qed

text \<open>The checkpoint of a transaction stands at that transaction's place in the order when it carries
  no separate lot-order quantity, and not before it when its quantity does not exceed that one.\<close>

lemma checkpoint_key_eq:
  assumes "checkpoint_from_transaction t m = Inr cp"
  shows "checkpoint_order_key cp =
     (utc_us (transaction_date t), corporate_action_dependency_rank (transaction_type t),
      cash_dependency_rank t,
      case child_sequence_hint t of Some n \<Rightarrow> n | None \<Rightarrow> 2147483647,
      case target_instrument_id t of Some i \<Rightarrow> i | None \<Rightarrow> [],
      dec_neg ambient (txn_quantity t), transaction_id t)"
  using assms by (auto simp: checkpoint_from_transaction_def CostBasisProcessingCheckpoint_def rbind_eq_Inr
      checkpoint_order_key_def order_key_eq)

lemma dec_neg_antimono: "x \<le> y \<Longrightarrow> dec_neg ambient y \<le> dec_neg ambient x"
  by (auto simp: dec_neg_def ambient_def intro!: sig_round_mono)

lemma checkpoint_key:
  assumes "checkpoint_from_transaction t m = Inr cp"
    and "\<And>q. source_lot_order_quantity t = Some q \<Longrightarrow> txn_quantity t \<le> q"
  shows "transaction_order_key t \<le> checkpoint_order_key cp"
  using assms dec_neg_antimono
  by (cases "source_lot_order_quantity t") (simp_all add: checkpoint_key_eq [OF assms(1)] order_key_eq)

text \<open>The keys of two samples.\<close>

lemma plain_transaction_selectors [simp]:
  "transaction_id (plain_transaction tid type quantity gross) = tid"
  "transaction_type (plain_transaction tid type quantity gross) = type"
  "txn_quantity (plain_transaction tid type quantity gross) = quantity"
  "utc_us (transaction_date (plain_transaction tid type quantity gross)) = 0"
  "source_lot_order_quantity (plain_transaction tid type quantity gross) = None"
  by (simp_all add: plain_transaction_def utc_us_def)

lemma sample_ranks:
  "corporate_action_dependency_rank ''BUY'' = 4" "corporate_action_dependency_rank ''SPLIT'' = 5"
  by code_simp+

section \<open>Properties\<close>
text \<open>
  C27. The ledger order does not depend on how the transactions arrived: whichever of them are passed
  as existing and whichever as new, and in whatever order, one collection with distinct identities
  is sorted into one sequence, which holds exactly the given transactions.
\<close>

theorem sort_transactions_deterministic:
  assumes "mset (existing @ new) = mset (existing' @ new')"
    and "distinct (map transaction_id (existing @ new))"
  shows "sort_transactions existing new = sort_transactions existing' new' \<and>
     mset (sort_transactions existing new) = mset (existing @ new)"
  unfolding sort_transactions_def
  using sort_key_unique [OF assms(1) order_key_inj_on [OF assms(2)]] assms(1) by simp

theorem sort_transactions_deterministic_witness:
  "(let a = plain_transaction ''T1'' ''BUY'' 5 50; b = plain_transaction ''T2'' ''SPLIT'' 5 0 in
    sort_transactions [a] [b] = sort_transactions [b, a] [] \<and>
    mset (sort_transactions [a] [b]) = mset ([a] @ [b]))"
  unfolding Let_def by (rule sort_transactions_deterministic) (simp_all add: add_mset_commute)

text \<open>
  C28. Among transactions of one instant the linked legs keep their dependencies: a transaction with
  the lower dependency rank is processed first, whatever its cash rank, its quantity and its
  identity.
\<close>

theorem sort_transactions_dependencies:
  assumes "t \<in> set (existing @ new)" and "u \<in> set (existing @ new)"
    and "utc_us (transaction_date t) = utc_us (transaction_date u)"
    and "corporate_action_dependency_rank (transaction_type t) < corporate_action_dependency_rank (transaction_type u)"
  shows "\<exists>as bs cs. sort_transactions existing new = as @ t # bs @ u # cs"
proof -
  have "sorted (map transaction_order_key (sort_transactions existing new))"
    by (simp add: sort_transactions_def)
  moreover have "transaction_order_key t < transaction_order_key u" using assms(3,4) by (simp add: order_key_eq)
  ultimately show ?thesis using assms(1,2)
    by (elim sorted_smaller_first [of _ _ t u]) (auto simp: sort_transactions_def)
qed

theorem sort_transactions_dependencies_witness:
  "(let buy = plain_transaction ''T2'' ''BUY'' 5 50; split = plain_transaction ''T1'' ''SPLIT'' 9 0 in
    \<exists>as bs cs. sort_transactions [split] [buy] = as @ buy # bs @ split # cs)"
  unfolding Let_def
  using sort_transactions_dependencies [of "plain_transaction ''T2'' ''BUY'' 5 50"
      "[plain_transaction ''T1'' ''SPLIT'' 9 0]" "[plain_transaction ''T2'' ''BUY'' 5 50]"
      "plain_transaction ''T1'' ''SPLIT'' 9 0"]
  by (simp add: sample_ranks)

text \<open>
  C26. A checkpoint that permits an append is sound on one condition: when it was taken at the last
  transaction of a sorted history, and that transaction carries no separate lot-order quantity or one
  not below its quantity, a transaction the checkpoint admits sorts after the whole history, so that
  processing it alone leaves the order a full replay would use.
\<close>

theorem permits_append_sound:
  assumes "sort_transactions history [] = done @ [latest]"
    and "checkpoint_from_transaction latest m = Inr cp"
    and "\<And>q. source_lot_order_quantity latest = Some q \<Longrightarrow> txn_quantity latest \<le> q"
    and "permits_append cp t m"
  shows "sort_transactions history [t] = done @ [latest, t]"
proof -
  have sorted: "sorted (map transaction_order_key (done @ [latest]))"
    unfolding assms(1) [symmetric] sort_transactions_def by simp
  have same: "set history = set (done @ [latest])"
    unfolding assms(1) [symmetric] sort_transactions_def by simp
  have "transaction_order_key latest < transaction_order_key t"
    using assms(4) checkpoint_key [OF assms(2,3)] by (auto simp: permits_append_def)
  then have "transaction_order_key x \<le> transaction_order_key t" if "x \<in> set history" for x
    using that sorted same by (auto simp: sorted_append intro: order_trans less_imp_le)
  then show ?thesis using assms(1) by (simp add: sort_transactions_def sort_key_append_greater)
qed

theorem permits_append_sound_witness:
  "(let buy = plain_transaction ''T2'' ''BUY'' 5 50; split = plain_transaction ''T1'' ''SPLIT'' 9 0 in
    sort_transactions [buy] [split] = [buy, split])"
proof -
  let ?buy = "plain_transaction ''T2'' ''BUY'' 5 50" and ?split = "plain_transaction ''T1'' ''SPLIT'' 9 0"
  obtain cp where cp: "checkpoint_from_transaction ?buy FIFO = Inr cp"
    by (simp add: checkpoint_from_transaction_def CostBasisProcessingCheckpoint_def order_key_eq)
  have "permits_append cp ?split FIFO"
    using cp checkpoint_key_eq [OF cp]
    by (auto simp: permits_append_def order_key_eq sample_ranks checkpoint_from_transaction_def
        CostBasisProcessingCheckpoint_def plain_transaction_def)
  then show ?thesis
    using permits_append_sound [of "[?buy]" "[]" ?buy FIFO cp ?split] cp by (simp add: sort_transactions_def)
qed

text \<open>
  C36. The condition is needed, because \<open>from_transaction\<close> stores the quantity of the transaction and
  not the lot-order quantity its order key uses: the checkpoint of a purchase of 200 units whose
  lot-order quantity is 100 admits a purchase of 150 units at the same instant, which sorts before it.
\<close>

theorem permits_append_order_quantity_gap:
  "(let latest = (plain_transaction ''T1'' ''BUY'' 200 100)\<lparr>source_lot_order_quantity := Some 100\<rparr>;
        t = plain_transaction ''T2'' ''BUY'' 150 100 in
    \<exists>cp. checkpoint_from_transaction latest FIFO = Inr cp \<and> permits_append cp t FIFO \<and>
      sort_transactions [latest] [t] = [t, latest])"
proof -
  let ?latest = "(plain_transaction ''T1'' ''BUY'' 200 100)\<lparr>source_lot_order_quantity := Some 100\<rparr>"
    and ?t = "plain_transaction ''T2'' ''BUY'' 150 100"
  have neg: "dec_neg ambient (of_int m) = - of_int m" if "\<bar>m\<bar> < 10 ^ 28" for m
    unfolding dec_neg_def using sig_round_exact [of "- of_int m" "- m" 0 ambient] that by (simp add: ambient_def)
  obtain cp where cp: "checkpoint_from_transaction ?latest FIFO = Inr cp"
    by (simp add: checkpoint_from_transaction_def CostBasisProcessingCheckpoint_def order_key_eq)
  have "permits_append cp ?t FIFO"
    using cp checkpoint_key_eq [OF cp] neg [of 200] neg [of 150]
    by (auto simp: permits_append_def order_key_eq checkpoint_from_transaction_def cash_dependency_rank_def
        CostBasisProcessingCheckpoint_def plain_transaction_def)
  moreover have "transaction_order_key ?t < transaction_order_key ?latest"
    using neg [of 100] neg [of 150] by (simp add: order_key_eq plain_transaction_def cash_dependency_rank_def)
  then have "sort_transactions [?latest] [?t] = [?t, ?latest]"
    by (simp add: sort_transactions_def)
  ultimately show ?thesis using cp by (simp add: Let_def)
qed

end
