(* ===== verification/Receipt_Integrity.thy ===== *)
theory Receipt_Integrity
  imports Disposal_Allocation
begin

text \<open>
  The integrity primitives of cost-basis receipts: the rest of
  \<open>domain/cost_basis_receipt_integrity.py\<close>, over the canonical payloads.
\<close>

section \<open>Receipt hashes\<close>

definition cost_basis_allocation_content_hash :: "string \<Rightarrow> rat payload \<Rightarrow> string res" where
  "cost_basis_allocation_content_hash receipt_id payload =
     cost_basis_receipt_semantic_hash ((Some ''receipt_id'', LStr receipt_id) # payload)"

definition receipt_version_content_hash :: "string \<Rightarrow> string \<Rightarrow> int \<Rightarrow> string option \<Rightarrow> string res" where
  "receipt_version_content_hash receipt_id semantic_content_hash receipt_version previous =
     canonical_content_hash
       (LMap [(Some ''previous_receipt_content_hash'', case previous of None \<Rightarrow> LNone | Some h \<Rightarrow> LStr h),
              (Some ''receipt_id'', LStr receipt_id), (Some ''receipt_version'', LInt receipt_version),
              (Some ''semantic_content_hash'', LStr semantic_content_hash)])"

section \<open>Version chains\<close>

record receipt_header =
  hd_receipt_id :: string
  hd_receipt_version :: int
  hd_receipt_content_hash :: string
  hd_previous_receipt_content_hash :: "string option"

text \<open>The digest check applied to a missing hash: \<open>len(None)\<close> raises before the value is judged.\<close>

definition require_present_digest :: "string option \<Rightarrow> string \<Rightarrow> string res" where
  "require_present_digest value field_name =
     (case value of
        None \<Rightarrow> Inl (TypeError ''object of type 'NoneType' has no len()'')
      | Some v \<Rightarrow> require_sha256_digest v field_name)"

text \<open>The loop of the chain check. Its \<open>isinstance\<close> tests on identity, version and hash are the types
  of the header columns.\<close>

fun verify_chain_from ::
  "int \<Rightarrow> string option \<Rightarrow> string option \<Rightarrow> 'a receipt_header_scheme list \<Rightarrow> unit res" where
  "verify_chain_from expected_version expected_receipt_id previous_content_hash [] = Inr ()"
| "verify_chain_from expected_version expected_receipt_id previous_content_hash (r # receipts) =
     (let receipt_id = hd_receipt_id r in
      rbind (require (\<not> (receipt_id = [] \<or> py_strip receipt_id \<noteq> receipt_id))
               (ValueError ''receipt id must be canonical nonblank text'')) (\<lambda>_.
      rbind (require (expected_receipt_id = None \<or> expected_receipt_id = Some receipt_id)
               (ValueError ''receipt version chain contains multiple receipt identities'')) (\<lambda>_.
      rbind (require (hd_receipt_version r = expected_version)
               (ValueError ''receipt versions must be contiguous and ordered from one'')) (\<lambda>_.
      rbind (require_sha256_digest (hd_receipt_content_hash r) ''receipt_content_hash'') (\<lambda>content_hash.
      rbind (if expected_version = 1 then
               require (hd_previous_receipt_content_hash r = None)
                 (ValueError ''first receipt version cannot have a predecessor'')
             else
               rbind (require_present_digest (hd_previous_receipt_content_hash r)
                        ''previous_receipt_content_hash'') (\<lambda>_.
               require (hd_previous_receipt_content_hash r = previous_content_hash)
                 (ValueError ''receipt version chain hash does not match predecessor''))) (\<lambda>_.
      verify_chain_from (expected_version + 1) (Some receipt_id) (Some content_hash) receipts))))))"

definition verify_cost_basis_receipt_version_chain :: "'a receipt_header_scheme list \<Rightarrow> unit res" where
  "verify_cost_basis_receipt_version_chain receipts =
     rbind (require (receipts \<noteq> []) (ValueError ''receipt version chain must not be empty'')) (\<lambda>_.
     verify_chain_from 1 None None receipts)"

section \<open>Disposal lineage\<close>

definition LOT_DISPOSAL_LINEAGE_ALGORITHM_ID :: string where
  "LOT_DISPOSAL_LINEAGE_ALGORITHM_ID = ''cost-basis-lot-disposal-allocation''"

definition LOT_DISPOSAL_LINEAGE_ALGORITHM_VERSION :: int where
  "LOT_DISPOSAL_LINEAGE_ALGORITHM_VERSION = 2"

definition lot_disposal_allocation_payload ::
  "source_lot_disposal_allocation \<Rightarrow> rat payload option \<Rightarrow> rat payload" where
  "lot_disposal_allocation_payload a evidence =
     [(Some ''allocation_ordinal'', LInt (int (allocation_ordinal a))),
      (Some ''consumed_cost_base'', LDecimal (consumed_cost_base a)),
      (Some ''consumed_cost_local'', LDecimal (consumed_cost_local a)),
      (Some ''consumed_quantity'', LDecimal (consumed_quantity a)),
      (Some ''source_acquisition_date'', LDate (source_acquisition_date a)),
      (Some ''source_lot_id'', LStr (source_lot_id a)),
      (Some ''source_transaction_id'', LStr (source_transaction_id a))] @
     (case evidence of None \<Rightarrow> [] | Some payload \<Rightarrow> [(Some ''amortized_cost_evidence'', LMap payload)])"

definition source_lot_disposal_allocation_payload :: "source_lot_disposal_allocation \<Rightarrow> rat payload" where
  "source_lot_disposal_allocation_payload a =
     lot_disposal_allocation_payload a (map_option evidence_payload (amortized_cost_evidence a))"

definition disposal_lineage_input :: "rat payload list \<Rightarrow> lineage_value res" where
  "disposal_lineage_input allocation_payloads =
     canonical_cost_basis_output_payload [(Some ''allocations'', LSeq (map LMap allocation_payloads))]"

definition disposal_lineage_output :: "rat \<Rightarrow> rat \<Rightarrow> rat \<Rightarrow> lineage_value res" where
  "disposal_lineage_output cost_base cost_local quantity =
     canonical_cost_basis_output_payload
       [(Some ''consumed_cost_base'', LDecimal cost_base), (Some ''consumed_cost_local'', LDecimal cost_local),
        (Some ''consumed_quantity'', LDecimal quantity)]"

text \<open>The lineage a successful disposal result carries; its totals were checked by the constructor.\<close>

definition disposal_result_lineage :: "lot_disposal_result \<Rightarrow> calculation_lineage res" where
  "disposal_result_lineage r =
     rbind (disposal_lineage_input (map source_lot_disposal_allocation_payload (ldr_allocations r))) (\<lambda>input_payload.
     rbind (disposal_lineage_output (ldr_cost_base r) (ldr_cost_local r) (ldr_consumed_quantity r)) (\<lambda>output_payload.
     rbind (lineage_identity state_policy) (\<lambda>policy.
     build_calculation_lineage LOT_DISPOSAL_LINEAGE_ALGORITHM_ID LOT_DISPOSAL_LINEAGE_ALGORITHM_VERSION
       (cp_working_precision state_policy) input_payload output_payload (Some policy))))"

definition verify_active_lot_disposal_lineage ::
  "calculation_lineage option \<Rightarrow> rat payload list \<Rightarrow> rat \<Rightarrow> rat \<Rightarrow> rat \<Rightarrow> unit res" where
  "verify_active_lot_disposal_lineage lineage allocation_payloads cost_base cost_local quantity =
     (case lineage of
        None \<Rightarrow> Inl (ValueError ''active receipt lacks disposal lineage'')
      | Some l \<Rightarrow>
          rbind (require (algorithm_id l = LOT_DISPOSAL_LINEAGE_ALGORITHM_ID \<and>
                          algorithm_version l = LOT_DISPOSAL_LINEAGE_ALGORITHM_VERSION)
                   (ValueError ''disposal lineage algorithm identity is unsupported'')) (\<lambda>_.
          rbind (lineage_identity state_policy) (\<lambda>numeric_policy.
          rbind (require (intermediate_precision l = nop_working_precision numeric_policy \<and>
                          numeric_output_policy_of l = Some numeric_policy)
                   (ValueError ''disposal lineage numeric policy is unsupported'')) (\<lambda>_.
          rbind (rbind (disposal_lineage_input allocation_payloads) canonical_content_hash) (\<lambda>input_hash.
          rbind (require (input_content_hash l = input_hash)
                   (ValueError ''disposal lineage does not bind persisted inputs'')) (\<lambda>_.
          rbind (rbind (disposal_lineage_output cost_base cost_local quantity)
                   (calculation_lineage_binds_output l)) (\<lambda>bound.
          require bound (ValueError ''disposal lineage does not bind persisted outputs''))))))))"

section \<open>Basis-transfer lineage\<close>

definition BASIS_TRANSFER_LINEAGE_ALGORITHM_ID :: string where
  "BASIS_TRANSFER_LINEAGE_ALGORITHM_ID = ''cost-basis-lot-basis-transfer-allocation''"

definition BASIS_TRANSFER_LINEAGE_ALGORITHM_VERSION :: int where
  "BASIS_TRANSFER_LINEAGE_ALGORITHM_VERSION = 1"

definition basis_transfer_input_allocation :: "source_lot_basis_transfer_allocation \<Rightarrow> rat payload" where
  "basis_transfer_input_allocation a =
     [(Some ''allocation_ordinal'', LInt (int (bt_allocation_ordinal a))),
      (Some ''retained_quantity'', LDecimal (retained_quantity a)),
      (Some ''source_cost_base_before'', LDecimal (source_cost_base_before a)),
      (Some ''source_cost_local_before'', LDecimal (source_cost_local_before a)),
      (Some ''source_acquisition_date'', LDate (bt_source_acquisition_date a)),
      (Some ''source_lot_id'', LStr (bt_source_lot_id a)),
      (Some ''source_transaction_id'', LStr (bt_source_transaction_id a)),
      (Some ''transferred_cost_base'', LDecimal (transferred_cost_base a)),
      (Some ''transferred_cost_local'', LDecimal (transferred_cost_local a))]"

definition basis_transfer_lineage_input :: "source_lot_basis_transfer_allocation list \<Rightarrow> lineage_value res" where
  "basis_transfer_lineage_input allocations =
     canonical_cost_basis_output_payload
       [(Some ''allocations'', LSeq (map (LMap \<circ> basis_transfer_input_allocation) allocations))]"

definition basis_transfer_output_allocation :: "source_lot_basis_transfer_allocation \<Rightarrow> rat payload" where
  "basis_transfer_output_allocation a =
     [(Some ''allocation_ordinal'', LInt (int (bt_allocation_ordinal a))),
      (Some ''retained_cost_base'', LDecimal (retained_cost_base a)),
      (Some ''retained_cost_local'', LDecimal (retained_cost_local a)),
      (Some ''source_lot_id'', LStr (bt_source_lot_id a)),
      (Some ''transferred_cost_base'', LDecimal (transferred_cost_base a)),
      (Some ''transferred_cost_local'', LDecimal (transferred_cost_local a))]"

definition basis_transfer_lineage_output ::
  "source_lot_basis_transfer_allocation list \<Rightarrow> rat \<Rightarrow> rat \<Rightarrow> lineage_value res" where
  "basis_transfer_lineage_output allocations cost_base cost_local =
     canonical_cost_basis_output_payload
       [(Some ''allocations'', LSeq (map (LMap \<circ> basis_transfer_output_allocation) allocations)),
        (Some ''transferred_cost_base'', LDecimal cost_base),
        (Some ''transferred_cost_local'', LDecimal cost_local)]"

definition basis_transfer_result_lineage :: "lot_basis_transfer_result \<Rightarrow> calculation_lineage res" where
  "basis_transfer_result_lineage r =
     rbind (basis_transfer_lineage_input (lbt_allocations r)) (\<lambda>input_payload.
     rbind (basis_transfer_lineage_output (lbt_allocations r) (lbt_transferred_cost_base r)
              (lbt_transferred_cost_local r)) (\<lambda>output_payload.
     rbind (lineage_identity state_policy) (\<lambda>policy.
     build_calculation_lineage BASIS_TRANSFER_LINEAGE_ALGORITHM_ID BASIS_TRANSFER_LINEAGE_ALGORITHM_VERSION
       (cp_working_precision state_policy) input_payload output_payload (Some policy))))"

end
