(* ===== verification/Lot_Disposal_Receipt.thy ===== *)
theory Lot_Disposal_Receipt
  imports Receipt_Integrity Transaction_Ordering
begin

text \<open>
  The immutable state of one lot-disposal receipt, \<open>domain/cost_basis/lot_disposal_receipt.py\<close>, and the
  ledger that appends its versions, \<open>infrastructure/cost_basis/lot_disposal_repository.py\<close>, over two
  tables kept as lists of rows. Allocations carry no amortized-cost evidence. Unique and foreign-key
  violations of the database, which need a concurrent writer or a missing lot, are outside the model.
\<close>

section \<open>Destinations\<close>

datatype receipt_status = ACTIVE | VOIDED

datatype destination_type = INTERNAL_LOT | EXTERNAL_TRANSFER

definition status_value :: "receipt_status \<Rightarrow> string" where
  "status_value s = (case s of ACTIVE \<Rightarrow> ''ACTIVE'' | VOIDED \<Rightarrow> ''VOIDED'')"

definition destination_type_value :: "destination_type \<Rightarrow> string" where
  "destination_type_value d = (case d of INTERNAL_LOT \<Rightarrow> ''INTERNAL_LOT'' | EXTERNAL_TRANSFER \<Rightarrow> ''EXTERNAL_TRANSFER'')"

record lot_disposal_destination =
  dd_type :: destination_type
  dd_target_transaction_id :: "string option"
  dd_target_lot_id :: "string option"
  dd_target_instrument_id :: "string option"
  dd_external_destination_reference :: "string option"

definition normalize_optional_text :: "string option \<Rightarrow> string option" where
  "normalize_optional_text value =
     (case value of None \<Rightarrow> None | Some s \<Rightarrow> if py_strip s = [] then None else Some (py_strip s))"

definition LotDisposalDestination :: "lot_disposal_destination \<Rightarrow> lot_disposal_destination res" where
  "LotDisposalDestination raw =
     (let d = raw\<lparr>dd_target_transaction_id := normalize_optional_text (dd_target_transaction_id raw),
                 dd_target_lot_id := normalize_optional_text (dd_target_lot_id raw),
                 dd_target_instrument_id := normalize_optional_text (dd_target_instrument_id raw),
                 dd_external_destination_reference := normalize_optional_text (dd_external_destination_reference raw)\<rparr>
      in case dd_type d of
           INTERNAL_LOT \<Rightarrow>
             rbind (require (dd_target_transaction_id d \<noteq> None \<and> dd_target_lot_id d \<noteq> None \<and> dd_target_instrument_id d \<noteq> None)
                      (ValueError ''internal lot destination requires complete target identity'')) (\<lambda>_.
             rbind (require (dd_target_lot_id d = map_option (\<lambda>t. ''LOT-'' @ t) (dd_target_transaction_id d))
                      (ValueError ''target_lot_id must derive from target_transaction_id'')) (\<lambda>_.
             rbind (require (dd_external_destination_reference d = None)
                      (ValueError ''internal lot destination cannot carry an external reference'')) (\<lambda>_.
             Inr d)))
         | EXTERNAL_TRANSFER \<Rightarrow>
             rbind (require (dd_external_destination_reference d \<noteq> None)
                      (ValueError ''external transfer destination requires an external reference'')) (\<lambda>_.
             rbind (require (\<not> (dd_target_transaction_id d \<noteq> None \<or> dd_target_lot_id d \<noteq> None \<or> dd_target_instrument_id d \<noteq> None))
                      (ValueError ''external transfer destination cannot carry internal target identity'')) (\<lambda>_.
             Inr d)))"

definition text_or_none :: "string option \<Rightarrow> 'd payload_value" where
  "text_or_none value = (case value of None \<Rightarrow> LNone | Some s \<Rightarrow> LStr s)"

definition destination_payload :: "lot_disposal_destination \<Rightarrow> rat payload" where
  "destination_payload d =
     [(Some ''destination_type'', LStr (destination_type_value (dd_type d))),
      (Some ''external_destination_reference'', text_or_none (dd_external_destination_reference d)),
      (Some ''target_instrument_id'', text_or_none (dd_target_instrument_id d)),
      (Some ''target_lot_id'', text_or_none (dd_target_lot_id d)),
      (Some ''target_transaction_id'', text_or_none (dd_target_transaction_id d))]"

section \<open>Receipt states\<close>

record lot_disposal_receipt_state =
  rs_disposal_transaction_id :: string
  rs_portfolio_id :: string
  rs_instrument_id :: string
  rs_security_id :: string
  rs_disposal_timestamp :: py_datetime
  rs_transaction_type :: string
  rs_cost_basis_method :: cost_basis_method
  rs_calculation_policy_id :: "string option"
  rs_calculation_policy_version :: "string option"
  rs_transaction_calculation_lineage :: calculation_lineage
  rs_status :: receipt_status
  rs_consumed_quantity :: rat
  rs_consumed_cost_local :: rat
  rs_consumed_cost_base :: rat
  rs_allocations :: "source_lot_disposal_allocation list"
  rs_disposal_calculation_lineage :: "calculation_lineage option"
  rs_destination :: "lot_disposal_destination option"
  rs_void_reason :: "string option"
  rs_receipt_id :: string
  rs_semantic_content_hash :: string

definition require_nonnegative_amount :: "rat \<Rightarrow> string \<Rightarrow> unit res" where
  "require_nonnegative_amount value field_name =
     require (\<not> value < 0) (ValueError (field_name @ '' must be finite and non-negative''))"

definition ambient_sum :: "rat list \<Rightarrow> rat" where
  "ambient_sum xs = foldl (dec_add ambient) 0 xs"

definition validate_active_allocations :: "lot_disposal_receipt_state \<Rightarrow> unit res" where
  "validate_active_allocations s =
     rbind (require (map allocation_ordinal (rs_allocations s) = [1..<length (rs_allocations s) + 1])
              (ValueError ''receipt allocation ordinals must be contiguous from one'')) (\<lambda>_.
     rbind (require (distinct (map source_lot_id (rs_allocations s)))
              (ValueError ''receipt source lots must be unique'')) (\<lambda>_.
     rbind (require (ambient_sum (map consumed_quantity (rs_allocations s)) = rs_consumed_quantity s)
              (ValueError ''receipt allocation quantity does not reconcile'')) (\<lambda>_.
     rbind (require (ambient_sum (map consumed_cost_local (rs_allocations s)) = rs_consumed_cost_local s)
              (ValueError ''receipt allocation local cost does not reconcile'')) (\<lambda>_.
     require (ambient_sum (map consumed_cost_base (rs_allocations s)) = rs_consumed_cost_base s)
       (ValueError ''receipt allocation base cost does not reconcile'')))))"

definition validate_lifecycle_shape :: "lot_disposal_receipt_state \<Rightarrow> lot_disposal_receipt_state res" where
  "validate_lifecycle_shape s =
     (case rs_status s of
        ACTIVE \<Rightarrow>
          rbind (require (\<not> (rs_consumed_quantity s \<le> 0 \<or> rs_allocations s = []))
                   (ValueError ''active disposal receipt must carry positive allocations'')) (\<lambda>_.
          rbind (require (rs_disposal_calculation_lineage s \<noteq> None)
                   (ValueError ''active disposal receipt requires disposal calculation lineage'')) (\<lambda>_.
          rbind (require (rs_void_reason s = None)
                   (ValueError ''active disposal receipt cannot carry a void reason'')) (\<lambda>_.
          rbind (validate_active_allocations s) (\<lambda>_. Inr s))))
      | VOIDED \<Rightarrow>
          rbind (require (\<not> (rs_consumed_quantity s \<noteq> 0 \<or> rs_consumed_cost_local s \<noteq> 0 \<or> rs_consumed_cost_base s \<noteq> 0 \<or>
                          rs_allocations s \<noteq> []))
                   (ValueError ''voided disposal receipt cannot carry economics or allocations'')) (\<lambda>_.
          rbind (require (rs_disposal_calculation_lineage s = None)
                   (ValueError ''voided disposal receipt cannot carry disposal lineage'')) (\<lambda>_.
          (case rs_void_reason s of
             Some reason \<Rightarrow>
               if py_strip reason \<noteq> [] then Inr (s\<lparr>rs_void_reason := Some (py_strip reason)\<rparr>)
               else Inl (ValueError ''voided disposal receipt requires a nonblank reason'')
           | None \<Rightarrow> Inl (ValueError ''voided disposal receipt requires a nonblank reason'')))))"

definition identity_payload :: "lot_disposal_receipt_state \<Rightarrow> lineage_value" where
  "identity_payload s =
     LMap [(Some ''disposal_transaction_id'', LStr (rs_disposal_transaction_id s)),
           (Some ''portfolio_id'', LStr (rs_portfolio_id s)), (Some ''security_id'', LStr (rs_security_id s))]"

definition receipt_payload :: "lot_disposal_receipt_state \<Rightarrow> rat payload" where
  "receipt_payload s =
     [(Some ''allocations'', LSeq (map (\<lambda>a. LMap (source_lot_disposal_allocation_payload a)) (rs_allocations s))),
      (Some ''calculation_policy_id'', text_or_none (rs_calculation_policy_id s)),
      (Some ''calculation_policy_version'', text_or_none (rs_calculation_policy_version s)),
      (Some ''consumed_cost_base'', LDecimal (rs_consumed_cost_base s)),
      (Some ''consumed_cost_local'', LDecimal (rs_consumed_cost_local s)),
      (Some ''consumed_quantity'', LDecimal (rs_consumed_quantity s)),
      (Some ''cost_basis_method'', LStr (method_value (rs_cost_basis_method s))),
      (Some ''disposal_calculation_lineage'',
         case rs_disposal_calculation_lineage s of None \<Rightarrow> LNone | Some l \<Rightarrow> lineage_payload_of l),
      (Some ''disposal_timestamp'', LDatetime (rs_disposal_timestamp s)),
      (Some ''disposal_transaction_id'', LStr (rs_disposal_transaction_id s)),
      (Some ''instrument_id'', LStr (rs_instrument_id s)),
      (Some ''portfolio_id'', LStr (rs_portfolio_id s)),
      (Some ''security_id'', LStr (rs_security_id s)),
      (Some ''status'', LStr (status_value (rs_status s))),
      (Some ''transaction_calculation_lineage'', lineage_payload_of (rs_transaction_calculation_lineage s)),
      (Some ''transaction_type'', LStr (rs_transaction_type s)),
      (Some ''void_reason'', text_or_none (rs_void_reason s))] @
     (case rs_destination s of None \<Rightarrow> [] | Some d \<Rightarrow> [(Some ''destination'', LMap (destination_payload d))])"

definition semantic_payload :: "lot_disposal_receipt_state \<Rightarrow> lineage_value res" where
  "semantic_payload s = canonical_cost_basis_output_payload (receipt_payload s)"

text \<open>The constructor; the last two fields of the argument are ignored.\<close>

definition LotDisposalReceiptState :: "lot_disposal_receipt_state \<Rightarrow> lot_disposal_receipt_state res" where
  "LotDisposalReceiptState raw =
     rbind (nonblank_stripped ''disposal_transaction_id'' (rs_disposal_transaction_id raw)) (\<lambda>tid.
     rbind (nonblank_stripped ''portfolio_id'' (rs_portfolio_id raw)) (\<lambda>portfolio.
     rbind (nonblank_stripped ''instrument_id'' (rs_instrument_id raw)) (\<lambda>instrument.
     rbind (nonblank_stripped ''security_id'' (rs_security_id raw)) (\<lambda>security.
     rbind (nonblank_stripped ''transaction_type'' (rs_transaction_type raw)) (\<lambda>type.
     rbind (require (utc_offset (rs_disposal_timestamp raw) \<noteq> None)
              (ValueError ''disposal_timestamp must be timezone-aware'')) (\<lambda>_.
     let s = raw\<lparr>rs_disposal_transaction_id := tid, rs_portfolio_id := portfolio, rs_instrument_id := instrument,
                 rs_security_id := security, rs_transaction_type := type,
                 rs_calculation_policy_id := normalize_optional_text (rs_calculation_policy_id raw),
                 rs_calculation_policy_version := normalize_optional_text (rs_calculation_policy_version raw)\<rparr> in
     rbind (require ((rs_calculation_policy_id s = None) = (rs_calculation_policy_version s = None))
              (ValueError ''calculation policy ID and version must be supplied together'')) (\<lambda>_.
     rbind (require_nonnegative_amount (rs_consumed_quantity s) ''consumed_quantity'') (\<lambda>_.
     rbind (require_nonnegative_amount (rs_consumed_cost_local s) ''consumed_cost_local'') (\<lambda>_.
     rbind (require_nonnegative_amount (rs_consumed_cost_base s) ''consumed_cost_base'') (\<lambda>_.
     rbind (validate_lifecycle_shape s) (\<lambda>s.
     rbind (canonical_content_hash (identity_payload s)) (\<lambda>identity_hash.
     let s = s\<lparr>rs_receipt_id := ''lot-disposal:'' @ identity_hash\<rparr> in
     rbind (rbind (semantic_payload s) canonical_content_hash) (\<lambda>semantic_hash.
     Inr (s\<lparr>rs_semantic_content_hash := semantic_hash\<rparr>))))))))))))))"

end
