(* ===== verification/Lineage_Properties.thy ===== *)
theory Lineage_Properties
  imports Calculation_Lineage
begin

text \<open>
  What the digests of a lineage show: the canonical text of a payload determines it up to the order
  of its keys, a built lineage binds its output, persisted lineage rehydrates unchanged, and the
  output digest pins down everything that entered it unless two of the hashed texts collide.
\<close>

section \<open>Digests\<close>

lemma sha256_is_digest [simp]: "require_sha256_digest (sha256 text) field_name = Inr (sha256 text)"
  using sha256_hex [of _ "text"] by (auto simp: require_sha256_digest_def sha256_length list_ex_iff hex_chars_def)

lemma canonical_content_hash_digest:
  "canonical_content_hash p = Inr h \<Longrightarrow> require_sha256_digest h f = Inr h"
  by (auto simp: canonical_content_hash_def rbind_eq_Inr)

section \<open>Payloads up to key order\<close>

definition same_content :: "lineage_value \<Rightarrow> lineage_value \<Rightarrow> bool" where
  "same_content p q \<longleftrightarrow>
     (case (normalize_lineage_value p, normalize_lineage_value q) of
        (Inr v, Inr w) \<Rightarrow> sort_keys v = sort_keys w | _ \<Rightarrow> False)"

lemma same_contentI:
  "normalize_lineage_value p = Inr v \<Longrightarrow> normalize_lineage_value q = Inr w \<Longrightarrow> sort_keys v = sort_keys w \<Longrightarrow> same_content p q"
  by (simp add: same_content_def)

lemma canonical_text_same:
  assumes "canonical_text p = Inr a" and "canonical_text q = Inr b"
  shows "a = b \<longleftrightarrow> same_content p q"
  using assms by (auto simp: canonical_text_def rbind_eq_Inr same_content_def json_dumps_eq)

text \<open>Sorting the keys of an object forgets only their order.\<close>

lemma sort_keys_members:
  assumes "sort_keys (JObj a) = sort_keys (JObj b)"
  shows "set (map (\<lambda>(k, v). (k, sort_keys v)) a) = set (map (\<lambda>(k, v). (k, sort_keys v)) b)"
proof -
  have "mset (sort_key fst (map (\<lambda>(k, v). (k, sort_keys v)) a)) = mset (sort_key fst (map (\<lambda>(k, v). (k, sort_keys v)) b))"
    using assms by simp
  then show ?thesis by (metis mset_sort set_mset_mset)
qed

lemma sort_keys_lookup:
  assumes same: "sort_keys (JObj a) = sort_keys (JObj b)"
    and "distinct (map fst a)" and "distinct (map fst b)"
  shows "map_option sort_keys (map_of a k) = map_option sort_keys (map_of b k)"
proof -
  let ?f = "\<lambda>(k, v). (k, sort_keys v)"
  have keys: "map fst (map ?f xs) = map fst xs" for xs :: "(string \<times> json) list" by (induction xs) auto
  have "distinct (map fst (map ?f a))" "distinct (map fst (map ?f b))" unfolding keys using assms(2,3) by simp_all
  then have "map_of (map ?f a) = map_of (map ?f b)"
    using map_of_inject_set sort_keys_members [OF same] by blast
  moreover have "map_of (map ?f xs) k = map_option sort_keys (map_of xs k)" for xs :: "(string \<times> json) list"
    by (induction xs) auto
  ultimately show ?thesis by metis
qed

text \<open>The payloads of the modelled records, normalised.\<close>

definition policy_json :: "numeric_output_policy \<Rightarrow> json" where
  "policy_json p =
     JObj [(''name'', JStr (nop_name p)), (''precision'', JInt (nop_precision p)),
           (''rounding'', JStr (nop_rounding p)), (''scale'', JInt (nop_scale p)),
           (''version'', JStr (nop_version p)), (''working_precision'', JInt (nop_working_precision p))]"

definition calculation_members :: "string \<Rightarrow> int \<Rightarrow> string \<Rightarrow> int \<Rightarrow> numeric_output_policy option \<Rightarrow> (string \<times> json) list" where
  "calculation_members algorithm version input_hash precision policy =
     [(''algorithm_id'', JStr algorithm), (''algorithm_version'', JInt version),
      (''input_content_hash'', JStr input_hash), (''intermediate_precision'', JInt precision)] @
     (case policy of None \<Rightarrow> [] | Some p \<Rightarrow> [(''numeric_output_policy'', policy_json p)])"

lemma normalize_calculation_payload:
  "normalize_lineage_value (calculation_payload a v h p policy) = Inr (JObj (calculation_members a v h p policy))"
  by (cases policy) (simp_all add: calculation_payload_def calculation_members_def policy_member_def policy_json_def
      numeric_policy_payload_def require_mapping_key_def)

lemma normalize_output_envelope:
  "normalize_lineage_value (output_envelope h out) =
     rbind (normalize_lineage_value out) (\<lambda>v. Inr (JObj [(''calculation_content_hash'', JStr h), (''output'', v)]))"
  by (cases "normalize_lineage_value out") (simp_all add: output_envelope_def require_mapping_key_def)

lemma sort_keys_policy_inj:
  fixes p q :: numeric_output_policy
  assumes "sort_keys (policy_json p) = sort_keys (policy_json q)"
  shows "p = q"
proof -
  note lookup = sort_keys_lookup [OF assms [unfolded policy_json_def]]
  show ?thesis
    using lookup [of "''name''"] lookup [of "''version''"] lookup [of "''precision''"] lookup [of "''scale''"]
      lookup [of "''working_precision''"] lookup [of "''rounding''"]
    by (simp add: policy_json_def)
qed

lemma same_calculation_payload:
  assumes "same_content (calculation_payload a v h p policy) (calculation_payload a' v' h' p' policy')"
  shows "a = a' \<and> v = v' \<and> h = h' \<and> p = p' \<and> policy = policy'"
proof -
  have same: "sort_keys (JObj (calculation_members a v h p policy)) = sort_keys (JObj (calculation_members a' v' h' p' policy'))"
    using assms by (simp add: same_content_def normalize_calculation_payload del: sort_keys.simps)
  have distinct: "distinct (map fst (calculation_members a v h p policy))" for a v h p policy
    by (cases policy) (simp_all add: calculation_members_def)
  note lookup = sort_keys_lookup [OF same distinct distinct]
  have "map_option sort_keys (map_option policy_json policy) = map_option sort_keys (map_option policy_json policy')"
    using lookup [of "''numeric_output_policy''"]
    by (cases policy; cases policy') (simp_all add: calculation_members_def del: sort_keys.simps)
  then have "policy = policy'" by (cases policy; cases policy') (auto dest: sort_keys_policy_inj simp del: sort_keys.simps)
  then show ?thesis
    using lookup [of "''algorithm_id''"] lookup [of "''algorithm_version''"] lookup [of "''input_content_hash''"]
      lookup [of "''intermediate_precision''"] by (simp add: calculation_members_def)
qed

lemma same_output_envelope:
  assumes "same_content (output_envelope h out) (output_envelope h' out')"
  shows "h = h' \<and> same_content out out'"
proof -
  obtain v w where v: "normalize_lineage_value out = Inr v" "normalize_lineage_value out' = Inr w"
    and same: "sort_keys (JObj [(''calculation_content_hash'', JStr h), (''output'', v)]) =
      sort_keys (JObj [(''calculation_content_hash'', JStr h'), (''output'', w)])"
    using assms by (cases "normalize_lineage_value out"; cases "normalize_lineage_value out'")
      (simp_all add: same_content_def normalize_output_envelope del: sort_keys.simps)
  note lookup = sort_keys_lookup [OF same]
  show ?thesis using lookup [of "''calculation_content_hash''"] lookup [of "''output''"] v
    by (simp add: same_content_def)
qed

section \<open>Stripped fields\<close>

lemma lstrip_head: "py_lstrip s \<noteq> [] \<Longrightarrow> \<not> is_py_space (hd (py_lstrip s))"
  unfolding py_lstrip_def by (rule hd_dropWhile)

lemma py_strip_idem [simp]: "py_strip (py_strip s) = py_strip s"
proof -
  let ?t = "py_lstrip (rev (py_lstrip s))"
  have t: "dropWhile is_py_space ?t = ?t" by (simp add: py_lstrip_def dropWhile_idem)
  have "dropWhile is_py_space (rev ?t) = rev ?t"
  proof (cases "?t = []")
    case False
    then obtain c where last: "rev ?t = c # rev (butlast ?t)" "c = last ?t"
      by (metis append_butlast_last_id rev.simps(2) rev_rev_ident)
    have "last ?t = last (rev (py_lstrip s))"
      using False unfolding py_lstrip_def by (metis last_appendR takeWhile_dropWhile_id)
    moreover have "py_lstrip s \<noteq> []" using False unfolding py_lstrip_def by (metis dropWhile.simps(1) rev.simps(1))
    ultimately have "\<not> is_py_space c" using last lstrip_head [of s] by (simp add: last_rev)
    then have "dropWhile is_py_space (c # rev (butlast ?t)) = c # rev (butlast ?t)" by simp
    then show ?thesis by (simp only: last(1))
  qed simp
  then show ?thesis using t by (simp add: py_strip_def py_lstrip_def)
qed

lemma NumericOutputPolicyLineage_idem:
  assumes "NumericOutputPolicyLineage p = Inr q"
  shows "NumericOutputPolicyLineage q = Inr q"
  using assms unfolding NumericOutputPolicyLineage_def nonblank_stripped_def
  by (elim rbind_InrE) (clarsimp simp: rbind_eq_Inr)

section \<open>Properties\<close>

lemma build_InrE:
  assumes "build_calculation_lineage algorithm version precision input out policy = Inr l"
  obtains h c r where "canonical_content_hash input = Inr h"
    and "canonical_content_hash (calculation_payload (py_strip algorithm) version h precision policy) = Inr c"
    and "canonical_content_hash (output_envelope c out) = Inr r"
    and "l = \<lparr>algorithm_id = py_strip algorithm, algorithm_version = version, intermediate_precision = precision,
         input_content_hash = h, calculation_content_hash = c, output_content_hash = r, numeric_output_policy_of = policy\<rparr>"
    and "CalculationLineage l = Inr l"
  using assms unfolding build_calculation_lineage_def Let_def CalculationLineage_def
  by (elim rbind_InrE) (clarsimp simp: rbind_eq_Inr)

text \<open>
  C37. A lineage that was built binds the output it was built for: the verification recomputes both
  digests and accepts.
\<close>

theorem build_binds_output:
  assumes "build_calculation_lineage algorithm version precision input out policy = Inr l"
  shows "calculation_lineage_binds_output l out = Inr True"
  using assms by (elim build_InrE) (simp add: calculation_lineage_binds_output_def)

text \<open>A small calculation.\<close>

definition sample_input :: lineage_value where
  "sample_input = LMap [(Some ''quantity'', LInt 5), (Some ''security_id'', LStr ''S'')]"

definition sample_output :: lineage_value where
  "sample_output = LMap [(Some ''cost'', LDecimal (PyFinite False [1, 2, 5] (-1)))]"

lemma sample_builds: "\<exists>l. build_calculation_lineage '' fifo '' 1 64 sample_input sample_output None = Inr l"
proof -
  have "py_strip '' fifo '' = ''fifo''" "py_strip ''fifo'' = ''fifo''" by code_simp+
  moreover have "normalize_lineage_value sample_input = Inr (JObj [(''quantity'', JInt 5), (''security_id'', JStr ''S'')])"
    by (simp add: sample_input_def require_mapping_key_def)
  moreover have "\<exists>v. normalize_lineage_value sample_output = Inr v"
    by (simp add: sample_output_def require_mapping_key_def normalize_decimal_value_def)
  ultimately show ?thesis
    by (auto simp: build_calculation_lineage_def Let_def canonical_content_hash_def canonical_text_def
        normalize_calculation_payload normalize_output_envelope CalculationLineage_def)
qed

theorem build_binds_output_witness:
  "\<exists>l. build_calculation_lineage '' fifo '' 1 64 sample_input sample_output None = Inr l \<and>
     calculation_lineage_binds_output l sample_output = Inr True"
  using sample_builds build_binds_output by blast

definition collides :: "lineage_value \<Rightarrow> lineage_value \<Rightarrow> bool" where
  "collides p q \<longleftrightarrow>
     (case (canonical_text p, canonical_text q) of
        (Inr a, Inr b) \<Rightarrow> a \<noteq> b \<and> sha256 a = sha256 b | _ \<Rightarrow> False)"

lemma equal_hashes_same_content:
  assumes "canonical_content_hash p = Inr h" and "canonical_content_hash q = Inr h" and "\<not> collides p q"
  shows "same_content p q"
  using assms canonical_text_same [of p _ q] by (auto simp: canonical_content_hash_def rbind_eq_Inr collides_def)

text \<open>
  C31. The output digest pins down the whole calculation. When two built lineages carry the same
  output digest, and none of the three pairs of texts that were hashed for them is a SHA-256
  collision, then algorithm, version, precision and numeric policy are equal and inputs and outputs
  have the same content.
\<close>

theorem output_digest_binds_calculation:
  assumes "build_calculation_lineage algorithm version precision input out policy = Inr l"
    and "build_calculation_lineage algorithm' version' precision' input' out' policy' = Inr l'"
    and "output_content_hash l = output_content_hash l'"
    and "\<not> collides input input'"
    and "\<not> collides (calculation_payload (algorithm_id l) version (input_content_hash l) precision policy)
           (calculation_payload (algorithm_id l') version' (input_content_hash l') precision' policy')"
    and "\<not> collides (output_envelope (calculation_content_hash l) out) (output_envelope (calculation_content_hash l') out')"
  shows "py_strip algorithm = py_strip algorithm' \<and> version = version' \<and> precision = precision' \<and>
     policy = policy' \<and> same_content input input' \<and> same_content out out'"
proof -
  obtain h c r where l: "canonical_content_hash input = Inr h"
    "canonical_content_hash (calculation_payload (py_strip algorithm) version h precision policy) = Inr c"
    "canonical_content_hash (output_envelope c out) = Inr r"
    "algorithm_id l = py_strip algorithm" "input_content_hash l = h" "calculation_content_hash l = c" "output_content_hash l = r"
    using assms(1) by (elim build_InrE) simp
  obtain h' c' r' where l': "canonical_content_hash input' = Inr h'"
    "canonical_content_hash (calculation_payload (py_strip algorithm') version' h' precision' policy') = Inr c'"
    "canonical_content_hash (output_envelope c' out') = Inr r'"
    "algorithm_id l' = py_strip algorithm'" "input_content_hash l' = h'" "calculation_content_hash l' = c'" "output_content_hash l' = r'"
    using assms(2) by (elim build_InrE) simp
  have "r = r'" using assms(3) l l' by simp
  then have out: "c = c'" "same_content out out'"
    using equal_hashes_same_content [OF l(3)] l'(3) assms(6) l l' same_output_envelope by metis+
  then have calc: "py_strip algorithm = py_strip algorithm' \<and> version = version' \<and> h = h' \<and> precision = precision' \<and> policy = policy'"
    using equal_hashes_same_content [OF l(2)] l'(2) assms(5) l l' same_calculation_payload by metis
  then have "same_content input input'" using equal_hashes_same_content [OF l(1)] l'(1) assms(4) by simp
  with out calc show ?thesis by simp
qed

theorem output_digest_binds_calculation_witness:
  "\<exists>l. build_calculation_lineage '' fifo '' 1 64 sample_input sample_output None = Inr l \<and>
     py_strip '' fifo '' = py_strip ''fifo'' \<and> same_content sample_input sample_input"
proof -
  have strip: "py_strip '' fifo '' = ''fifo''" "py_strip ''fifo'' = ''fifo''" by code_simp+
  obtain l where l: "build_calculation_lineage '' fifo '' 1 64 sample_input sample_output None = Inr l"
    using sample_builds by blast
  then have l': "build_calculation_lineage ''fifo'' 1 64 sample_input sample_output None = Inr l"
    by (simp add: build_calculation_lineage_def strip)
  have "\<not> collides p p" for p by (simp add: collides_def split: sum.splits)
  then show ?thesis using output_digest_binds_calculation [OF l l'] l by simp
qed

lemma payload_rehydrates:
  assumes l: "CalculationLineage l = Inr l"
    and policy: "pred_option (\<lambda>p. NumericOutputPolicyLineage p = Inr p) (numeric_output_policy_of l)"
  shows "calculation_lineage_from_payload (lineage_payload_of l) = Inr (Some l)"
proof -
  have "numeric_policy_from_payload (numeric_policy_payload p) = Inr (Some p)" if "NumericOutputPolicyLineage p = Inr p" for p
    using that by (cases p) (simp add: numeric_policy_from_payload_def numeric_policy_payload_def required_payload_string_def
        required_payload_int_def payload_get_def)
  then have "numeric_policy_from_payload (payload_get (policy_member (numeric_output_policy_of l)) ''numeric_output_policy'') =
      Inr (numeric_output_policy_of l)"
    using policy by (auto simp: policy_member_def payload_get_def numeric_policy_from_payload_def split: option.splits)
  then show ?thesis using l
    by (cases l) (simp add: calculation_lineage_from_payload_def lineage_payload_of_def required_payload_string_def
        required_payload_int_def payload_get_def)
qed

text \<open>
  C38. Persisted lineage rehydrates unchanged: for every constructed lineage whose numeric policy, if
  any, was constructed too, reading back its payload gives the lineage itself.
\<close>

theorem lineage_payload_roundtrip:
  assumes "CalculationLineage raw = Inr l"
    and "case numeric_output_policy_of l of None \<Rightarrow> True | Some p \<Rightarrow> \<exists>q. NumericOutputPolicyLineage q = Inr p"
  shows "calculation_lineage_from_payload (lineage_payload_of l) = Inr (Some l)"
proof (rule payload_rehydrates)
  show "CalculationLineage l = Inr l" using assms(1) unfolding CalculationLineage_def
    by (elim rbind_InrE) (clarsimp simp: rbind_eq_Inr)
  show "pred_option (\<lambda>p. NumericOutputPolicyLineage p = Inr p) (numeric_output_policy_of l)"
    using assms(2) NumericOutputPolicyLineage_idem by (auto split: option.splits)
qed

definition sample_lineage :: calculation_lineage where
  "sample_lineage =
     \<lparr>algorithm_id = ''fifo'', algorithm_version = 1, intermediate_precision = 64,
      input_content_hash = replicate 64 (CHR ''a''), calculation_content_hash = replicate 64 (CHR ''0''),
      output_content_hash = replicate 64 (CHR ''9''),
      numeric_output_policy_of = Some \<lparr>nop_name = ''ledger'', nop_version = ''1.0.0'', nop_precision = 18,
        nop_scale = 10, nop_working_precision = 64, nop_rounding = ''ROUND_HALF_EVEN''\<rparr>\<rparr>"

theorem lineage_payload_roundtrip_witness:
  "calculation_lineage_from_payload (lineage_payload_of sample_lineage) = Inr (Some sample_lineage)"
proof (rule lineage_payload_roundtrip)
  show "CalculationLineage sample_lineage = Inr sample_lineage" by code_simp
  have "NumericOutputPolicyLineage \<lparr>nop_name = ''ledger'', nop_version = ''1.0.0'', nop_precision = 18,
      nop_scale = 10, nop_working_precision = 64, nop_rounding = ''ROUND_HALF_EVEN''\<rparr> =
    Inr \<lparr>nop_name = ''ledger'', nop_version = ''1.0.0'', nop_precision = 18,
      nop_scale = 10, nop_working_precision = 64, nop_rounding = ''ROUND_HALF_EVEN''\<rparr>" by code_simp
  then show "case numeric_output_policy_of sample_lineage of None \<Rightarrow> True
      | Some p \<Rightarrow> \<exists>q. NumericOutputPolicyLineage q = Inr p"
    by (auto simp: sample_lineage_def)
qed

end
