(* ===== verification/Amount_Text.thy ===== *)
theory Amount_Text
  imports Receipt_Integrity Lineage_Properties
begin

text \<open>
  The text of an amount written at the ledger scale determines the amount: the digits are read back
  from \<open>str(Decimal)\<close> in each of its notations. Lineage hashes of amounts are hashes of these texts.
\<close>

section \<open>The text of a canonical amount\<close>

definition wf_digits :: "nat list \<Rightarrow> bool" where
  "wf_digits ds \<longleftrightarrow> (\<forall>d \<in> set ds. d < 10) \<and> (ds = [0] \<or> (ds \<noteq> [] \<and> hd ds \<noteq> 0))"

lemma int_digits_not_Nil [simp]: "int_digits i \<noteq> []"
  by (subst int_digits.simps) simp

lemma int_digits_wf: "0 \<le> i \<Longrightarrow> wf_digits (int_digits i)"
proof (induction i rule: int_digits.induct)
  case (1 i)
  show ?case
  proof (cases "i < 10")
    case True
    then have "int_digits i = [nat i]" by (simp add: int_digits.simps [of i])
    then show ?thesis using 1(2) True by (simp add: wf_digits_def)
  next
    case False
    then have "wf_digits (int_digits (i div 10))" "i div 10 \<noteq> 0" using 1 by (auto simp: zdiv_eq_0_iff)
    moreover have "int_digits (i div 10) \<noteq> [0]"
    proof
      assume "int_digits (i div 10) = [0]"
      then have "i div 10 < 10" "nat (i div 10) = 0" by (subst (asm) int_digits.simps, auto split: if_splits)+
      then show False using False by auto
    qed
    ultimately show ?thesis using False by (auto simp: wf_digits_def int_digits.simps [of i])
  qed
qed

lemma digits_value_int_digits: "0 \<le> i \<Longrightarrow> int (digits_value (int_digits i)) = i"
proof (induction i rule: int_digits.induct)
  case (1 i)
  then show ?case by (cases "i < 10") (simp_all add: int_digits.simps [of i])
qed

lemma int_digits_inj: "0 \<le> i \<Longrightarrow> 0 \<le> j \<Longrightarrow> int_digits i = int_digits j \<Longrightarrow> i = j"
  using digits_value_int_digits by metis

lemma quantized_decimal_inj:
  assumes "on_scale 10 x" and "on_scale 10 y" and "quantized_decimal x = quantized_decimal y"
  shows "x = y"
proof -
  have "\<lfloor>\<bar>x\<bar> * 10 ^ 10\<rfloor> = \<lfloor>\<bar>y\<bar> * 10 ^ 10\<rfloor>" and sign: "(x < 0) = (y < 0)"
    using assms(3) by (auto simp: quantized_decimal_def intro: int_digits_inj)
  moreover have "on_scale 10 \<bar>z\<bar>" if "on_scale 10 z" for z using that by (simp add: abs_if)
  ultimately have "\<bar>x\<bar> * 10 ^ 10 = \<bar>y\<bar> * 10 ^ 10" using assms(1,2) by (metis nat_numeral on_scale_def)
  then show ?thesis using sign by (simp add: abs_if split: if_splits)
qed

text \<open>The digits of a decimal text: up to the exponent, without leading zeros.\<close>

definition text_core :: "string \<Rightarrow> string" where
  "text_core s = dropWhile (\<lambda>c. c = CHR ''0'') (filter is_digit (takeWhile (\<lambda>c. c \<noteq> CHR ''E'') s))"

definition digit_text :: "nat list \<Rightarrow> string" where
  "digit_text ds = map (\<lambda>d. char_of (48 + d)) ds"

lemma digit_char:
  fixes d :: nat
  assumes "d < 10"
  shows "is_digit (char_of (48 + d))" "char_of (48 + d) \<noteq> CHR ''E''" "char_of (48 + d) = CHR ''0'' \<longleftrightarrow> d = 0"
proof -
  from assms have "d \<in> set [0..<10]" by simp
  moreover have "\<forall>d \<in> set [0..<10]. is_digit (char_of (48 + d)) \<and> char_of (48 + d) \<noteq> CHR ''E'' \<and> (char_of (48 + d) = CHR ''0'' \<longleftrightarrow> d = 0)"
    by code_simp
  ultimately show "is_digit (char_of (48 + d))" "char_of (48 + d) \<noteq> CHR ''E''" "char_of (48 + d) = CHR ''0'' \<longleftrightarrow> d = 0"
    by blast+
qed

lemma digit_text_inj:
  assumes "\<forall>d \<in> set ds. d < 10" and "\<forall>d \<in> set es. d < 10" and "digit_text ds = digit_text es"
  shows "ds = es"
proof -
  have "of_char (char_of (48 + d)) = 48 + d" if "d < 10" for d :: nat using that by simp
  then have "inj_on (\<lambda>d. char_of (48 + d :: nat)) {d. d < 10}" by (intro inj_onI) (metis add_left_cancel mem_Collect_eq)
  then show ?thesis using assms unfolding digit_text_def
    by (intro map_inj_on [of "\<lambda>d. char_of (48 + d)"]) (auto elim: inj_on_subset)
qed

lemma core_zeros [simp]:
  "text_core (CHR ''0'' # s) = text_core s" "text_core (CHR ''.'' # s) = text_core s"
  by (simp_all add: text_core_def is_digit_def)

lemma core_replicate_zeros [simp]: "text_core (replicate n (CHR ''0'') @ s) = text_core s"
  by (induction n) simp_all

lemma core_digits_E:
  assumes "\<forall>d \<in> set ds. d < 10"
  shows "takeWhile (\<lambda>c. c \<noteq> CHR ''E'') (digit_text ds @ s) = digit_text ds @ takeWhile (\<lambda>c. c \<noteq> CHR ''E'') s"
    and "filter is_digit (digit_text ds) = digit_text ds"
  using assms by (induction ds) (auto simp: digit_text_def digit_char)

lemma core_of_split:
  assumes "wf_digits ds" and "takeWhile (\<lambda>c. c \<noteq> CHR ''E'') s = []" and "ds = as @ bs"
  shows "text_core (digit_text as @ CHR ''.'' # digit_text bs @ s) = dropWhile (\<lambda>c. c = CHR ''0'') (digit_text ds)"
    and "text_core (digit_text ds @ s) = dropWhile (\<lambda>c. c = CHR ''0'') (digit_text ds)"
proof -
  have small: "\<forall>d \<in> set as. d < 10" "\<forall>d \<in> set bs. d < 10" "\<forall>d \<in> set ds. d < 10"
    using assms by (auto simp: wf_digits_def)
  show "text_core (digit_text as @ CHR ''.'' # digit_text bs @ s) = dropWhile (\<lambda>c. c = CHR ''0'') (digit_text ds)"
    using small assms unfolding text_core_def
    by (simp add: core_digits_E is_digit_def [of "CHR ''.''"]) (simp add: digit_text_def)
  show "text_core (digit_text ds @ s) = dropWhile (\<lambda>c. c = CHR ''0'') (digit_text ds)"
    using small assms unfolding text_core_def by (simp add: core_digits_E)
qed

lemma decimal_str_unsigned:
  assumes wf: "wf_digits ds" and "e \<le> 0"
  shows "\<exists>c cs. decimal_str False ds e = c # cs \<and> is_digit c"
    and "text_core (decimal_str False ds e) = dropWhile (\<lambda>c. c = CHR ''0'') (digit_text ds)"
    and "decimal_str True ds e = CHR ''-'' # decimal_str False ds e"
proof -
  have len: "0 < length ds" using wf by (auto simp: wf_digits_def)
  define left where "left = e + int (length ds)"
  define dot where "dot = (if -6 < left then left else 1)"
  define exp where "exp = (if left = dot then [] else ''E'' @ (if left < dot then [] else ''+'') @ show_int (left - dot))"
  have E: "takeWhile (\<lambda>c. c \<noteq> CHR ''E'') exp = []" by (simp add: exp_def)
  have head: "\<exists>c cs. digit_text ds @ s = c # cs \<and> is_digit c" for s
    using wf by (cases ds) (auto simp: wf_digits_def digit_text_def digit_char)
  have split: "digit_text ds = digit_text (take (nat dot) ds) @ digit_text (drop (nat dot) ds)"
    by (simp add: digit_text_def flip: map_append)
  have dot: "dot \<le> int (length ds)" using len \<open>e \<le> 0\<close> unfolding dot_def left_def by (cases ds) auto
  show "decimal_str True ds e = CHR ''-'' # decimal_str False ds e" by (simp add: decimal_str_def Let_def)
  have str: "decimal_str False ds e =
      (if dot \<le> 0 then ''0'' else if int (length ds) \<le> dot
       then digit_text ds @ replicate (nat (dot - int (length ds))) (CHR ''0'') else take (nat dot) (digit_text ds)) @
      (if dot \<le> 0 then ''.'' @ replicate (nat (- dot)) (CHR ''0'') @ digit_text ds
       else if int (length ds) \<le> dot then [] else ''.'' @ drop (nat dot) (digit_text ds)) @ exp"
    unfolding decimal_str_def Let_def exp_def dot_def left_def digit_text_def using \<open>e \<le> 0\<close>
    by (simp only: simp_thms if_True if_False append_Nil)
  consider (small) "dot \<le> 0" | (whole) "dot = int (length ds)" "0 < dot" | (part) "0 < dot" "dot < int (length ds)"
    using dot by linarith
  then have "(\<exists>c cs. decimal_str False ds e = c # cs \<and> is_digit c) \<and>
    text_core (decimal_str False ds e) = dropWhile (\<lambda>c. c = CHR ''0'') (digit_text ds)"
  proof cases
    case small
    then have "decimal_str False ds e = ''0.'' @ replicate (nat (- dot)) (CHR ''0'') @ digit_text ds @ exp"
      by (simp add: str)
    then show ?thesis using core_of_split(2) [OF wf E, of ds "[]"] by (simp add: is_digit_def)
  next
    case whole
    then have "decimal_str False ds e = digit_text ds @ exp"
      by (simp add: str)
    then show ?thesis using core_of_split(2) [OF wf E, of ds "[]"] head by simp
  next
    case part
    then have "decimal_str False ds e = digit_text (take (nat dot) ds) @ CHR ''.'' # digit_text (drop (nat dot) ds) @ exp"
      by (simp add: str digit_text_def take_map drop_map)
    moreover have "\<exists>c cs. digit_text (take (nat dot) ds) @ s = c # cs \<and> is_digit c" for s
      using wf part len by (cases ds; cases "nat dot") (auto simp: wf_digits_def digit_text_def digit_char)
    ultimately show ?thesis using core_of_split(1) [OF wf E, of "take (nat dot) ds" "drop (nat dot) ds"] by simp
  qed
  then show "\<exists>c cs. decimal_str False ds e = c # cs \<and> is_digit c"
    and "text_core (decimal_str False ds e) = dropWhile (\<lambda>c. c = CHR ''0'') (digit_text ds)" by blast+
qed

lemma core_digits_inj:
  assumes "wf_digits ds" and "wf_digits es"
    and "dropWhile (\<lambda>c. c = CHR ''0'') (digit_text ds) = dropWhile (\<lambda>c. c = CHR ''0'') (digit_text es)"
  shows "ds = es"
proof -
  have core: "dropWhile (\<lambda>c. c = CHR ''0'') (digit_text fs) = (if fs = [0] then [] else digit_text fs)" if "wf_digits fs" for fs
  proof (cases fs)
    case (Cons d fs')
    then show ?thesis using that digit_char(3) [of d] by (cases "d = 0") (auto simp: wf_digits_def digit_text_def)
  qed (use that in \<open>simp add: wf_digits_def\<close>)
  have not_Nil: "digit_text fs \<noteq> []" if "wf_digits fs" for fs using that by (auto simp: wf_digits_def digit_text_def)
  have "(ds = [0]) = (es = [0])"
    using assms(3) unfolding core [OF assms(1)] core [OF assms(2)] using not_Nil assms(1,2) by metis
  then show ?thesis using assms(3) digit_text_inj [of ds es] assms(1,2)
    unfolding core [OF assms(1)] core [OF assms(2)] wf_digits_def by (cases "es = [0]") simp_all
qed

lemma decimal_str_inj:
  assumes "wf_digits ds" and "wf_digits es" and "e \<le> 0" and "decimal_str a ds e = decimal_str b es e"
  shows "a = b \<and> ds = es"
proof -
  note ds = decimal_str_unsigned [OF assms(1,3)] and es = decimal_str_unsigned [OF assms(2,3)]
  have minus: "\<not> is_digit (CHR ''-'')" by (simp add: is_digit_def)
  have "a = b" using assms(4) ds(1,3) es(1,3) minus by (cases a; cases b) auto
  moreover have "text_core (CHR ''-'' # s) = text_core s" for s by (simp add: text_core_def is_digit_def)
  ultimately have "text_core (decimal_str False ds e) = text_core (decimal_str False es e)"
    using assms(4) ds(3) es(3) by (cases b) auto
  then have "ds = es" using core_digits_inj [OF assms(1,2)] ds(2) es(2) by simp
  with \<open>a = b\<close> show ?thesis by simp
qed

text \<open>Two ledger amounts with one canonical text are equal.\<close>

lemma canonical_amount_text_inj:
  assumes "on_scale 10 x" and "on_scale 10 y"
    and "normalize_decimal_value (quantized_decimal x) = normalize_decimal_value (quantized_decimal y)"
  shows "x = y"
proof (rule quantized_decimal_inj [OF assms(1,2)])
  let ?d = "\<lambda>z :: rat. int_digits \<lfloor>\<bar>z\<bar> * 10 ^ 10\<rfloor>"
  have wf: "wf_digits (?d z)" for z by (rule int_digits_wf) simp
  have "decimal_str (x < 0) (?d x) (-10) = decimal_str (y < 0) (?d y) (-10)"
    using assms(3) by (simp add: quantized_decimal_def normalize_decimal_value_def)
  then show "quantized_decimal x = quantized_decimal y"
    using decimal_str_inj [OF wf wf, of "-10"] by (simp add: quantized_decimal_def)
qed

end
