(* ===== verification/Payload_Digest.thy ===== *)
theory Payload_Digest
  imports Amount_Text
begin

text \<open>
  When a receipt payload can be hashed: its amounts normalise under the cost-basis state policy, its
  keys are nonblank and its instants aware. The hashed text does not depend on where the value
  stands in a payload.
\<close>

section \<open>Canonical payloads of ledger amounts\<close>

definition amount_json :: "rat \<Rightarrow> json" where
  "amount_json x = JObj [(''decimal'', JStr (case quantized_decimal x of PyFinite neg ds e \<Rightarrow> decimal_str neg ds e | PyNonFinite \<Rightarrow> []))]"

text \<open>Whether an amount normalises, and to what, does not depend on the name of its field.\<close>

definition canonical_value :: "rat \<Rightarrow> rat" where
  "canonical_value x = (case normalize state_policy [] x of Inr n \<Rightarrow> n | Inl _ \<Rightarrow> x)"

definition canonical_ok :: "rat \<Rightarrow> bool" where
  "canonical_ok x \<longleftrightarrow> \<not> isl (normalize state_policy [] x)"

lemma normalize_field_independent: "normalize cp f x = Inr n \<Longrightarrow> normalize cp g x = Inr n"
  by (auto simp: normalize_def require_exact_def rbind_eq_Inr split: sum.splits option.splits py_error.splits
      precision_violation.splits if_splits prod.splits)

lemma canonical_okI: "normalize state_policy f x = Inr n \<Longrightarrow> canonical_ok x \<and> canonical_value x = n"
  using normalize_field_independent [of state_policy f x n "[]"] by (simp add: canonical_ok_def canonical_value_def)

lemma normalize_canonical: "canonical_ok x \<Longrightarrow> normalize state_policy f x = Inr (canonical_value x)"
  using normalize_field_independent [of state_policy "[]" x _ f]
  by (cases "normalize state_policy [] x") (simp_all add: canonical_ok_def canonical_value_def)

lemma canonical_ledger [simp]: "ledger_amount x \<Longrightarrow> canonical_ok x" "ledger_amount x \<Longrightarrow> canonical_value x = x"
  using canonical_okI [OF cost_state.normalize_storable] by blast+

lemma normalize_quantized: "normalize_decimal_value (quantized_decimal x) = Inr (amount_json x)"
  by (simp add: quantized_decimal_def normalize_decimal_value_def amount_json_def)

lemma amount_json_inj:
  assumes "ledger_amount x" and "ledger_amount y" and "sort_keys (amount_json x) = sort_keys (amount_json y)"
  shows "x = y"
proof (rule canonical_amount_text_inj)
  show "on_scale 10 x" "on_scale 10 y" using assms by (simp_all add: ledger_amount_iff)
  show "normalize_decimal_value (quantized_decimal x) = normalize_decimal_value (quantized_decimal y)"
    using assms(3) unfolding normalize_quantized by (simp add: amount_json_def)
qed

section \<open>Paths\<close>

text \<open>The path of a value names the field in an error; it does not change a result.\<close>

lemma rmap_Inr_mono:
  assumes "rmap f xs = Inr ys" and "\<And>x y. x \<in> set xs \<Longrightarrow> f x = Inr y \<Longrightarrow> g x = Inr y"
  shows "rmap g xs = Inr ys"
  using assms by (induction xs arbitrary: ys) (auto simp: rbind_eq_Inr)

lemma rmap_zip_paths:
  assumes us: "rmap (\<lambda>item. f (fst item) (snd item)) (zip us vs) = Inr ys" "length us = length vs"
    and ws: "length ws = length vs"
    and any: "\<And>u w v y. v \<in> set vs \<Longrightarrow> f u v = Inr y \<Longrightarrow> f w v = Inr y"
  shows "rmap (\<lambda>item. f (fst item) (snd item)) (zip ws vs) = Inr ys"
proof (rule rmap_nthI)
  note pairs = rmap_Inr_list_all2 [OF us(1)]
  show "length ys = length (zip ws vs)" using list_all2_lengthD [OF pairs] us(2) ws by simp
  fix i
  assume "i < length (zip ws vs)"
  then have i: "i < length vs" "i < length us" "i < length ws" using us(2) ws by simp_all
  have "f (us ! i) (vs ! i) = Inr (ys ! i)" using list_all2_nthD [OF pairs, of i] i by simp
  with any [of "vs ! i"] nth_mem [OF i(1)] have "f (ws ! i) (vs ! i) = Inr (ys ! i)" by blast
  then show "f (fst (zip ws vs ! i)) (snd (zip ws vs ! i)) = Inr (ys ! i)" using i by simp
qed

lemma canonical_path_independent:
  "canonical_cost_basis_output path v = Inr p \<Longrightarrow> canonical_cost_basis_output path' v = Inr p"
proof (induction v arbitrary: path path' p)
  case (LDecimal x)
  then obtain n where n: "normalize state_policy path x = Inr n" and p: "p = LDecimal (quantized_decimal n)"
    by (auto simp: rbind_eq_Inr)
  show ?case using normalize_field_independent [OF n, of path'] by (simp add: p)
next
  case (LMap items)
  obtain ms where ms: "rmap (\<lambda>item. rbind (canonical_cost_basis_output (path @ ''.'' @ key_text (fst item)) (snd item))
      (\<lambda>v. Inr (fst item, v))) items = Inr ms" and p: "p = LMap ms"
    using LMap.prems by (auto simp: rbind_eq_Inr)
  have "rmap (\<lambda>item. rbind (canonical_cost_basis_output (path' @ ''.'' @ key_text (fst item)) (snd item))
      (\<lambda>v. Inr (fst item, v))) items = Inr ms"
  proof (rule rmap_Inr_mono [OF ms])
    fix item m
    assume item: "item \<in> set items"
      and m: "rbind (canonical_cost_basis_output (path @ ''.'' @ key_text (fst item)) (snd item)) (\<lambda>v. Inr (fst item, v)) = Inr m"
    obtain w where "canonical_cost_basis_output (path @ ''.'' @ key_text (fst item)) (snd item) = Inr w" "m = (fst item, w)"
      using m by (auto simp: rbind_eq_Inr)
    moreover have "snd item \<in> Basic_BNFs.snds item" by (simp add: Basic_BNFs.snds.simps)
    ultimately have "canonical_cost_basis_output (path' @ ''.'' @ key_text (fst item)) (snd item) = Inr w"
      using LMap.IH [OF item] by blast
    then show "rbind (canonical_cost_basis_output (path' @ ''.'' @ key_text (fst item)) (snd item)) (\<lambda>v. Inr (fst item, v)) = Inr m"
      using \<open>m = (fst item, w)\<close> by simp
  qed
  then show ?case by (simp add: p)
next
  case (LSet items)
  then obtain vs where vs: "rmap (canonical_cost_basis_output (path @ ''[]'')) items = Inr vs" and p: "p = LSet (remdups vs)"
    by (auto simp: rbind_eq_Inr)
  have "rmap (canonical_cost_basis_output (path' @ ''[]'')) items = Inr vs"
  proof (rule rmap_Inr_mono [OF vs])
    show "canonical_cost_basis_output (path' @ ''[]'') v = Inr y"
      if "v \<in> set items" "canonical_cost_basis_output (path @ ''[]'') v = Inr y" for v y
      using that by (rule LSet.IH)
  qed
  then show ?case by (simp add: p)
next
  case (LSeq items)
  then obtain vs where vs: "rmap (\<lambda>item. canonical_cost_basis_output (fst item) (snd item))
      (zip (index_paths path (length items)) items) = Inr vs" and p: "p = LSeq vs"
    by (auto simp: rbind_eq_Inr)
  have "rmap (\<lambda>item. canonical_cost_basis_output (fst item) (snd item)) (zip (index_paths path' (length items)) items) = Inr vs"
  proof (rule rmap_zip_paths [OF vs])
    show "canonical_cost_basis_output w v = Inr y" if "v \<in> set items" "canonical_cost_basis_output u v = Inr y" for u w v y
      using that by (rule LSeq.IH)
  qed (simp_all add: index_paths_def)
  then show ?case by (simp add: p)
qed simp_all

section \<open>Digestible payloads\<close>

text \<open>A value that canonicalises and normalises, wherever it stands in a payload.\<close>

definition digestible :: "rat payload_value \<Rightarrow> bool" where
  "digestible v \<longleftrightarrow> (\<forall>path. \<exists>p j. canonical_cost_basis_output path v = Inr p \<and> normalize_lineage_value p = Inr j)"

definition digestible_items :: "rat payload \<Rightarrow> bool" where
  "digestible_items items \<longleftrightarrow> (\<forall>item \<in> set items. fst item \<noteq> None \<and> fst item \<noteq> Some [] \<and> digestible (snd item))"

lemma digestible_simple [simp]:
  "digestible LNone" "digestible (LInt i)" "digestible (LStr t)" "digestible (LDate d)"
  "canonical_ok x \<Longrightarrow> digestible (LDecimal x)" "utc_offset u \<noteq> None \<Longrightarrow> digestible (LDatetime u)"
  by (auto simp: digestible_def normalize_canonical normalize_quantized normalize_datetime_value_def)

lemma rmap_exists:
  assumes "\<forall>x \<in> set xs. \<exists>y. f x = Inr y \<and> P y"
  shows "\<exists>ys. rmap f xs = Inr ys \<and> (\<forall>y \<in> set ys. P y)"
  using assms by (induction xs) fastforce+

lemma members_digest:
  assumes "digestible_items items"
  shows "\<exists>ms j. rmap (\<lambda>item. rbind (canonical_cost_basis_output (path (fst item)) (snd item)) (\<lambda>v. Inr (fst item, v))) items = Inr ms \<and>
    normalize_lineage_value (LMap ms) = Inr j"
proof -
  let ?good = "\<lambda>m. fst m \<noteq> None \<and> fst m \<noteq> Some [] \<and> (\<exists>j. normalize_lineage_value (snd m) = Inr j)"
  have "\<forall>item \<in> set items. \<exists>m. rbind (canonical_cost_basis_output (path (fst item)) (snd item)) (\<lambda>v. Inr (fst item, v)) = Inr m \<and> ?good m"
    using assms by (force simp: digestible_items_def digestible_def rbind_eq_Inr)
  from rmap_exists [OF this] obtain ms
    where ms: "rmap (\<lambda>item. rbind (canonical_cost_basis_output (path (fst item)) (snd item)) (\<lambda>v. Inr (fst item, v))) items = Inr ms"
      "\<forall>m \<in> set ms. ?good m"
    by blast
  have "\<forall>m \<in> set ms. \<exists>y. rbind (require_mapping_key (fst m)) (\<lambda>key. rbind (normalize_lineage_value (snd m)) (\<lambda>v. Inr (key, v))) = Inr y \<and> True"
    using ms(2) by (force simp: require_mapping_key_def rbind_eq_Inr split: option.splits list.splits)
  from rmap_exists [OF this] show ?thesis using ms(1) by (auto simp: rbind_eq_Inr)
qed

lemma digestible_map [simp]: "digestible_items items \<Longrightarrow> digestible (LMap items)"
  unfolding digestible_def [of "LMap items"]
proof
  fix path
  assume "digestible_items items"
  from members_digest [OF this, of "\<lambda>k. path @ ''.'' @ key_text k"]
  obtain ms j where "rmap (\<lambda>item. rbind (canonical_cost_basis_output (path @ ''.'' @ key_text (fst item)) (snd item))
      (\<lambda>v. Inr (fst item, v))) items = Inr ms" "normalize_lineage_value (LMap ms) = Inr j"
    by blast
  then show "\<exists>p j. canonical_cost_basis_output path (LMap items) = Inr p \<and> normalize_lineage_value p = Inr j"
    by (intro exI [of _ "LMap ms"] exI [of _ j]) (simp del: normalize_lineage_value.simps)
qed

lemma digestible_seq:
  assumes "\<forall>v \<in> set vs. digestible v"
  shows "digestible (LSeq vs)"
  unfolding digestible_def
proof
  fix path
  let ?items = "zip (index_paths path (length vs)) vs"
  have "\<forall>item \<in> set ?items. \<exists>p. canonical_cost_basis_output (fst item) (snd item) = Inr p \<and> (\<exists>j. normalize_lineage_value p = Inr j)"
    using assms by (auto simp: digestible_def dest: set_zip_rightD)
  from rmap_exists [OF this] obtain ps where ps: "rmap (\<lambda>item. canonical_cost_basis_output (fst item) (snd item)) ?items = Inr ps"
    "\<forall>p \<in> set ps. \<exists>j. normalize_lineage_value p = Inr j \<and> True"
    by auto
  from rmap_exists [OF ps(2)] show "\<exists>p j. canonical_cost_basis_output path (LSeq vs) = Inr p \<and> normalize_lineage_value p = Inr j"
    using ps(1) by auto
qed

lemma payload_digest:
  assumes "digestible_items items"
  shows "\<exists>p h. canonical_cost_basis_output_payload items = Inr p \<and> canonical_content_hash p = Inr h"
  using members_digest [OF assms, of key_text]
  by (force simp: canonical_cost_basis_output_payload_def canonical_content_hash_def canonical_text_def
      simp del: normalize_lineage_value.simps)

lemma digestible_lineage [simp]: "digestible (lineage_payload_of l)"
  by (simp add: lineage_payload_of_def policy_member_def numeric_policy_payload_def digestible_items_def split: option.splits)

text \<open>What is hashed for a value.\<close>

definition value_json :: "rat payload_value \<Rightarrow> json" where
  "value_json v = (case rbind (canonical_cost_basis_output [] v) normalize_lineage_value of Inr j \<Rightarrow> j | Inl _ \<Rightarrow> JNull)"

lemma digestible_json:
  assumes "digestible v"
  shows "\<exists>p. canonical_cost_basis_output path v = Inr p \<and> normalize_lineage_value p = Inr (value_json v)"
proof -
  obtain p j where p: "canonical_cost_basis_output path v = Inr p" "normalize_lineage_value p = Inr j"
    using assms unfolding digestible_def by blast
  then show ?thesis using canonical_path_independent [OF p(1), of "[]"] by (simp add: value_json_def)
qed

lemma flat_digestible:
  assumes "\<And>f x. (f, x) \<in> set (payload_amounts items) \<Longrightarrow> canonical_ok x"
    and "\<forall>item \<in> set items. fst item \<noteq> None \<and> fst item \<noteq> Some [] \<and> (case snd item of LDecimal _ \<Rightarrow> True | v \<Rightarrow> digestible v)"
  shows "digestible_items items"
  unfolding digestible_items_def
proof
  fix item
  assume item: "item \<in> set items"
  show "fst item \<noteq> None \<and> fst item \<noteq> Some [] \<and> digestible (snd item)"
  proof (cases "snd item")
    case (LDecimal x)
    then obtain k where k: "item = (k, LDecimal x)" by (cases item) simp
    have "(key_text k, x) \<in> set (payload_amounts items)"
      unfolding payload_amounts_def set_concat set_map by (rule UN_I [OF imageI, OF item]) (simp add: k)
    then have "canonical_ok x" by (rule assms(1))
    then show ?thesis using bspec [OF assms(2) item] LDecimal by simp
  qed (use bspec [OF assms(2) item] in simp_all)
qed

end
