(* ===== verification/Calendar_Text.thy ===== *)
theory Calendar_Text
  imports Py_Text Py_Json
begin

text \<open>
  The calendar of \<open>datetime\<close> on the day ordinals: \<open>_ord2ymd\<close> followed by \<open>_ymd2ord\<close> gives the ordinal
  back, and the ISO text of a date determines the date. Lineage hashes of dates are hashes of these
  texts.
\<close>

section \<open>From ordinals to dates and back\<close>

text \<open>The position in the 400-year, 100-year, 4-year and one-year cycles.\<close>

lemma years_before:
  fixes a b c d :: int
  assumes "0 \<le> b" "b \<le> 3" "0 \<le> c" "c \<le> 24" "0 \<le> d" "d \<le> 3"
  shows "days_before_year (a * 400 + 1 + b * 100 + c * 4 + d) = 146097 * a + 36524 * b + 1461 * c + 365 * d"
    and "is_leap (a * 400 + 1 + b * 100 + c * 4 + d) \<longleftrightarrow> d = 3 \<and> (c \<noteq> 24 \<or> b = 3)"
proof -
  have y: "a * 400 + 1 + b * 100 + c * 4 + d - 1 = a * 400 + b * 100 + c * 4 + d" by simp
  have div4: "(a * 400 + b * 100 + c * 4 + d) div 4 = 100 * a + 25 * b + c"
    by (rule int_div_pos_eq [where r = d]) (use assms in simp_all)
  have div100: "(a * 400 + b * 100 + c * 4 + d) div 100 = 4 * a + b"
    by (rule int_div_pos_eq [where r = "4 * c + d"]) (use assms in simp_all)
  have div400: "(a * 400 + b * 100 + c * 4 + d) div 400 = a"
    by (rule int_div_pos_eq [where r = "100 * b + 4 * c + d"]) (use assms in simp_all)

  show "days_before_year (a * 400 + 1 + b * 100 + c * 4 + d) = 146097 * a + 36524 * b + 1461 * c + 365 * d"
    unfolding days_before_year_def Let_def y div4 div100 div400 by simp
  have last: "x mod m = 0 \<longleftrightarrow> r = m - 1" if "x = m * q + r + 1" "0 \<le> r" "r < m" for x m q r :: int
  proof (cases "r = m - 1")
    case True
    then have "x = m * (q + 1)" using that(1) by (simp add: algebra_simps)
    then show ?thesis using True by simp
  next
    case False
    then have "x mod m = r + 1" by (intro int_mod_pos_eq [where q = q]) (use that in simp_all)
    then show ?thesis using False that by simp
  qed
  have "(a * 400 + 1 + b * 100 + c * 4 + d) mod 4 = 0 \<longleftrightarrow> d = 4 - 1"
    by (rule last [where q = "100 * a + 25 * b + c"]) (use assms in simp_all)
  moreover have "(a * 400 + 1 + b * 100 + c * 4 + d) mod 100 = 0 \<longleftrightarrow> 4 * c + d = 100 - 1"
    by (rule last [where q = "4 * a + b"]) (use assms in simp_all)
  moreover have "(a * 400 + 1 + b * 100 + c * 4 + d) mod 400 = 0 \<longleftrightarrow> 100 * b + 4 * c + d = 400 - 1"
    by (rule last [where q = a]) (use assms in simp_all)
  moreover have "4 * c + d = 100 - 1 \<longleftrightarrow> c = 24 \<and> d = 3" "100 * b + 4 * c + d = 400 - 1 \<longleftrightarrow> b = 3 \<and> c = 24 \<and> d = 3"
    using assms by linarith+
  ultimately show "is_leap (a * 400 + 1 + b * 100 + c * 4 + d) \<longleftrightarrow> d = 3 \<and> (c \<noteq> 24 \<or> b = 3)"
    unfolding is_leap_def by auto
qed

definition month_roundtrip :: "bool \<Rightarrow> int \<Rightarrow> bool" where
  "month_roundtrip leap n \<longleftrightarrow>
     (case month_of leap n of (m, d) \<Rightarrow>
        days_before_month_table ! nat (m - 1) + (if 2 < m \<and> leap then 1 else 0) + d = n + 1 \<and> 1 \<le> m \<and> 1 \<le> d)"

lemma month_of_roundtrip: "0 \<le> n \<Longrightarrow> n \<le> 364 \<Longrightarrow> month_roundtrip leap n"
proof -
  have "list_all (month_roundtrip True) [0..364]" "list_all (month_roundtrip False) [0..364]"
    by code_simp+
  then show "0 \<le> n \<Longrightarrow> n \<le> 364 \<Longrightarrow> month_roundtrip leap n"
    by (cases leap) (simp_all add: list_all_iff)
qed

lemma cycle_end:
  fixes a b c d :: int
  shows "ymd2ord (a * 400 + 400) 12 31 = 146097 * a + 146097"
    and "0 \<le> b \<Longrightarrow> b \<le> 3 \<Longrightarrow> 0 \<le> c \<Longrightarrow> c \<le> 23 \<Longrightarrow>
      ymd2ord (a * 400 + b * 100 + c * 4 + 4) 12 31 = 146097 * a + 36524 * b + 1461 * c + 1461"
  using years_before [of 3 24 3 a] years_before [of b c 3 a]
  by (simp_all add: ymd2ord_def days_before_month_def days_before_month_table_def add.commute)

lemma ymd2ord_ord2ymd:
  assumes "ord2ymd ordinal = (y, m, d)"
  shows "ymd2ord y m d = ordinal" and "1 \<le> m \<and> 1 \<le> d" and "1 \<le> ordinal \<Longrightarrow> 1 \<le> y"
proof -
  define n where "n = ordinal - 1"
  define n4' n1' where "n4' = n mod 146097" and "n1' = n mod 146097 mod 36524"
  define k r where "k = n1' mod 1461" and "r = n1' mod 1461 mod 365"
  define q400 q100 q4 q1 where "q400 = n div 146097" and "q100 = n4' div 36524" and "q4 = n1' div 1461"
    and "q1 = n1' mod 1461 div 365"
  have n: "n = 146097 * q400 + n4'" "n4' = 36524 * q100 + n1'" "n1' = 1461 * q4 + k" "k = 365 * q1 + r"
    by (simp_all add: k_def q400_def n4'_def q100_def n1'_def q4_def q1_def r_def)
  have b: "0 \<le> n4'" "n4' < 146097" "0 \<le> n1'" "n1' < 36524" "0 \<le> k" "k < 1461" "0 \<le> r" "r < 365"
    by (simp_all add: n4'_def n1'_def k_def r_def)
  have q: "0 \<le> q100" "q100 \<le> 4" "0 \<le> q4" "q4 \<le> 24" "0 \<le> q1" "q1 \<le> 4" using n b by linarith+
  define leap where "leap = (q1 = 3 \<and> (q4 \<noteq> 24 \<or> q100 = 3))"
  have ymd: "(y, m, d) = (if q1 = 4 \<or> q100 = 4 then (q400 * 400 + 1 + q100 * 100 + q4 * 4 + q1 - 1, 12, 31)
      else (q400 * 400 + 1 + q100 * 100 + q4 * 4 + q1, month_of leap r))"
    unfolding assms [symmetric] by (simp only: ord2ymd_def Let_def leap_def q400_def q100_def q4_def q1_def r_def n1'_def n4'_def n_def)
  have "ordinal = n + 1" by (simp add: n_def)
  consider "q100 = 4" | "q100 \<noteq> 4" "q1 = 4" | "q100 \<noteq> 4" "q1 \<noteq> 4" by blast
  then have "ymd2ord y m d = ordinal \<and> 1 \<le> m \<and> 1 \<le> d \<and> (0 \<le> q400 \<longrightarrow> 1 \<le> y)"
  proof cases
    case 1
    then have "n1' = 0" using n b by linarith
    then have "k = 0" by (simp add: k_def)
    then have z: "q4 = 0" "q1 = 0" "r = 0" using \<open>n1' = 0\<close> n(3,4) b(7) q by linarith+
    have "y = q400 * 400 + q100 * 100 + q4 * 4 + q1" "m = 12" "d = 31"
      using ymd 1 by simp_all
    then show ?thesis using 1 z n cycle_end(1) [of q400] \<open>ordinal = n + 1\<close> \<open>n1' = 0\<close> by simp
  next
    case 2
    then have "r = 0" "q4 \<le> 23" using n b by linarith+
    have "y = q400 * 400 + q100 * 100 + q4 * 4 + q1" "m = 12" "d = 31"
      using ymd 2 by simp_all
    then show ?thesis using 2 n cycle_end(2) [of q100 q4 q400] \<open>ordinal = n + 1\<close> q \<open>r = 0\<close> \<open>q4 \<le> 23\<close> by simp
  next
    case 3
    have e: "y = q400 * 400 + 1 + q100 * 100 + q4 * 4 + q1" "month_of leap r = (m, d)"
      using ymd 3 by simp_all
    have "month_roundtrip leap r" using b by (intro month_of_roundtrip) simp_all
    then have md: "days_before_month_table ! nat (m - 1) + (if 2 < m \<and> leap then 1 else 0) + d = r + 1" "1 \<le> m" "1 \<le> d"
      by (simp_all add: month_roundtrip_def e(2))
    have bounds: "0 \<le> q100" "q100 \<le> 3" "0 \<le> q4" "q4 \<le> 24" "0 \<le> q1" "q1 \<le> 3" using 3 q by linarith+
    have "days_before_month y m + d = r + 1"
      using md(1) years_before(2) [OF bounds, of q400] by (simp add: days_before_month_def e(1) leap_def)
    then show ?thesis using years_before(1) [OF bounds, of q400] n \<open>ordinal = n + 1\<close> md q e(1) by (simp add: ymd2ord_def)
  qed
  moreover have "0 \<le> q400" if "1 \<le> ordinal" using that by (simp add: q400_def n_def pos_imp_zdiv_nonneg_iff)
  ultimately have "ymd2ord y m d = ordinal \<and> 1 \<le> m \<and> 1 \<le> d \<and> (1 \<le> ordinal \<longrightarrow> 1 \<le> y)" by blast
  then show "ymd2ord y m d = ordinal" and "1 \<le> m \<and> 1 \<le> d" and "1 \<le> ordinal \<Longrightarrow> 1 \<le> y" by blast+
qed

section \<open>The ISO text of a date\<close>

lemma zero_padded_digits: "0 \<le> i \<Longrightarrow> \<forall>c \<in> set (zero_padded w i). is_digit c"
  using show_nat_digits [of "nat i"] by (auto simp: zero_padded_def Let_def show_int_def is_digit_def)

lemma digits_nat_zeros: "digits_nat (replicate k (CHR ''0'') @ s) = digits_nat s"
  by (induction k) (simp_all add: digits_nat_def)

lemma zero_padded_readable:
  assumes "zero_padded w i @ s = zero_padded w j @ t" and "0 \<le> i" "0 \<le> j"
    and "s = [] \<or> hd s = CHR ''-''" "t = [] \<or> hd t = CHR ''-''"
  shows "i = j \<and> s = t"
proof -
  have "zero_padded w i = zero_padded w j \<and> s = t"
    using assms(1) zero_padded_digits [OF assms(2)] zero_padded_digits [OF assms(3)]
    by (rule span_unique) (use assms(4,5) in \<open>auto simp: is_digit_def\<close>)
  moreover have "digits_nat (zero_padded w k) = nat k" if "0 \<le> k" for k
    using that by (simp add: zero_padded_def Let_def digits_nat_zeros show_int_def)
  ultimately show ?thesis using assms(2,3) by (metis eq_nat_nat_iff)
qed

lemma date_isoformat_inj:
  assumes "date_isoformat a = date_isoformat b" and "1 \<le> a" and "1 \<le> b"
  shows "a = b"
proof -
  obtain y m d y' m' d' where ymd: "ord2ymd a = (y, m, d)" "ord2ymd b = (y', m', d')" by (metis prod_cases3)
  note pos = ymd2ord_ord2ymd(2,3) [OF ymd(1)] ymd2ord_ord2ymd(2,3) [OF ymd(2)]
  have iso: "zero_padded 4 y @ CHR ''-'' # zero_padded 2 m @ CHR ''-'' # zero_padded 2 d @ [] =
      zero_padded 4 y' @ CHR ''-'' # zero_padded 2 m' @ CHR ''-'' # zero_padded 2 d' @ []"
    using assms(1) by (simp add: date_isoformat_def ymd)
  then have y: "y = y'" and rest: "zero_padded 2 m @ CHR ''-'' # zero_padded 2 d @ [] =
      zero_padded 2 m' @ CHR ''-'' # zero_padded 2 d' @ []"
    using zero_padded_readable [OF iso] pos assms(2,3) by auto
  then have m: "m = m'" and last: "zero_padded 2 d @ [] = zero_padded 2 d' @ []"
    using zero_padded_readable [OF rest] pos by auto
  have "d = d'" using zero_padded_readable [OF last] pos by auto
  with y m show ?thesis using ymd2ord_ord2ymd(1) [OF ymd(1)] ymd2ord_ord2ymd(1) [OF ymd(2)] by simp
qed

end
