(* ===== verification/Receipt_Properties.thy ===== *)
theory Receipt_Properties
  imports Payload_Digest Calendar_Text
begin

text \<open>
  What the receipt primitives show: the lineage that a disposal result carries is the lineage the
  reader verifies, one lineage vouches for one set of allocations and totals, and the chain check
  accepts exactly the linked version chains.
\<close>

section \<open>Allocations\<close>

definition allocation_amounts :: "source_lot_disposal_allocation \<Rightarrow> bool" where
  "allocation_amounts a \<longleftrightarrow>
     canonical_ok (consumed_cost_base a) \<and> canonical_ok (consumed_cost_local a) \<and> canonical_ok (consumed_quantity a) \<and>
     pred_option (\<lambda>e. digestible_items (evidence_payload e)) (amortized_cost_evidence a)"

definition evidence_json :: "source_lot_disposal_allocation \<Rightarrow> json option" where
  "evidence_json a = map_option (\<lambda>e. value_json (LMap (evidence_payload e))) (amortized_cost_evidence a)"

definition allocation_json :: "source_lot_disposal_allocation \<Rightarrow> (string \<times> json) list" where
  "allocation_json a =
     [(''allocation_ordinal'', JInt (int (allocation_ordinal a))),
      (''consumed_cost_base'', amount_json (canonical_value (consumed_cost_base a))),
      (''consumed_cost_local'', amount_json (canonical_value (consumed_cost_local a))),
      (''consumed_quantity'', amount_json (canonical_value (consumed_quantity a))),
      (''source_acquisition_date'', JObj [(''date'', JStr (date_isoformat (source_acquisition_date a)))]),
      (''source_lot_id'', JStr (source_lot_id a)),
      (''source_transaction_id'', JStr (source_transaction_id a))] @
     (case evidence_json a of None \<Rightarrow> [] | Some j \<Rightarrow> [(''amortized_cost_evidence'', j)])"

lemma canonical_with_evidence:
  assumes "canonical_ok (consumed_cost_base a)" "canonical_ok (consumed_cost_local a)" "canonical_ok (consumed_quantity a)"
    and "amortized_cost_evidence a = Some e" and "w = LMap (evidence_payload e)" and "digestible w"
  shows "\<exists>p. canonical_cost_basis_output path
      (LMap (lot_disposal_allocation_payload a None @ [(Some ''amortized_cost_evidence'', w)])) = Inr p \<and>
    normalize_lineage_value p = Inr (JObj (allocation_json a))"
proof -
  obtain p where "canonical_cost_basis_output (path @ ''.amortized_cost_evidence'') w = Inr p"
    "normalize_lineage_value p = Inr (value_json w)" using digestible_json [OF assms(6)] by blast
  moreover have "allocation_json a = allocation_json (a\<lparr>amortized_cost_evidence := None\<rparr>) @ [(''amortized_cost_evidence'', value_json w)]"
    by (simp add: allocation_json_def evidence_json_def assms(4,5))
  ultimately show ?thesis using assms(1-3)
    by (simp add: lot_disposal_allocation_payload_def key_text_def normalize_canonical require_mapping_key_def
        normalize_quantized allocation_json_def [of "a\<lparr>amortized_cost_evidence := None\<rparr>"] evidence_json_def)
qed

lemma canonical_allocation:
  assumes "allocation_amounts a"
  shows "\<exists>p. canonical_cost_basis_output path (LMap (source_lot_disposal_allocation_payload a)) = Inr p \<and>
    normalize_lineage_value p = Inr (JObj (allocation_json a))"
proof (cases "amortized_cost_evidence a")
  case None
  then show ?thesis using assms
    by (simp add: source_lot_disposal_allocation_payload_def lot_disposal_allocation_payload_def allocation_amounts_def
        normalize_canonical require_mapping_key_def normalize_quantized allocation_json_def evidence_json_def)
next
  case (Some e)
  have "source_lot_disposal_allocation_payload a =
      lot_disposal_allocation_payload a None @ [(Some ''amortized_cost_evidence'', LMap (evidence_payload e))]"
    by (simp add: source_lot_disposal_allocation_payload_def lot_disposal_allocation_payload_def Some)
  then show ?thesis using canonical_with_evidence [OF _ _ _ Some refl] assms Some
    by (simp add: allocation_amounts_def del: canonical_cost_basis_output.simps)
qed

lemma rmap_two_stage:
  assumes "\<And>x. x \<in> set xs \<Longrightarrow> \<exists>y. f x = Inr y \<and> g y = Inr (h x)"
  shows "\<exists>ys. rmap f xs = Inr ys \<and> rmap g ys = Inr (map h xs)"
  using assms by (induction xs) (fastforce)+

lemma canonical_sequence:
  assumes "\<And>x path. x \<in> set xs \<Longrightarrow> \<exists>p. canonical_cost_basis_output path (f x) = Inr p \<and> normalize_lineage_value p = Inr (h x)"
  shows "\<exists>p. canonical_cost_basis_output path (LSeq (map f xs)) = Inr p \<and>
    normalize_lineage_value p = Inr (JArr (map h xs))"
proof -
  let ?items = "zip (index_paths path (length xs)) xs"
  let ?c = "\<lambda>item. canonical_cost_basis_output (fst item) (f (snd item))"
  have "\<exists>p. ?c item = Inr p \<and> normalize_lineage_value p = Inr (h (snd item))" if "item \<in> set ?items" for item
    using assms that by (cases item) (auto dest: set_zip_rightD)
  then obtain ps where ps: "rmap ?c ?items = Inr ps" "rmap normalize_lineage_value ps = Inr (map (\<lambda>item. h (snd item)) ?items)"
    using rmap_two_stage [of ?items ?c normalize_lineage_value "\<lambda>item. h (snd item)"] by blast
  have "rmap (\<lambda>item. canonical_cost_basis_output (fst item) (snd item)) (zip us (map f zs)) = rmap (\<lambda>item. canonical_cost_basis_output (fst item) (f (snd item))) (zip us zs)" for us zs
    by (induction us zs rule: list_induct2') simp_all
  then have "canonical_cost_basis_output path (LSeq (map f xs)) = Inr (LSeq ps)" using ps by simp
  moreover have "map (\<lambda>item. h (snd item)) ?items = map h xs"
    by (simp add: index_paths_def map_snd_zip [unfolded comp_def] flip: map_map [unfolded comp_def, of h snd])
  ultimately show ?thesis using ps by simp
qed

lemma disposal_input_json:
  assumes "\<forall>a \<in> set as. allocation_amounts a"
  shows "\<exists>p. disposal_lineage_input (map source_lot_disposal_allocation_payload as) = Inr p \<and>
    normalize_lineage_value p = Inr (JObj [(''allocations'', JArr (map (\<lambda>a. JObj (allocation_json a)) as))])"
proof -
  have "\<exists>p. canonical_cost_basis_output ''allocations'' (LSeq (map (\<lambda>a. LMap (source_lot_disposal_allocation_payload a)) as)) = Inr p \<and>
      normalize_lineage_value p = Inr (JArr (map (\<lambda>a. JObj (allocation_json a)) as))"
    using assms canonical_allocation by (intro canonical_sequence) blast
  then show ?thesis
    by (auto simp: disposal_lineage_input_def canonical_cost_basis_output_payload_def key_text_def
        require_mapping_key_def comp_def simp del: canonical_cost_basis_output.simps)
qed

lemma disposal_output_json:
  assumes "canonical_ok b" and "canonical_ok l" and "canonical_ok q"
  shows "\<exists>p. disposal_lineage_output b l q = Inr p \<and>
    normalize_lineage_value p = Inr (JObj [(''consumed_cost_base'', amount_json (canonical_value b)),
      (''consumed_cost_local'', amount_json (canonical_value l)), (''consumed_quantity'', amount_json (canonical_value q))])"
  using assms by (simp add: disposal_lineage_output_def canonical_cost_basis_output_payload_def
      normalize_canonical require_mapping_key_def normalize_quantized)

lemma state_policy_identity: "\<exists>policy. lineage_identity state_policy = Inr policy \<and>
    nop_working_precision policy = cp_working_precision state_policy"
proof -
  have "py_strip ''cost-basis-state-ledger-output'' \<noteq> []" "py_strip ''1.0.0'' \<noteq> []" "py_strip ''ROUND_HALF_EVEN'' \<noteq> []"
    by code_simp+
  then show ?thesis
    by (simp add: lineage_identity_def NumericOutputPolicyLineage_def nonblank_stripped_def policy_instances ledger_output_policy_def)
qed

section \<open>Writers and readers agree\<close>

lemma canonical_amounts_ok:
  assumes "canonical_amounts payload = Inr canonical" and "(f, x) \<in> set payload"
  shows "canonical_ok x"
  using assms unfolding canonical_amounts_def
  by (induction payload arbitrary: canonical) (auto simp: rbind_eq_Inr dest: canonical_okI)

lemma evidence_digestible:
  assumes "\<And>f x. (f, x) \<in> set (payload_amounts (evidence_payload e)) \<Longrightarrow> canonical_ok x"
  shows "digestible_items (evidence_payload e)"
proof (rule flat_digestible [OF assms])
  have "case lineage_payload_of l :: rat payload_value of LDecimal _ \<Rightarrow> True | v \<Rightarrow> digestible v" for l
    using digestible_lineage [of l] by (simp add: lineage_payload_of_def)
  then show "\<forall>item \<in> set (evidence_payload e). fst item \<noteq> None \<and> fst item \<noteq> Some [] \<and>
      (case snd item of LDecimal _ \<Rightarrow> True | v \<Rightarrow> digestible v)"
    by (simp add: evidence_payload_def)
qed

lemma successful_result:
  assumes "LotDisposalResult raw = Inr r" and "ldr_error_reason r = None" and "ldr_consumed_quantity r \<noteq> 0"
  shows "\<forall>a \<in> set (ldr_allocations r). allocation_amounts a"
    and "canonical_ok (ldr_cost_base r)" "canonical_ok (ldr_cost_local r)" "canonical_ok (ldr_consumed_quantity r)"
proof -
  have r: "raw = r" and lineage: "build_conserved_allocation_lineage r = Inr ()"
    using assms unfolding LotDisposalResult_def
    by (auto simp: rbind_eq_Inr split: option.splits if_splits)
  then obtain ci co where ci: "canonical_amounts (lot_disposal_lineage_input_payload (ldr_allocations r)) = Inr ci"
    and co: "canonical_amounts (lot_disposal_lineage_output_payload r) = Inr co"
    unfolding build_conserved_allocation_lineage_def by (elim rbind_InrE) (auto elim!: rbind_InrE split: prod.splits)
  show "canonical_ok (ldr_cost_base r)" "canonical_ok (ldr_cost_local r)" "canonical_ok (ldr_consumed_quantity r)"
    using canonical_amounts_ok [OF co] by (auto simp: lot_disposal_lineage_output_payload_def)
  show "\<forall>a \<in> set (ldr_allocations r). allocation_amounts a"
  proof
    fix a assume "a \<in> set (ldr_allocations r)"
    then obtain i where "i < length (ldr_allocations r)" "ldr_allocations r ! i = a" by (auto simp: in_set_conv_nth)
    then have "(i, a) \<in> set (enumerate 0 (ldr_allocations r))" by (auto simp: in_set_enumerate_eq)
    then have "set (allocation_lineage_amounts i a) \<subseteq> set (lot_disposal_lineage_input_payload (ldr_allocations r))"
      unfolding lot_disposal_lineage_input_payload_def set_concat set_map by (rule SUP_upper2 [OF imageI]) auto
    then have rows: "canonical_ok x" if "(f, x) \<in> set (allocation_lineage_amounts i a)" for f x
      using canonical_amounts_ok [OF ci] that by blast
    have "digestible_items (evidence_payload e)" if e: "amortized_cost_evidence a = Some e" for e
    proof (rule evidence_digestible)
      fix f x
      assume "(f, x) \<in> set (payload_amounts (evidence_payload e))"
      then have "(allocation_path i (''amortized_cost_evidence.'' @ f), x) \<in> set (allocation_lineage_amounts i a)"
        by (force simp: allocation_lineage_amounts_def e)
      then show "canonical_ok x" by (rule rows)
    qed
    moreover have "canonical_ok (consumed_cost_base a)" "canonical_ok (consumed_cost_local a)" "canonical_ok (consumed_quantity a)"
      by (rule rows, force simp: allocation_lineage_amounts_def)+
    ultimately show "allocation_amounts a" by (simp add: allocation_amounts_def pred_option_def)
  qed
qed

lemma build_total:
  assumes "py_strip algorithm \<noteq> []" and "1 \<le> version" and "1 \<le> precision"
    and "normalize_lineage_value input = Inr i" and "normalize_lineage_value out = Inr j"
  shows "\<exists>l. build_calculation_lineage algorithm version precision input out policy = Inr l"
  using assms
  by (auto simp: build_calculation_lineage_def Let_def canonical_content_hash_def canonical_text_def
      normalize_calculation_payload normalize_output_envelope CalculationLineage_def)

lemma result_lineage_verifies:
  assumes "LotDisposalResult raw = Inr r" and "ldr_error_reason r = None" and "ldr_consumed_quantity r \<noteq> 0"
  shows "\<exists>l. disposal_result_lineage r = Inr l \<and>
    verify_active_lot_disposal_lineage (Some l) (map source_lot_disposal_allocation_payload (ldr_allocations r))
      (ldr_cost_base r) (ldr_cost_local r) (ldr_consumed_quantity r) = Inr ()"
proof -
  note ok = successful_result [OF assms]
  obtain ip i where ip: "disposal_lineage_input (map source_lot_disposal_allocation_payload (ldr_allocations r)) = Inr ip"
    "normalize_lineage_value ip = Inr i" using disposal_input_json [OF ok(1)] by blast
  obtain op j where op: "disposal_lineage_output (ldr_cost_base r) (ldr_cost_local r) (ldr_consumed_quantity r) = Inr op"
    "normalize_lineage_value op = Inr j" using disposal_output_json [OF ok(2-4)] by blast
  obtain policy where policy: "lineage_identity state_policy = Inr policy"
    "nop_working_precision policy = cp_working_precision state_policy" using state_policy_identity by blast
  have id: "py_strip LOT_DISPOSAL_LINEAGE_ALGORITHM_ID = LOT_DISPOSAL_LINEAGE_ALGORITHM_ID"
    "LOT_DISPOSAL_LINEAGE_ALGORITHM_ID \<noteq> []" by code_simp+
  obtain l where l: "build_calculation_lineage LOT_DISPOSAL_LINEAGE_ALGORITHM_ID LOT_DISPOSAL_LINEAGE_ALGORITHM_VERSION
      (cp_working_precision state_policy) ip op (Some policy) = Inr l"
    using build_total [OF _ _ _ ip(2) op(2)] id
    by (force simp: LOT_DISPOSAL_LINEAGE_ALGORITHM_VERSION_def policy_instances ledger_output_policy_def)
  have fields: "algorithm_id l = LOT_DISPOSAL_LINEAGE_ALGORITHM_ID" "algorithm_version l = LOT_DISPOSAL_LINEAGE_ALGORITHM_VERSION"
    "intermediate_precision l = cp_working_precision state_policy" "numeric_output_policy_of l = Some policy"
    "canonical_content_hash ip = Inr (input_content_hash l)" "calculation_lineage_binds_output l op = Inr True"
    using l id by (elim build_InrE, simp add: calculation_lineage_binds_output_def)+
  show ?thesis using ip op policy l fields
    by (simp add: disposal_result_lineage_def verify_active_lot_disposal_lineage_def)
qed

text \<open>
  C33. What the writer binds is what the reader verifies: every successful disposal result that the
  constructor accepts carries a lineage, and the verification of an active receipt accepts that
  lineage for the allocations and totals of the result.
\<close>

theorem disposal_lineage_verifies:
  assumes "LotDisposalResult raw = Inr r" and "ldr_error_reason r = None" and "ldr_consumed_quantity r \<noteq> 0"
  shows "\<exists>l. disposal_result_lineage r = Inr l \<and>
    verify_active_lot_disposal_lineage (Some l) (map source_lot_disposal_allocation_payload (ldr_allocations r))
      (ldr_cost_base r) (ldr_cost_local r) (ldr_consumed_quantity r) = Inr ()"
  using assms by (rule result_lineage_verifies)

definition sample_allocation :: source_lot_disposal_allocation where
  "sample_allocation = \<lparr>source_lot_id = ''LOT-T1'', source_transaction_id = ''T1'', source_acquisition_date = 1,
     allocation_ordinal = 1, consumed_quantity = 2, consumed_cost_local = 20, consumed_cost_base = 30,
     source_original_quantity = None, source_open_quantity_before = None, amortized_cost_evidence = None\<rparr>"

definition sample_result :: lot_disposal_result where
  "sample_result = \<lparr>ldr_cost_base = 30, ldr_cost_local = 20, ldr_consumed_quantity = 2,
     ldr_allocations = [sample_allocation], ldr_error_reason = None\<rparr>"

lemma sample_result_constructed: "LotDisposalResult sample_result = Inr sample_result"
proof -
  have "build_conserved_allocation_lineage sample_result = Inr ()"
    by (rule disposal_lineage_ok) (simp_all add: sample_result_def sample_allocation_def ledger_allocation_def ledger_amount_iff)
  then show ?thesis
    by (simp add: LotDisposalResult_def sample_result_def sample_allocation_def require_decimal_def)
qed

theorem disposal_lineage_verifies_witness:
  "\<exists>l. disposal_result_lineage sample_result = Inr l \<and>
    verify_active_lot_disposal_lineage (Some l) [source_lot_disposal_allocation_payload sample_allocation] 30 20 2 = Inr ()"
  using disposal_lineage_verifies [OF sample_result_constructed] by (simp add: sample_result_def)

section \<open>One lineage, one disposal\<close>

definition allocation_economics ::
  "source_lot_disposal_allocation \<Rightarrow> nat \<times> string \<times> string \<times> int \<times> rat \<times> rat \<times> rat \<times> json option" where
  "allocation_economics a =
     (allocation_ordinal a, source_lot_id a, source_transaction_id a, source_acquisition_date a,
      consumed_quantity a, consumed_cost_local a, consumed_cost_base a, map_option sort_keys (evidence_json a))"

text \<open>The ordinals of dates count from one.\<close>

definition ledger_amounts :: "source_lot_disposal_allocation \<Rightarrow> bool" where
  "ledger_amounts a \<longleftrightarrow>
     ledger_amount (consumed_cost_base a) \<and> ledger_amount (consumed_cost_local a) \<and> ledger_amount (consumed_quantity a) \<and>
     1 \<le> source_acquisition_date a \<and>
     pred_option (\<lambda>e. digestible_items (evidence_payload e)) (amortized_cost_evidence a)"

lemma ledger_amounts_ok: "ledger_amounts a \<Longrightarrow> allocation_amounts a"
  by (simp add: ledger_amounts_def allocation_amounts_def)

lemma same_allocation_json:
  assumes "ledger_amounts a" and "ledger_amounts b"
    and same: "sort_keys (JObj (allocation_json a)) = sort_keys (JObj (allocation_json b))"
  shows "allocation_economics a = allocation_economics b"
proof -
  have distinct: "distinct (map fst (allocation_json c))" for c by (simp add: allocation_json_def split: option.splits)
  note lookup = sort_keys_lookup [OF same distinct distinct]
  have "consumed_cost_base a = consumed_cost_base b" "consumed_cost_local a = consumed_cost_local b"
    "consumed_quantity a = consumed_quantity b"
    using lookup [of "''consumed_cost_base''"] lookup [of "''consumed_cost_local''"] lookup [of "''consumed_quantity''"]
      amount_json_inj assms(1,2) by (auto simp: allocation_json_def ledger_amounts_def simp del: sort_keys.simps)
  moreover have "map_option sort_keys (evidence_json a) = map_option sort_keys (evidence_json b)"
    using lookup [of "''amortized_cost_evidence''"]
    by (cases "evidence_json a"; cases "evidence_json b") (simp_all add: allocation_json_def del: sort_keys.simps)
  moreover have "date_isoformat (source_acquisition_date a) = date_isoformat (source_acquisition_date b)"
    using lookup [of "''source_acquisition_date''"] by (simp add: allocation_json_def)
  then have "source_acquisition_date a = source_acquisition_date b"
    using assms(1,2) by (intro date_isoformat_inj) (simp_all add: ledger_amounts_def)
  ultimately show ?thesis
    using lookup [of "''allocation_ordinal''"] lookup [of "''source_lot_id''"] lookup [of "''source_transaction_id''"]
    by (simp add: allocation_json_def allocation_economics_def)
qed

lemma same_allocations_json:
  "\<forall>a \<in> set as. ledger_amounts a \<Longrightarrow> \<forall>b \<in> set bs. ledger_amounts b \<Longrightarrow>
   map (\<lambda>a. sort_keys (JObj (allocation_json a))) as = map (\<lambda>a. sort_keys (JObj (allocation_json a))) bs \<Longrightarrow>
   map allocation_economics as = map allocation_economics bs"
proof (induction as arbitrary: bs)
  case (Cons a as)
  then obtain b bs' where "bs = b # bs'" by (cases bs) auto
  with Cons same_allocation_json show ?case by (auto simp del: sort_keys.simps)
qed simp

lemma verify_InrE:
  assumes "verify_active_lot_disposal_lineage (Some l) payloads b c q = Inr ()"
  obtains ip op where "disposal_lineage_input payloads = Inr ip" and "canonical_content_hash ip = Inr (input_content_hash l)"
    and "disposal_lineage_output b c q = Inr op"
    and "canonical_content_hash (output_envelope (calculation_content_hash l) op) = Inr (output_content_hash l)"
  using assms unfolding verify_active_lot_disposal_lineage_def calculation_lineage_binds_output_def
  by (auto simp: rbind_eq_Inr split: if_splits)

lemma same_disposal_inputs:
  assumes "disposal_lineage_input (map source_lot_disposal_allocation_payload as) = Inr p"
    and "disposal_lineage_input (map source_lot_disposal_allocation_payload as') = Inr p'"
    and amounts: "\<forall>a \<in> set as \<union> set as'. ledger_amounts a" and "same_content p p'"
  shows "map allocation_economics as = map allocation_economics as'"
proof -
  have "\<forall>a \<in> set as. allocation_amounts a" "\<forall>a \<in> set as'. allocation_amounts a"
    using amounts ledger_amounts_ok by auto
  then have "normalize_lineage_value p = Inr (JObj [(''allocations'', JArr (map (\<lambda>a. JObj (allocation_json a)) as))])"
    "normalize_lineage_value p' = Inr (JObj [(''allocations'', JArr (map (\<lambda>a. JObj (allocation_json a)) as'))])"
    using disposal_input_json [of as] disposal_input_json [of as'] assms(1,2) by simp_all
  then have "map (\<lambda>a. sort_keys (JObj (allocation_json a))) as = map (\<lambda>a. sort_keys (JObj (allocation_json a))) as'"
    using assms(4) by (simp add: same_content_def comp_def)
  then show ?thesis using same_allocations_json [of as as'] amounts by blast
qed

lemma same_disposal_outputs:
  assumes "disposal_lineage_output b c q = Inr p" and "disposal_lineage_output b' c' q' = Inr p'"
    and amounts: "ledger_amount b" "ledger_amount c" "ledger_amount q" "ledger_amount b'" "ledger_amount c'" "ledger_amount q'"
    and "same_content p p'"
  shows "b = b' \<and> c = c' \<and> q = q'"
proof -
  let ?json = "\<lambda>b c q. JObj [(''consumed_cost_base'', amount_json b), (''consumed_cost_local'', amount_json c), (''consumed_quantity'', amount_json q)]"
  have "normalize_lineage_value p = Inr (?json b c q)" "normalize_lineage_value p' = Inr (?json b' c' q')"
    using disposal_output_json [of b c q] disposal_output_json [of b' c' q'] assms by simp_all
  then have same: "sort_keys (?json b c q) = sort_keys (?json b' c' q')"
    using assms(9) by (simp add: same_content_def del: sort_keys.simps)
  note lookup = sort_keys_lookup [OF same]
  show ?thesis
    using lookup [of "''consumed_cost_base''"] lookup [of "''consumed_cost_local''"] lookup [of "''consumed_quantity''"]
      amount_json_inj amounts by (auto simp del: sort_keys.simps)
qed

text \<open>
  C30. One disposal lineage vouches for one disposal. When the verification accepts a lineage both for
  one set of allocations and totals and for another, all of them ledger amounts (at most ten decimal
  places, below the storage limit, with evidence that can be hashed), and neither the two input
  payloads nor the two output envelopes are a SHA-256 collision, then the allocations agree in every
  field the lineage hashes: their order, source lot and transaction, acquisition date, quantity, both
  costs and the content of their amortized-cost evidence; and the totals are equal. The original and
  the open quantity of the source, which an allocation also carries, are not part of the lineage.
\<close>

theorem disposal_lineage_tamper_evident:
  assumes "verify_active_lot_disposal_lineage (Some l) (map source_lot_disposal_allocation_payload as) b c q = Inr ()"
    and "verify_active_lot_disposal_lineage (Some l) (map source_lot_disposal_allocation_payload as') b' c' q' = Inr ()"
    and "\<forall>a \<in> set as \<union> set as'. ledger_amounts a"
    and "ledger_amount b" "ledger_amount c" "ledger_amount q" "ledger_amount b'" "ledger_amount c'" "ledger_amount q'"
    and "\<And>p p'. disposal_lineage_input (map source_lot_disposal_allocation_payload as) = Inr p \<Longrightarrow>
           disposal_lineage_input (map source_lot_disposal_allocation_payload as') = Inr p' \<Longrightarrow> \<not> collides p p'"
    and "\<And>p p'. disposal_lineage_output b c q = Inr p \<Longrightarrow> disposal_lineage_output b' c' q' = Inr p' \<Longrightarrow>
           \<not> collides (output_envelope (calculation_content_hash l) p) (output_envelope (calculation_content_hash l) p')"
  shows "map allocation_economics as = map allocation_economics as' \<and> b = b' \<and> c = c' \<and> q = q'"
proof -
  obtain ip op where v: "disposal_lineage_input (map source_lot_disposal_allocation_payload as) = Inr ip"
    "canonical_content_hash ip = Inr (input_content_hash l)" "disposal_lineage_output b c q = Inr op"
    "canonical_content_hash (output_envelope (calculation_content_hash l) op) = Inr (output_content_hash l)"
    using assms(1) by (elim verify_InrE)
  obtain ip' op' where v': "disposal_lineage_input (map source_lot_disposal_allocation_payload as') = Inr ip'"
    "canonical_content_hash ip' = Inr (input_content_hash l)" "disposal_lineage_output b' c' q' = Inr op'"
    "canonical_content_hash (output_envelope (calculation_content_hash l) op') = Inr (output_content_hash l)"
    using assms(2) by (elim verify_InrE)
  have inputs: "same_content ip ip'" and outputs: "same_content op op'"
    using equal_hashes_same_content [OF v(2) v'(2)] assms(10) [OF v(1) v'(1)]
      equal_hashes_same_content [OF v(4) v'(4)] assms(11) [OF v(3) v'(3)] same_output_envelope by blast+
  show ?thesis
    using same_disposal_inputs [OF v(1) v'(1) assms(3) inputs] same_disposal_outputs [OF v(3) v'(3) assms(4-9) outputs]
    by simp
qed

theorem disposal_lineage_tamper_evident_witness:
  "\<exists>l. verify_active_lot_disposal_lineage (Some l) (map source_lot_disposal_allocation_payload [sample_allocation]) 30 20 2 = Inr () \<and>
     map allocation_economics [sample_allocation] = map allocation_economics [sample_allocation]"
proof -
  obtain l where l: "verify_active_lot_disposal_lineage (Some l) (map source_lot_disposal_allocation_payload [sample_allocation]) 30 20 2 = Inr ()"
    using result_lineage_verifies [OF sample_result_constructed] by (auto simp: sample_result_def)
  have "\<not> collides p p'" if "m = Inr p" "m = Inr p'" for p p' and m :: "lineage_value res"
    using that by (simp add: collides_def split: sum.splits)
  then show ?thesis using disposal_lineage_tamper_evident [OF l l] l
    by (auto simp: ledger_amounts_def sample_allocation_def ledger_amount_iff collides_def split: sum.splits)
qed

section \<open>Version chains\<close>

text \<open>
  A chain in the declarative sense: one canonical identity, versions counted from one, digests as
  content hashes, every predecessor hash the content hash of the version before.
\<close>

definition chain_entry :: "string \<Rightarrow> int \<Rightarrow> string option \<Rightarrow> 'a receipt_header_scheme \<Rightarrow> bool" where
  "chain_entry rid version previous r \<longleftrightarrow>
     hd_receipt_id r = rid \<and> hd_receipt_version r = version \<and>
     require_sha256_digest (hd_receipt_content_hash r) [] = Inr (hd_receipt_content_hash r) \<and>
     hd_previous_receipt_content_hash r = previous"

definition linked_chain :: "'a receipt_header_scheme list \<Rightarrow> bool" where
  "linked_chain rs \<longleftrightarrow> rs \<noteq> [] \<and> hd_receipt_id (hd rs) \<noteq> [] \<and> py_strip (hd_receipt_id (hd rs)) = hd_receipt_id (hd rs) \<and>
     (\<forall>i < length rs. chain_entry (hd_receipt_id (hd rs)) (int i + 1)
        (if i = 0 then None else Some (hd_receipt_content_hash (rs ! (i - 1)))) (rs ! i))"

lemma digest_field_independent: "require_sha256_digest h f = Inr g \<longleftrightarrow> g = h \<and> require_sha256_digest h [] = Inr h"
  by (auto simp: require_sha256_digest_def)

lemma verify_chain_step:
  assumes "1 < v" and "rid \<noteq> []" "py_strip rid = rid" and "require_sha256_digest h [] = Inr h"
  shows "verify_chain_from v (Some rid) (Some h) (r # rs) = Inr () \<longleftrightarrow>
    chain_entry rid v (Some h) r \<and> verify_chain_from (v + 1) (Some rid) (Some (hd_receipt_content_hash r)) rs = Inr ()"
  using assms unfolding verify_chain_from.simps Let_def chain_entry_def require_present_digest_def
  by (auto simp: rbind_eq_Inr digest_field_independent [of _ "''receipt_content_hash''"]
      digest_field_independent [of _ "''previous_receipt_content_hash''"] simp del: verify_chain_from.simps split: option.splits)

lemma verify_chain_tail:
  assumes "1 < v" and "rid \<noteq> []" "py_strip rid = rid" and "require_sha256_digest h [] = Inr h"
  shows "verify_chain_from v (Some rid) (Some h) rs = Inr () \<longleftrightarrow>
    (\<forall>i < length rs. chain_entry rid (v + int i) (Some (if i = 0 then h else hd_receipt_content_hash (rs ! (i - 1)))) (rs ! i))"
  using assms
proof (induction rs arbitrary: v h)
  case (Cons r rs)
  let ?h = "hd_receipt_content_hash r"
  have entry: "chain_entry rid v (Some h) r \<Longrightarrow> require_sha256_digest ?h [] = Inr ?h" by (simp add: chain_entry_def)
  have "verify_chain_from v (Some rid) (Some h) (r # rs) = Inr () \<longleftrightarrow>
      chain_entry rid v (Some h) r \<and> verify_chain_from (v + 1) (Some rid) (Some ?h) rs = Inr ()"
    using Cons.prems by (rule verify_chain_step)
  also have "\<dots> \<longleftrightarrow> chain_entry rid v (Some h) r \<and> (\<forall>i < length rs. chain_entry rid (v + 1 + int i)
      (Some (if i = 0 then ?h else hd_receipt_content_hash (rs ! (i - 1)))) (rs ! i))"
    using Cons.IH [OF _ Cons.prems(2,3) entry, of "v + 1"] Cons.prems(1) by (intro conj_cong refl) simp
  also have "\<dots> \<longleftrightarrow> (\<forall>i < length (r # rs). chain_entry rid (v + int i)
      (Some (if i = 0 then h else hd_receipt_content_hash ((r # rs) ! (i - 1)))) ((r # rs) ! i))"
    by (simp add: All_less_Suc2 nth_Cons' add.assoc if_distrib [of hd_receipt_content_hash])
  finally show ?case .
qed simp

lemma verify_chain_linked:
  "verify_cost_basis_receipt_version_chain rs = Inr () \<longleftrightarrow> linked_chain rs"
proof (cases rs)
  case (Cons r rest)
  let ?rid = "hd_receipt_id r" and ?h = "hd_receipt_content_hash r"
  have "verify_cost_basis_receipt_version_chain rs = Inr () \<longleftrightarrow> ?rid \<noteq> [] \<and> py_strip ?rid = ?rid \<and>
      chain_entry ?rid 1 None r \<and> verify_chain_from 2 (Some ?rid) (Some ?h) rest = Inr ()"
    unfolding verify_cost_basis_receipt_version_chain_def Cons verify_chain_from.simps Let_def chain_entry_def
    by (auto simp: rbind_eq_Inr digest_field_independent [of _ "''receipt_content_hash''"] simp del: verify_chain_from.simps)
  also have "\<dots> \<longleftrightarrow> ?rid \<noteq> [] \<and> py_strip ?rid = ?rid \<and> chain_entry ?rid 1 None r \<and>
      (\<forall>i < length rest. chain_entry ?rid (2 + int i)
        (Some (if i = 0 then ?h else hd_receipt_content_hash (rest ! (i - 1)))) (rest ! i))"
    using verify_chain_tail [of 2 ?rid ?h rest] by (intro conj_cong refl) (simp add: chain_entry_def [of _ 1])
  also have "\<dots> \<longleftrightarrow> linked_chain rs"
    by (simp add: linked_chain_def Cons All_less_Suc2 nth_Cons' add.commute if_distrib [of hd_receipt_content_hash])
  finally show ?thesis .
qed (simp add: verify_cost_basis_receipt_version_chain_def linked_chain_def)

text \<open>
  C35. The chain check accepts exactly the linked chains: one canonical identity, versions counted
  from one without a gap, and every predecessor hash the content hash of the version before. So a
  version that is missing before the last one, repeated or out of order, or relinked, is noticed; a
  chain that lost its last versions is still linked, and the check accepts it.
\<close>

theorem verify_chain_exact:
  "verify_cost_basis_receipt_version_chain rs = Inr () \<longleftrightarrow> linked_chain rs"
  by (rule verify_chain_linked)

end
