(* ===== verification/Exact_Numeric.thy ===== *)
theory Exact_Numeric
  imports Lot_State
begin

text \<open>
  The numeric column type of the database models, \<open>ExactNumeric\<close> of \<open>financial_numeric.py\<close>: a bound
  value passes the exact persistence policy of the column or raises, so that the database never rounds.
  The dialect is PostgreSQL, and a bound value is a \<open>Decimal\<close>. What the check raises is the error of
  the policy; the database library may wrap it on its way to the caller.
\<close>

definition EXACT_UNBOUNDED :: precision_policy where
  "EXACT_UNBOUNDED = \<lparr>pp_name = ''exact-unbounded'', pp_bounds = None\<rparr>"

definition BOUNDED_18_10_EXACT :: precision_policy where
  "BOUNDED_18_10_EXACT = \<lparr>pp_name = ''bounded-18-10-exact'', pp_bounds = Some (18, 10)\<rparr>"

definition BOUNDED_18_4_EXACT :: precision_policy where
  "BOUNDED_18_4_EXACT = \<lparr>pp_name = ''bounded-18-4-exact'', pp_bounds = Some (18, 4)\<rparr>"

definition show_bound :: "int option \<Rightarrow> string" where
  "show_bound b = (case b of None \<Rightarrow> ''None'' | Some i \<Rightarrow> show_int i)"

definition column_precision_policy :: "int option \<Rightarrow> int option \<Rightarrow> precision_policy res" where
  "column_precision_policy precision scale =
     (if precision = None \<and> scale = None then Inr EXACT_UNBOUNDED
      else if precision = Some 18 \<and> scale = Some 10 then Inr BOUNDED_18_10_EXACT
      else if precision = Some 18 \<and> scale = Some 4 then Inr BOUNDED_18_4_EXACT
      else Inl (ValueError (''ExactNumeric requires a governed precision/scale policy; received ('' @
                  show_bound precision @ '', '' @ show_bound scale @ '')'')))"

definition process_bind_param :: "int option \<Rightarrow> int option \<Rightarrow> rat option \<Rightarrow> rat option res" where
  "process_bind_param precision scale value =
     (case value of
        None \<Rightarrow> Inr None
      | Some decimal_value \<Rightarrow>
          rbind (column_precision_policy precision scale) (\<lambda>policy.
          rbind (require_exact policy ''database numeric value'' decimal_value) (\<lambda>bound. Inr (Some bound))))"

text \<open>An \<open>ExactNumeric(18, 10)\<close> column takes exactly the ledger amounts, unchanged.\<close>

definition bind_refused :: "py_error \<Rightarrow> bool" where
  "bind_refused e \<longleftrightarrow>
     e = DecimalPrecisionError ''database numeric value'' EXCESS_SCALE ''bounded-18-10-exact'' \<or>
     e = DecimalPrecisionError ''database numeric value'' MAGNITUDE_OVERFLOW ''bounded-18-10-exact''"

lemma bind_ledger_amount:
  "pred_option ledger_amount v \<Longrightarrow> process_bind_param (Some 18) (Some 10) v = Inr v"
  by (cases v) (auto simp: process_bind_param_def column_precision_policy_def BOUNDED_18_10_EXACT_def
      require_exact_def storable_def)

lemma bind_not_ledger_amount:
  assumes "\<not> pred_option ledger_amount v"
  shows "\<exists>e. process_bind_param (Some 18) (Some 10) v = Inl e \<and> bind_refused e"
  using assms by (cases v) (auto simp: process_bind_param_def column_precision_policy_def BOUNDED_18_10_EXACT_def
      require_exact_def storable_def bind_refused_def)

end
