(* ===== verification/Receipt_Ledger.thy ===== *)
theory Receipt_Ledger
  imports Lot_Disposal_Receipt Receipt_Properties Exact_Numeric
begin

text \<open>
  The append-only ledger of lot-disposal receipts: the row builders, the reconstruction and
  verification of persisted rows, and \<open>reconcile_disposal_receipts\<close> of
  \<open>infrastructure/cost_basis/lot_disposal_repository.py\<close>. A column returns the value that was bound
  to it: an amount by value (the numeric columns refuse what they would round), a timestamp with the
  offset it was written with (the disposal date of amortized-cost evidence is read from it), a lineage
  payload with its keys in order.
\<close>

section \<open>Rows\<close>

record receipt_row = receipt_header +
  row_semantic_content_hash :: string
  row_allocation_count :: int
  row_disposal_transaction_id :: string
  row_portfolio_id :: string
  row_instrument_id :: string
  row_security_id :: string
  row_disposal_timestamp :: py_datetime
  row_transaction_type :: string
  row_cost_basis_method :: string
  row_calculation_policy_id :: "string option"
  row_calculation_policy_version :: "string option"
  row_transaction_calculation_lineage :: lineage_value
  row_status :: string
  row_consumed_quantity :: rat
  row_consumed_cost_local :: rat
  row_consumed_cost_base :: rat
  row_disposal_calculation_lineage :: lineage_value
  row_destination_type :: "string option"
  row_target_transaction_id :: "string option"
  row_target_lot_id :: "string option"
  row_target_instrument_id :: "string option"
  row_external_destination_reference :: "string option"
  row_void_reason :: "string option"

record allocation_row =
  ar_receipt_id :: string
  ar_receipt_version :: int
  ar_portfolio_id :: string
  ar_security_id :: string
  ar_allocation_ordinal :: nat
  ar_source_lot_id :: string
  ar_source_transaction_id :: string
  ar_source_acquisition_date :: int
  ar_consumed_quantity :: rat
  ar_consumed_cost_local :: rat
  ar_consumed_cost_base :: rat
  ar_allocation_content_hash :: string
  ar_amortized_profile_id :: "string option"
  ar_amortized_profile_version :: "int option"
  ar_amortized_profile_content_hash :: "string option"
  ar_amortized_currency :: "string option"
  ar_amortized_recognized_through :: "int option"
  ar_amortized_original_quantity :: "rat option"
  ar_amortized_open_quantity_before :: "rat option"
  ar_amortized_residual_quantity :: "rat option"
  ar_amortized_scheduled_local :: "rat option"
  ar_amortized_current_local :: "rat option"
  ar_amortized_current_base :: "rat option"
  ar_amortized_residual_local :: "rat option"
  ar_amortized_book_fx_rate_to_base :: "rat option"
  ar_amortized_residual_base :: "rat option"
  ar_amortized_retained_rounding_local :: "rat option"
  ar_amortized_retained_rounding_base :: "rat option"
  ar_amortized_calculation_lineage :: lineage_value

record receipt_ledger =
  receipt_rows :: "receipt_row list"
  allocation_rows :: "allocation_row list"

definition receipt_content_hash :: "lot_disposal_receipt_state \<Rightarrow> int \<Rightarrow> string option \<Rightarrow> string res" where
  "receipt_content_hash s receipt_version previous =
     receipt_version_content_hash (rs_receipt_id s) (rs_semantic_content_hash s) receipt_version previous"

definition allocation_content_hash :: "string \<Rightarrow> source_lot_disposal_allocation \<Rightarrow> string res" where
  "allocation_content_hash receipt_id a =
     rbind (canonical_cost_basis_output_payload
              (source_lot_disposal_allocation_payload a @ [(Some ''receipt_id'', LStr receipt_id)])) canonical_content_hash"

definition header_values :: "lot_disposal_receipt_state \<Rightarrow> int \<Rightarrow> string option \<Rightarrow> string \<Rightarrow> receipt_row" where
  "header_values s receipt_version previous content_hash =
     \<lparr>hd_receipt_id = rs_receipt_id s, hd_receipt_version = receipt_version,
      hd_receipt_content_hash = content_hash, hd_previous_receipt_content_hash = previous,
      row_semantic_content_hash = rs_semantic_content_hash s,
      row_allocation_count = int (length (rs_allocations s)),
      row_disposal_transaction_id = rs_disposal_transaction_id s,
      row_portfolio_id = rs_portfolio_id s, row_instrument_id = rs_instrument_id s,
      row_security_id = rs_security_id s, row_disposal_timestamp = rs_disposal_timestamp s,
      row_transaction_type = rs_transaction_type s,
      row_cost_basis_method = method_value (rs_cost_basis_method s),
      row_calculation_policy_id = rs_calculation_policy_id s,
      row_calculation_policy_version = rs_calculation_policy_version s,
      row_transaction_calculation_lineage = lineage_payload_of (rs_transaction_calculation_lineage s),
      row_status = status_value (rs_status s), row_consumed_quantity = rs_consumed_quantity s,
      row_consumed_cost_local = rs_consumed_cost_local s, row_consumed_cost_base = rs_consumed_cost_base s,
      row_disposal_calculation_lineage =
        (case rs_disposal_calculation_lineage s of None \<Rightarrow> LNone | Some l \<Rightarrow> lineage_payload_of l),
      row_destination_type = map_option (destination_type_value \<circ> dd_type) (rs_destination s),
      row_target_transaction_id = Option.bind (rs_destination s) dd_target_transaction_id,
      row_target_lot_id = Option.bind (rs_destination s) dd_target_lot_id,
      row_target_instrument_id = Option.bind (rs_destination s) dd_target_instrument_id,
      row_external_destination_reference = Option.bind (rs_destination s) dd_external_destination_reference,
      row_void_reason = rs_void_reason s\<rparr>"

definition allocation_row_of ::
  "lot_disposal_receipt_state \<Rightarrow> int \<Rightarrow> source_lot_disposal_allocation \<Rightarrow> string \<Rightarrow> allocation_row" where
  "allocation_row_of s receipt_version a content_hash =
         \<lparr>ar_receipt_id = rs_receipt_id s, ar_receipt_version = receipt_version,
          ar_portfolio_id = rs_portfolio_id s, ar_security_id = rs_security_id s,
          ar_allocation_ordinal = allocation_ordinal a, ar_source_lot_id = source_lot_id a,
          ar_source_transaction_id = source_transaction_id a,
          ar_source_acquisition_date = source_acquisition_date a,
          ar_consumed_quantity = consumed_quantity a, ar_consumed_cost_local = consumed_cost_local a,
          ar_consumed_cost_base = consumed_cost_base a, ar_allocation_content_hash = content_hash,
          ar_amortized_profile_id = map_option ace_profile_id (amortized_cost_evidence a),
          ar_amortized_profile_version = map_option ace_profile_version (amortized_cost_evidence a),
          ar_amortized_profile_content_hash = map_option ace_profile_content_hash (amortized_cost_evidence a),
          ar_amortized_currency = map_option ace_currency (amortized_cost_evidence a),
          ar_amortized_recognized_through = map_option ace_recognized_through_date (amortized_cost_evidence a),
          ar_amortized_original_quantity = map_option ace_original_quantity (amortized_cost_evidence a),
          ar_amortized_open_quantity_before = map_option ace_open_quantity_before (amortized_cost_evidence a),
          ar_amortized_residual_quantity = map_option ace_residual_quantity (amortized_cost_evidence a),
          ar_amortized_scheduled_local = map_option ace_scheduled_cost_local (amortized_cost_evidence a),
          ar_amortized_current_local = map_option ace_current_cost_local (amortized_cost_evidence a),
          ar_amortized_current_base = map_option ace_current_cost_base (amortized_cost_evidence a),
          ar_amortized_residual_local = map_option ace_residual_cost_local (amortized_cost_evidence a),
          ar_amortized_book_fx_rate_to_base = map_option ace_book_cost_fx_rate_to_base (amortized_cost_evidence a),
          ar_amortized_residual_base = map_option ace_residual_cost_base (amortized_cost_evidence a),
          ar_amortized_retained_rounding_local = map_option ace_retained_rounding_residual_local (amortized_cost_evidence a),
          ar_amortized_retained_rounding_base = map_option ace_retained_rounding_residual_base (amortized_cost_evidence a),
          ar_amortized_calculation_lineage =
            (case amortized_cost_evidence a of None \<Rightarrow> LNone | Some e \<Rightarrow> lineage_payload_of (ace_calculation_lineage e))\<rparr>"

definition allocation_value :: "lot_disposal_receipt_state \<Rightarrow> int \<Rightarrow> source_lot_disposal_allocation \<Rightarrow> allocation_row res" where
  "allocation_value s receipt_version a =
     rbind (allocation_content_hash (rs_receipt_id s) a) (\<lambda>content_hash.
     Inr (allocation_row_of s receipt_version a content_hash))"

definition allocation_values :: "lot_disposal_receipt_state \<Rightarrow> int \<Rightarrow> allocation_row list res" where
  "allocation_values s receipt_version = rmap (allocation_value s receipt_version) (rs_allocations s)"

section \<open>Reconstruction\<close>

text \<open>\<open>required_calculation_lineage\<close> of \<open>receipt_integrity.py\<close>.\<close>

definition required_calculation_lineage :: "lineage_value \<Rightarrow> string \<Rightarrow> calculation_lineage res" where
  "required_calculation_lineage payload field_name =
     rbind (calculation_lineage_from_payload payload) (\<lambda>l.
     case l of None \<Rightarrow> Inl (ValueError (field_name @ '' is required'')) | Some l \<Rightarrow> Inr l)"

text \<open>Whether the columns of the amortized-cost evidence are null, in their order.\<close>

definition amortized_columns_null :: "allocation_row \<Rightarrow> bool list" where
  "amortized_columns_null r =
     [ar_amortized_profile_id r = None,
      ar_amortized_profile_version r = None,
      ar_amortized_profile_content_hash r = None,
      ar_amortized_currency r = None,
      ar_amortized_recognized_through r = None,
      ar_amortized_original_quantity r = None,
      ar_amortized_open_quantity_before r = None,
      ar_amortized_residual_quantity r = None,
      ar_amortized_scheduled_local r = None,
      ar_amortized_current_local r = None,
      ar_amortized_current_base r = None,
      ar_amortized_residual_local r = None,
      ar_amortized_book_fx_rate_to_base r = None,
      ar_amortized_residual_base r = None,
      ar_amortized_retained_rounding_local r = None,
      ar_amortized_retained_rounding_base r = None,
      ar_amortized_calculation_lineage r = LNone]"

definition amortized_cost_evidence_from ::
  "receipt_row \<Rightarrow> allocation_row \<Rightarrow> amortized_cost_allocation_evidence option res" where
  "amortized_cost_evidence_from receipt r =
     (if list_all id (amortized_columns_null r) then Inr None
      else if list_ex id (amortized_columns_null r)
      then Inl (ValueError ''amortized-cost allocation evidence is only partially persisted'')
      else
        rbind (required_calculation_lineage (ar_amortized_calculation_lineage r)
                 ''amortized-cost allocation calculation lineage'') (\<lambda>lineage.
        rbind (AmortizedCostAllocationEvidence
                 \<lparr>ace_profile_id = the (ar_amortized_profile_id r),
                  ace_profile_version = the (ar_amortized_profile_version r),
                  ace_profile_content_hash = the (ar_amortized_profile_content_hash r),
                  ace_currency = the (ar_amortized_currency r),
                  ace_disposal_date = date_ordinal (local_us (row_disposal_timestamp receipt)),
                  ace_recognized_through_date = the (ar_amortized_recognized_through r),
                  ace_original_quantity = the (ar_amortized_original_quantity r),
                  ace_open_quantity_before = the (ar_amortized_open_quantity_before r),
                  ace_consumed_quantity = ar_consumed_quantity r,
                  ace_residual_quantity = the (ar_amortized_residual_quantity r),
                  ace_scheduled_cost_local = the (ar_amortized_scheduled_local r),
                  ace_current_cost_local = the (ar_amortized_current_local r),
                  ace_current_cost_base = the (ar_amortized_current_base r),
                  ace_consumed_cost_local = ar_consumed_cost_local r,
                  ace_residual_cost_local = the (ar_amortized_residual_local r),
                  ace_book_cost_fx_rate_to_base = the (ar_amortized_book_fx_rate_to_base r),
                  ace_consumed_cost_base = ar_consumed_cost_base r,
                  ace_residual_cost_base = the (ar_amortized_residual_base r),
                  ace_retained_rounding_residual_local = the (ar_amortized_retained_rounding_local r),
                  ace_retained_rounding_residual_base = the (ar_amortized_retained_rounding_base r),
                  ace_calculation_lineage = lineage\<rparr>) (\<lambda>e.
        Inr (Some e))))"

definition verified_allocation :: "receipt_row \<Rightarrow> allocation_row \<Rightarrow> source_lot_disposal_allocation res" where
  "verified_allocation receipt r =
     rbind (require (\<not> (ar_portfolio_id r \<noteq> row_portfolio_id receipt \<or> ar_security_id r \<noteq> row_security_id receipt))
              (ValueError ''allocation scope differs from receipt scope'')) (\<lambda>_.
     rbind (amortized_cost_evidence_from receipt r) (\<lambda>evidence.
     rbind (SourceLotDisposalAllocation
              \<lparr>source_lot_id = ar_source_lot_id r, source_transaction_id = ar_source_transaction_id r,
               source_acquisition_date = ar_source_acquisition_date r,
               allocation_ordinal = ar_allocation_ordinal r, consumed_quantity = ar_consumed_quantity r,
               consumed_cost_local = ar_consumed_cost_local r, consumed_cost_base = ar_consumed_cost_base r,
               source_original_quantity = None, source_open_quantity_before = None,
               amortized_cost_evidence = evidence\<rparr>) (\<lambda>a.
     rbind (allocation_content_hash (hd_receipt_id receipt) a) (\<lambda>expected.
     rbind (require (ar_allocation_content_hash r = expected)
              (ValueError ''allocation content hash does not match reconstructed content'')) (\<lambda>_.
     Inr a)))))"

definition parse_method :: "string \<Rightarrow> cost_basis_method res" where
  "parse_method v =
     (if v = ''FIFO'' then Inr FIFO else if v = ''AVCO'' then Inr AVCO
      else Inl (ValueError (v @ '' is not a valid CostBasisMethod'')))"

definition parse_status :: "string \<Rightarrow> receipt_status res" where
  "parse_status v =
     (if v = ''ACTIVE'' then Inr ACTIVE else if v = ''VOIDED'' then Inr VOIDED
      else Inl (ValueError (v @ '' is not a valid LotDisposalReceiptStatus'')))"

definition parse_destination_type :: "string \<Rightarrow> destination_type res" where
  "parse_destination_type v =
     (if v = ''INTERNAL_LOT'' then Inr INTERNAL_LOT else if v = ''EXTERNAL_TRANSFER'' then Inr EXTERNAL_TRANSFER
      else Inl (ValueError (v @ '' is not a valid LotDisposalDestinationType'')))"

definition destination_from_record :: "receipt_row \<Rightarrow> lot_disposal_destination option res" where
  "destination_from_record r =
     (if row_destination_type r = None \<and> row_target_transaction_id r = None \<and> row_target_lot_id r = None \<and>
         row_target_instrument_id r = None \<and> row_external_destination_reference r = None
      then Inr None
      else case row_destination_type r of
             None \<Rightarrow> Inl (ValueError ''lot-disposal destination discriminator is missing'')
           | Some type_text \<Rightarrow>
               rbind (parse_destination_type type_text) (\<lambda>type.
               rbind (LotDisposalDestination
                        \<lparr>dd_type = type, dd_target_transaction_id = row_target_transaction_id r,
                         dd_target_lot_id = row_target_lot_id r, dd_target_instrument_id = row_target_instrument_id r,
                         dd_external_destination_reference = row_external_destination_reference r\<rparr>) (\<lambda>d.
               Inr (Some d))))"

definition reconstructed_state ::
  "receipt_row \<Rightarrow> allocation_row list \<Rightarrow> receipt_row option \<Rightarrow> lot_disposal_receipt_state res" where
  "reconstructed_state r allocations previous =
     rbind (if hd_receipt_version r = 1 then
              require (\<not> (hd_previous_receipt_content_hash r \<noteq> None \<or> previous \<noteq> None))
                (ValueError ''first receipt version cannot have a predecessor'')
            else case previous of
                   None \<Rightarrow> Inl (ValueError ''receipt version chain has a missing predecessor'')
                 | Some p \<Rightarrow>
                     require (hd_previous_receipt_content_hash r = Some (hd_receipt_content_hash p))
                       (ValueError ''receipt version chain hash does not match predecessor'')) (\<lambda>_.
     rbind (parse_method (row_cost_basis_method r)) (\<lambda>method.
     rbind (required_calculation_lineage (row_transaction_calculation_lineage r)
              ''transaction calculation lineage'') (\<lambda>transaction_lineage.
     rbind (parse_status (row_status r)) (\<lambda>status.
     rbind (rmap (verified_allocation r) allocations) (\<lambda>as.
     rbind (if row_disposal_calculation_lineage r = LNone then Inr None
            else rbind (required_calculation_lineage (row_disposal_calculation_lineage r)
                          ''disposal calculation lineage'') (\<lambda>l. Inr (Some l))) (\<lambda>disposal_lineage.
     rbind (destination_from_record r) (\<lambda>destination.
     rbind (LotDisposalReceiptState
              \<lparr>rs_disposal_transaction_id = row_disposal_transaction_id r, rs_portfolio_id = row_portfolio_id r,
               rs_instrument_id = row_instrument_id r, rs_security_id = row_security_id r,
               rs_disposal_timestamp = row_disposal_timestamp r, rs_transaction_type = row_transaction_type r,
               rs_cost_basis_method = method, rs_calculation_policy_id = row_calculation_policy_id r,
               rs_calculation_policy_version = row_calculation_policy_version r,
               rs_transaction_calculation_lineage = transaction_lineage, rs_status = status,
               rs_consumed_quantity = row_consumed_quantity r, rs_consumed_cost_local = row_consumed_cost_local r,
               rs_consumed_cost_base = row_consumed_cost_base r, rs_allocations = as,
               rs_disposal_calculation_lineage = disposal_lineage, rs_destination = destination,
               rs_void_reason = row_void_reason r, rs_receipt_id = [], rs_semantic_content_hash = []\<rparr>) (\<lambda>s.
     rbind (require (row_allocation_count r = int (length (rs_allocations s)))
              (ValueError ''receipt allocation count does not match child rows'')) (\<lambda>_.
     rbind (require (hd_receipt_id r = rs_receipt_id s)
              (ValueError ''receipt identity does not match reconstructed scope'')) (\<lambda>_.
     rbind (require (row_semantic_content_hash r = rs_semantic_content_hash s)
              (ValueError ''receipt semantic hash does not match reconstructed content'')) (\<lambda>_.
     rbind (receipt_content_hash s (hd_receipt_version r) (hd_previous_receipt_content_hash r)) (\<lambda>expected.
     rbind (require (hd_receipt_content_hash r = expected)
              (ValueError ''receipt content hash does not match reconstructed version'')) (\<lambda>_.
     rbind (if rs_status s = ACTIVE then
              verify_active_lot_disposal_lineage (rs_disposal_calculation_lineage s)
                (map source_lot_disposal_allocation_payload (rs_allocations s))
                (rs_consumed_cost_base s) (rs_consumed_cost_local s) (rs_consumed_quantity s)
            else Inr ()) (\<lambda>_.
     Inr s))))))))))))))"

definition is_type_or_value_error :: "py_error \<Rightarrow> bool" where
  "is_type_or_value_error e \<longleftrightarrow> is_value_error e \<or> (case e of TypeError _ \<Rightarrow> True | _ \<Rightarrow> False)"

definition verified_state ::
  "receipt_row \<Rightarrow> allocation_row list \<Rightarrow> receipt_row option \<Rightarrow> lot_disposal_receipt_state res" where
  "verified_state r allocations previous =
     (case reconstructed_state r allocations previous of
        Inr s \<Rightarrow> Inr s
      | Inl e \<Rightarrow>
          if is_type_or_value_error e
          then Inl (CorruptLotDisposalReceiptError (''persisted lot-disposal receipt is corrupt: '' @ hd_receipt_id r))
          else Inl e)"

section \<open>Reconciliation\<close>

definition validate_candidate_batch :: "lot_disposal_receipt_state list \<Rightarrow> unit res" where
  "validate_candidate_batch states =
     rbind (require (distinct (map rs_receipt_id states))
              (ValueError ''receipt batch contains duplicate receipt identities'')) (\<lambda>_.
     require (distinct (map rs_disposal_transaction_id states))
       (ValueError ''receipt batch contains duplicate transaction identities''))"

definition load_receipt_chain :: "receipt_ledger \<Rightarrow> string \<Rightarrow> receipt_row list" where
  "load_receipt_chain ledger tid =
     sort_key hd_receipt_version (filter (\<lambda>r. row_disposal_transaction_id r = tid) (receipt_rows ledger))"

definition load_allocations :: "receipt_ledger \<Rightarrow> receipt_row \<Rightarrow> allocation_row list" where
  "load_allocations ledger r =
     sort_key ar_allocation_ordinal
       (filter (\<lambda>a. ar_receipt_id a = hd_receipt_id r \<and> ar_receipt_version a = hd_receipt_version r)
          (allocation_rows ledger))"

definition chain_predecessor :: "receipt_row list \<Rightarrow> nat \<Rightarrow> receipt_row option" where
  "chain_predecessor chain i = (if i = 0 then None else Some (chain ! (i - 1)))"

definition verify_loaded_chain ::
  "receipt_ledger \<Rightarrow> string \<Rightarrow> receipt_row list \<Rightarrow> (receipt_row \<times> lot_disposal_receipt_state) res" where
  "verify_loaded_chain ledger tid chain =
     (case rbind (verify_cost_basis_receipt_version_chain chain) (\<lambda>_.
           rmap (\<lambda>i. verified_state (chain ! i) (load_allocations ledger (chain ! i)) (chain_predecessor chain i))
             [0..<length chain]) of
        Inr states \<Rightarrow> Inr (last chain, last states)
      | Inl e \<Rightarrow>
          if is_value_error e
          then Inl (CorruptLotDisposalReceiptError (''persisted lot-disposal receipt is corrupt: '' @ tid))
          else Inl e)"

text \<open>The verified head of every chain that exists for the batch, in the order of the query.\<close>

definition verified_latest ::
  "receipt_ledger \<Rightarrow> string list \<Rightarrow> (string \<times> receipt_row \<times> lot_disposal_receipt_state) list res" where
  "verified_latest ledger tids =
     rmap (\<lambda>tid. rbind (verify_loaded_chain ledger tid (load_receipt_chain ledger tid)) (\<lambda>head. Inr (tid, head)))
       (filter (\<lambda>tid. load_receipt_chain ledger tid \<noteq> []) (sort tids))"

definition require_same_receipt_identity ::
  "lot_disposal_receipt_state \<Rightarrow> lot_disposal_receipt_state \<Rightarrow> unit res" where
  "require_same_receipt_identity existing candidate =
     require (\<not> (rs_receipt_id existing \<noteq> rs_receipt_id candidate \<or>
                rs_disposal_transaction_id existing \<noteq> rs_disposal_transaction_id candidate \<or>
                rs_portfolio_id existing \<noteq> rs_portfolio_id candidate \<or>
                rs_security_id existing \<noteq> rs_security_id candidate))
       (CorruptLotDisposalReceiptError ''receipt identity changed across versions'')"

text \<open>Aware instants are equal when they denote one UTC instant, also inside a compared payload.\<close>

fun at_utc :: "'d payload_value \<Rightarrow> 'd payload_value" where
  "at_utc (LDatetime t) = (case utc_offset t of None \<Rightarrow> LDatetime t | Some _ \<Rightarrow> LDatetime (Py_Datetime (utc_us t) (Some 0)))"
| "at_utc (LMap items) = LMap (map (\<lambda>item. (fst item, at_utc (snd item))) items)"
| "at_utc (LSeq vs) = LSeq (map at_utc vs)"
| "at_utc v = v"

text \<open>The version and predecessor hash to append, or nothing for an exact replay and for a void of a
  receipt that never existed.\<close>

definition next_version ::
  "(receipt_row \<times> lot_disposal_receipt_state) option \<Rightarrow> lot_disposal_receipt_state \<Rightarrow> (int \<times> string option) option res" where
  "next_version prior s =
     (case prior of
        None \<Rightarrow> Inr (if rs_status s = VOIDED then None else Some (1, None))
      | Some (prior_record, prior_state) \<Rightarrow>
          rbind (require_same_receipt_identity prior_state s) (\<lambda>_.
          if rs_semantic_content_hash prior_state = rs_semantic_content_hash s then
            rbind (semantic_payload prior_state) (\<lambda>p.
            rbind (semantic_payload s) (\<lambda>q.
            rbind (require (at_utc p = at_utc q)
                     (CorruptLotDisposalReceiptError
                        (''receipt semantic hash matched different reconstructed content: '' @ rs_receipt_id s))) (\<lambda>_.
            Inr None)))
          else Inr (Some (hd_receipt_version prior_record + 1, Some (hd_receipt_content_hash prior_record)))))"

definition append_rows ::
  "(receipt_row \<times> lot_disposal_receipt_state) option \<Rightarrow> lot_disposal_receipt_state \<Rightarrow>
   (receipt_row list \<times> allocation_row list) res" where
  "append_rows prior s =
     rbind (next_version prior s) (\<lambda>next.
     case next of
       None \<Rightarrow> Inr ([], [])
     | Some (receipt_version, previous) \<Rightarrow>
         rbind (receipt_content_hash s receipt_version previous) (\<lambda>content_hash.
         rbind (allocation_values s receipt_version) (\<lambda>allocations.
         Inr ([header_values s receipt_version previous content_hash], allocations))))"

text \<open>The amounts of a row, as they are bound to its \<open>ExactNumeric(18, 10)\<close> columns.\<close>

definition receipt_amount_columns :: "receipt_row \<Rightarrow> rat option list" where
  "receipt_amount_columns r =
     [Some (row_consumed_quantity r), Some (row_consumed_cost_local r), Some (row_consumed_cost_base r)]"

definition allocation_amount_columns :: "allocation_row \<Rightarrow> rat option list" where
  "allocation_amount_columns a =
     [Some (ar_consumed_quantity a), Some (ar_consumed_cost_local a), Some (ar_consumed_cost_base a),
      ar_amortized_original_quantity a, ar_amortized_open_quantity_before a, ar_amortized_residual_quantity a,
      ar_amortized_scheduled_local a, ar_amortized_current_local a, ar_amortized_current_base a,
      ar_amortized_residual_local a, ar_amortized_book_fx_rate_to_base a, ar_amortized_residual_base a,
      ar_amortized_retained_rounding_local a, ar_amortized_retained_rounding_base a]"

text \<open>The two inserts, in the transaction of the caller: a refused allocation row leaves the header
  rows of the first insert in it, for the caller to roll back.\<close>

definition insert_rows ::
  "receipt_row list \<times> allocation_row list \<Rightarrow> receipt_ledger \<Rightarrow> (unit, receipt_ledger) outcome" where
  "insert_rows rows ledger =
     (if fst rows = [] then (Inr (), ledger)
      else case rmap (process_bind_param (Some 18) (Some 10)) (concat (map receipt_amount_columns (fst rows))) of
             Inl e \<Rightarrow> (Inl e, ledger)
           | Inr _ \<Rightarrow>
               (let ledger' = ledger\<lparr>receipt_rows := receipt_rows ledger @ fst rows\<rparr> in
                case rmap (process_bind_param (Some 18) (Some 10)) (concat (map allocation_amount_columns (snd rows))) of
                  Inl e \<Rightarrow> (Inl e, ledger')
                | Inr _ \<Rightarrow> (Inr (), ledger'\<lparr>allocation_rows := allocation_rows ledger @ snd rows\<rparr>)))"

definition reconcile_disposal_receipts ::
  "lot_disposal_receipt_state list \<Rightarrow> receipt_ledger \<Rightarrow> (unit, receipt_ledger) outcome" where
  "reconcile_disposal_receipts states ledger =
     (if states = [] then (Inr (), ledger)
      else case rbind (validate_candidate_batch states) (\<lambda>_.
                rbind (verified_latest ledger (map rs_disposal_transaction_id states)) (\<lambda>latest.
                rmap (\<lambda>s. append_rows (map_of latest (rs_disposal_transaction_id s)) s) states)) of
             Inl e \<Rightarrow> (Inl e, ledger)
           | Inr appended \<Rightarrow>
               insert_rows (concat (map fst appended), concat (map snd appended)) ledger)"

end
