(* ===== verification/Receipt_Reconciliation.thy ===== *)
theory Receipt_Reconciliation
  imports Receipt_Roundtrip Transaction_Ordering
begin

text \<open>
  Reconciling a batch of disposal receipts: in a ledger whose chains verify, every success leaves a
  ledger whose chains verify, only appends, and makes the same batch an exact replay.
\<close>

section \<open>Verified heads\<close>

definition chain_head :: "receipt_ledger \<Rightarrow> string \<Rightarrow> (receipt_row \<times> lot_disposal_receipt_state) option res" where
  "chain_head L tid =
     (if load_receipt_chain L tid = [] then Inr None
      else rbind (verify_loaded_chain L tid (load_receipt_chain L tid)) (\<lambda>head. Inr (Some head)))"

definition ledger_ok :: "receipt_ledger \<Rightarrow> bool" where
  "ledger_ok L \<longleftrightarrow>
     (\<forall>tid. \<exists>head. chain_head L tid = Inr head) \<and>
     (\<forall>r \<in> set (receipt_rows L). \<forall>q \<in> set (receipt_rows L).
        hd_receipt_id r = hd_receipt_id q \<longrightarrow> row_disposal_transaction_id r = row_disposal_transaction_id q) \<and>
     (\<forall>a \<in> set (allocation_rows L). \<exists>r \<in> set (receipt_rows L).
        hd_receipt_id r = ar_receipt_id a \<and> hd_receipt_version r = ar_receipt_version a)"

lemma ledger_okD:
  assumes "ledger_ok L"
  shows "\<exists>head. chain_head L tid = Inr head"
    "a \<in> set (allocation_rows L) \<Longrightarrow> \<exists>r \<in> set (receipt_rows L).
       hd_receipt_id r = ar_receipt_id a \<and> hd_receipt_version r = ar_receipt_version a"
    "q \<in> set (receipt_rows L) \<Longrightarrow> p \<in> set (receipt_rows L) \<Longrightarrow> hd_receipt_id q = hd_receipt_id p \<Longrightarrow>
       row_disposal_transaction_id q = row_disposal_transaction_id p"
  using assms unfolding ledger_ok_def by blast+

definition receipt_id_owned :: "receipt_ledger \<Rightarrow> lot_disposal_receipt_state \<Rightarrow> bool" where
  "receipt_id_owned L s \<longleftrightarrow>
     (\<forall>r \<in> set (receipt_rows L). hd_receipt_id r = rs_receipt_id s \<longrightarrow> row_disposal_transaction_id r = rs_disposal_transaction_id s)"

definition extended :: "receipt_ledger \<Rightarrow> receipt_row list \<times> allocation_row list \<Rightarrow> receipt_ledger" where
  "extended L rows = L\<lparr>receipt_rows := receipt_rows L @ fst rows, allocation_rows := allocation_rows L @ snd rows\<rparr>"

lemma in_chain: "r \<in> set (load_receipt_chain L tid) \<longleftrightarrow> r \<in> set (receipt_rows L) \<and> row_disposal_transaction_id r = tid"
  by (simp add: load_receipt_chain_def)

lemma verify_loaded_chain_Inr:
  "verify_loaded_chain L tid chain = Inr head \<longleftrightarrow>
   linked_chain chain \<and> (\<exists>states.
     rmap (\<lambda>i. verified_state (chain ! i) (load_allocations L (chain ! i)) (chain_predecessor chain i)) [0..<length chain] =
       Inr states \<and> head = (last chain, last states))"
  by (auto simp: verify_loaded_chain_def verify_chain_linked [symmetric] rbind_def split: sum.splits)

lemma rmap_append: "rmap f (xs @ ys) = rbind (rmap f xs) (\<lambda>as. rbind (rmap f ys) (\<lambda>bs. Inr (as @ bs)))"
  by (induction xs) (auto simp: rbind_def split: sum.splits)

lemma verified_state_id: "verified_state r as p = Inr s \<Longrightarrow> rs_receipt_id s = hd_receipt_id r"
  by (auto simp: verified_state_def reconstructed_state_def rbind_eq_Inr split: sum.splits if_splits)

lemma chain_head_Some:
  assumes "chain_head L tid = Inr (Some (r, s))"
  defines "chain \<equiv> load_receipt_chain L tid"
  shows "linked_chain chain" "r = last chain" "chain \<noteq> []" "hd_receipt_version r = int (length chain)"
    "hd_receipt_id r = rs_receipt_id s" "hd_receipt_id r = hd_receipt_id (hd chain)"
proof -
  have ne: "chain \<noteq> []" using assms by (auto simp: chain_head_def)
  then have "verify_loaded_chain L tid chain = Inr (r, s)" using assms by (auto simp: chain_head_def rbind_eq_Inr)
  then obtain states where chain: "linked_chain chain" and r: "r = last chain" and s: "s = last states"
    and states: "rmap (\<lambda>i. verified_state (chain ! i) (load_allocations L (chain ! i)) (chain_predecessor chain i))
      [0..<length chain] = Inr states"
    by (auto simp: verify_loaded_chain_Inr)
  obtain n where n: "length chain = Suc n" using ne by (cases chain) auto
  have "length states = Suc n" using rmap_Inr_length [OF states] n by simp
  then have "verified_state (last chain) (load_allocations L (last chain)) (chain_predecessor chain n) = Inr s"
    using list_all2_nthD2 [OF rmap_Inr_list_all2 [OF states], of n] n s ne
    by (cases states rule: rev_cases) (auto simp: last_conv_nth nth_append)
  then have "hd_receipt_id r = rs_receipt_id s" using verified_state_id r by force
  moreover have "chain_entry (hd_receipt_id (hd chain)) (int n + 1)
      (if n = 0 then None else Some (hd_receipt_content_hash (chain ! (n - 1)))) (chain ! n)"
    using chain n by (simp add: linked_chain_def)
  ultimately show "linked_chain chain" "r = last chain" "chain \<noteq> []" "hd_receipt_version r = int (length chain)"
    "hd_receipt_id r = rs_receipt_id s" "hd_receipt_id r = hd_receipt_id (hd chain)"
    using chain r ne n by (auto simp: chain_entry_def last_conv_nth)
qed

lemma chain_versions:
  assumes "linked_chain chain" and "r \<in> set chain"
  shows "hd_receipt_version r \<le> int (length chain)"
  using assms by (auto simp: linked_chain_def chain_entry_def in_set_conv_nth)

lemma linked_chain_snoc:
  assumes "linked_chain chain" and "chain_entry (hd_receipt_id (hd chain)) (int (length chain) + 1)
    (Some (hd_receipt_content_hash (last chain))) r"
  shows "linked_chain (chain @ [r])"
  using assms by (auto simp: linked_chain_def nth_append last_conv_nth less_Suc_eq)

lemma receipt_id_canonical:
  assumes "receipt_facts s"
  shows "rs_receipt_id s \<noteq> [] \<and> py_strip (rs_receipt_id s) = rs_receipt_id s"
proof -
  obtain h where "canonical_content_hash (identity_payload s) = Inr h" and id: "rs_receipt_id s = ''lot-disposal:'' @ h"
    using assms by (auto simp: receipt_facts_def rbind_eq_Inr)
  then have hex: "length h = 64" "\<forall>c \<in> set h. c \<in> set ''0123456789abcdef''"
    using canonical_content_hash_digest [of "identity_payload s" h "[]"]
    by (auto simp: require_sha256_digest_def list_ex_iff split: if_splits)
  then obtain c cs where "rev h = c # cs" and "c \<in> set ''0123456789abcdef''" by (cases h rule: rev_cases) auto
  moreover from this have "\<not> is_py_space c" by (auto simp: is_py_space_def)
  ultimately show ?thesis by (simp add: id py_strip_def py_lstrip_def is_py_space_def [of "CHR ''l''"])
qed

section \<open>One receipt\<close>

text \<open>The rows of the next version of a chain: it verifies in the extended ledger, and no other chain changes.\<close>

definition next_row :: "receipt_ledger \<Rightarrow> lot_disposal_receipt_state \<Rightarrow> int \<Rightarrow> string option \<Rightarrow> bool" where
  "next_row L s v previous \<longleftrightarrow>
     (let chain = load_receipt_chain L (rs_disposal_transaction_id s) in
      v = int (length chain) + 1 \<and>
      (if chain = [] then previous = None
       else previous = Some (hd_receipt_content_hash (last chain)) \<and> hd_receipt_id (hd chain) = rs_receipt_id s))"

lemma append_rows_next:
  assumes "ledger_ok L" and "chain_head L (rs_disposal_transaction_id s) = Inr prior"
    and "append_rows prior s = Inr (r # rs, as)"
  obtains v previous h where "next_row L s v previous" "receipt_content_hash s v previous = Inr h"
    "allocation_values s v = Inr as" "r = header_values s v previous h" "rs = []"
proof -
  obtain v previous h where new: "next_version prior s = Inr (Some (v, previous))"
    and row: "receipt_content_hash s v previous = Inr h" "allocation_values s v = Inr as"
      "r = header_values s v previous h" "rs = []"
    using assms(3) by (auto simp: append_rows_def rbind_eq_Inr split: option.splits prod.splits)
  have "next_row L s v previous"
  proof (cases prior)
    case None
    then have "load_receipt_chain L (rs_disposal_transaction_id s) = []"
      using assms(2) by (auto simp: chain_head_def rbind_eq_Inr split: if_splits)
    then show ?thesis using new None by (auto simp: next_version_def next_row_def split: if_splits)
  next
    case (Some head)
    obtain q p where head: "head = (q, p)" by force
    note chain = chain_head_Some [OF assms(2) [unfolded Some head]]
    show ?thesis using new Some head chain
      by (auto simp: next_version_def next_row_def require_same_receipt_identity_def rbind_eq_Inr Let_def split: if_splits)
  qed
  then show thesis using row by (rule that)
qed

lemma allocation_values_keys:
  assumes "allocation_values s v = Inr as"
  shows "\<forall>a \<in> set as. ar_receipt_id a = rs_receipt_id s \<and> ar_receipt_version a = v"
    "map ar_allocation_ordinal as = map allocation_ordinal (rs_allocations s)"
proof -
  have "list_all2 (\<lambda>a r. allocation_value s v a = Inr r) (rs_allocations s) as"
    using assms rmap_Inr_list_all2 by (simp add: allocation_values_def)
  then have "list_all2 (\<lambda>a r. ar_receipt_id r = rs_receipt_id s \<and> ar_receipt_version r = v \<and>
      ar_allocation_ordinal r = allocation_ordinal a) (rs_allocations s) as"
    by (rule list_all2_mono) (auto simp: allocation_value_def allocation_row_of_def elim!: rbind_InrE)
  then show "\<forall>a \<in> set as. ar_receipt_id a = rs_receipt_id s \<and> ar_receipt_version a = v"
    "map ar_allocation_ordinal as = map allocation_ordinal (rs_allocations s)"
    by (induction) auto
qed

lemma ordinals_sorted:
  assumes "receipt_facts s"
  shows "sorted (map allocation_ordinal (rs_allocations s))"
proof (cases "rs_status s")
  case ACTIVE
  then have "map allocation_ordinal (rs_allocations s) = [1..<length (rs_allocations s) + 1]"
    using assms by (auto simp: receipt_facts_def validate_lifecycle_shape_def validate_active_allocations_def rbind_eq_Inr)
  then show ?thesis by (metis sorted_upt)
next
  case VOIDED
  then have "rs_allocations s = []"
    using assms by (auto simp: receipt_facts_def validate_lifecycle_shape_def rbind_eq_Inr)
  then show ?thesis by simp
qed

text \<open>No row of the ledger has the identity and version of the next one.\<close>

lemma next_version_fresh:
  assumes ok: "ledger_ok L" and owned: "receipt_id_owned L s" and row: "next_row L s v previous"
    and r: "r \<in> set (receipt_rows L)" "hd_receipt_id r = rs_receipt_id s"
  shows "hd_receipt_version r < v"
proof -
  let ?tid = "rs_disposal_transaction_id s"
  have chain: "r \<in> set (load_receipt_chain L ?tid)" using owned r by (simp add: in_chain receipt_id_owned_def)
  then have ne: "load_receipt_chain L ?tid \<noteq> []" by auto
  obtain head where "chain_head L ?tid = Inr head" using ledger_okD(1) [OF ok] by blast
  with ne obtain q p where "chain_head L ?tid = Inr (Some (q, p))"
    by (auto simp: chain_head_def rbind_eq_Inr)
  then have "hd_receipt_version r \<le> int (length (load_receipt_chain L ?tid))"
    using chain_head_Some(1) chain chain_versions by blast
  then show ?thesis using row by (simp add: next_row_def Let_def)
qed

definition appends ::
  "receipt_ledger \<Rightarrow> lot_disposal_receipt_state \<Rightarrow> int \<Rightarrow> string option \<Rightarrow> receipt_row \<Rightarrow> allocation_row list \<Rightarrow> bool" where
  "appends L s v previous r as \<longleftrightarrow> ledger_ok L \<and> receipt_id_owned L s \<and> receipt_state_wf s \<and> next_row L s v previous \<and>
     allocation_values s v = Inr as \<and>
     (\<exists>h. receipt_content_hash s v previous = Inr h \<and> r = header_values s v previous h)"

lemma appended_chain:
  assumes "appends L s v previous r as"
  shows "load_receipt_chain (extended L ([r], as)) tid =
    (if tid = rs_disposal_transaction_id s then load_receipt_chain L tid @ [r] else load_receipt_chain L tid)"
proof (cases "tid = rs_disposal_transaction_id s")
  case True
  have tid: "row_disposal_transaction_id r = tid" "hd_receipt_version r = v"
    using assms True by (auto simp: appends_def header_columns)
  have "hd_receipt_version q \<le> hd_receipt_version r" if q: "q \<in> set (load_receipt_chain L tid)" for q
  proof -
    obtain head where "chain_head L tid = Inr head" using ledger_okD(1) assms unfolding appends_def by blast
    moreover have "load_receipt_chain L tid \<noteq> []" using q by auto
    ultimately obtain p where "chain_head L tid = Inr (Some p)" by (auto simp: chain_head_def rbind_eq_Inr)
    then have "hd_receipt_version q \<le> int (length (load_receipt_chain L tid))"
      using chain_head_Some(1) [of L tid "fst p" "snd p"] chain_versions q by simp
    then show ?thesis using assms True tid by (simp add: appends_def next_row_def Let_def)
  qed
  then show ?thesis using True tid
      sort_key_append_greater [of "filter (\<lambda>r. row_disposal_transaction_id r = tid) (receipt_rows L)" hd_receipt_version r]
    by (simp add: load_receipt_chain_def extended_def)
next
  case False
  then have "row_disposal_transaction_id r \<noteq> tid" using assms by (auto simp: appends_def header_columns)
  then show ?thesis using False by (simp add: load_receipt_chain_def extended_def)
qed

lemma appended_allocations:
  assumes "appends L s v previous r as" and "q \<in> set (receipt_rows L)"
  shows "load_allocations (extended L ([r], as)) q = load_allocations L q"
proof -
  have "\<not> (hd_receipt_id q = rs_receipt_id s \<and> hd_receipt_version q = v)"
    using next_version_fresh [of L s v previous q] assms by (auto simp: appends_def)
  then have "filter (\<lambda>a. ar_receipt_id a = hd_receipt_id q \<and> ar_receipt_version a = hd_receipt_version q) as = []"
    using allocation_values_keys(1) [of s v as] assms(1) by (auto simp: filter_empty_conv appends_def)
  then show ?thesis by (simp add: load_allocations_def extended_def)
qed

lemma own_allocations:
  assumes "appends L s v previous r as"
  shows "load_allocations (extended L ([r], as)) r = as"
proof -
  note keys = allocation_values_keys [of s v as]
  have r: "hd_receipt_id r = rs_receipt_id s" "hd_receipt_version r = v" using assms by (auto simp: appends_def header_columns)
  have "\<not> (ar_receipt_id a = rs_receipt_id s \<and> ar_receipt_version a = v)" if a: "a \<in> set (allocation_rows L)" for a
  proof -
    obtain q where "q \<in> set (receipt_rows L)" "hd_receipt_id q = ar_receipt_id a" "hd_receipt_version q = ar_receipt_version a"
      using ledger_okD(2) [OF _ a] assms unfolding appends_def by blast
    then show ?thesis using next_version_fresh [of L s v previous q] assms by (auto simp: appends_def)
  qed
  then have "filter (\<lambda>a. ar_receipt_id a = rs_receipt_id s \<and> ar_receipt_version a = v) (allocation_rows L) = []"
    by (simp add: filter_empty_conv)
  moreover have "filter (\<lambda>a. ar_receipt_id a = rs_receipt_id s \<and> ar_receipt_version a = v) as = as"
    using keys(1) assms by (simp add: filter_id_conv appends_def)
  moreover have "sorted (map ar_allocation_ordinal as)"
    using keys(2) ordinals_sorted assms by (simp add: appends_def receipt_state_wf_def)
  ultimately show ?thesis by (simp add: load_allocations_def extended_def r sort_key_id_if_sorted)
qed

lemma verify_extended_chain:
  assumes "appends L s v previous r as" and "set chain \<subseteq> set (receipt_rows L)"
  shows "rmap (\<lambda>i. verified_state (chain ! i) (load_allocations (extended L ([r], as)) (chain ! i)) (chain_predecessor chain i))
      [0..<length chain] =
    rmap (\<lambda>i. verified_state (chain ! i) (load_allocations L (chain ! i)) (chain_predecessor chain i)) [0..<length chain]"
proof (rule rmap_cong [OF refl])
  fix i
  assume "i \<in> set [0..<length chain]"
  then have "chain ! i \<in> set (receipt_rows L)" using assms(2) nth_mem by auto
  then show "verified_state (chain ! i) (load_allocations (extended L ([r], as)) (chain ! i)) (chain_predecessor chain i) =
      verified_state (chain ! i) (load_allocations L (chain ! i)) (chain_predecessor chain i)"
    using appended_allocations assms(1) by simp
qed

lemma chain_rows: "set (load_receipt_chain L tid) \<subseteq> set (receipt_rows L)"
  by (auto simp: in_chain)

lemma other_head:
  assumes "appends L s v previous r as" and "tid \<noteq> rs_disposal_transaction_id s"
  shows "chain_head (extended L ([r], as)) tid = chain_head L tid"
  using verify_extended_chain [OF assms(1) chain_rows] assms
  by (simp add: chain_head_def verify_loaded_chain_def appended_chain [OF assms(1)])

lemma content_hash_digest:
  "receipt_content_hash s v previous = Inr h \<Longrightarrow> require_sha256_digest h f = Inr h"
  using canonical_content_hash_digest by (simp add: receipt_content_hash_def receipt_version_content_hash_def)

lemma appended_row_verifies:
  assumes "appends L s v previous r as" and that: "chain = load_receipt_chain L (rs_disposal_transaction_id s)"
  shows "verified_state r as (chain_predecessor (chain @ [r]) (length chain)) = Inr (bare_state s)"
proof -
  have "links_to v previous (chain_predecessor (chain @ [r]) (length chain))"
    using assms that by (auto simp: appends_def next_row_def Let_def links_to_def chain_predecessor_def last_conv_nth nth_append)
  then show ?thesis using assms rows_reconstruct by (auto simp: appends_def)
qed

lemma own_chain_linked:
  assumes "appends L s v previous r as" and chain: "chain = load_receipt_chain L (rs_disposal_transaction_id s)"
    and prior: "chain \<noteq> [] \<Longrightarrow> linked_chain chain"
  shows "linked_chain (chain @ [r])"
proof -
  obtain h where h: "receipt_content_hash s v previous = Inr h" "r = header_values s v previous h"
    using assms(1) by (auto simp: appends_def)
  note digest = content_hash_digest [OF h(1)]
  show ?thesis
  proof (cases "chain = []")
    case True
    have "rs_receipt_id s \<noteq> [] \<and> py_strip (rs_receipt_id s) = rs_receipt_id s"
      using assms(1) receipt_id_canonical by (simp add: appends_def receipt_state_wf_def)
    then show ?thesis using True assms(1) chain h digest
      by (simp add: linked_chain_def chain_entry_def appends_def next_row_def header_columns)
  next
    case False
    then show ?thesis using prior assms(1) chain h digest
      by (intro linked_chain_snoc) (auto simp: chain_entry_def appends_def next_row_def header_columns Let_def)
  qed
qed

lemma own_head:
  assumes app: "appends L s v previous r as"
  shows "chain_head (extended L ([r], as)) (rs_disposal_transaction_id s) = Inr (Some (r, bare_state s))"
proof -
  let ?tid = "rs_disposal_transaction_id s" and ?L = "extended L ([r], as)"
  define chain where "chain = load_receipt_chain L ?tid"
  let ?step = "\<lambda>chain i. verified_state (chain ! i) (load_allocations ?L (chain ! i)) (chain_predecessor chain i)"
  obtain head where head: "chain_head L ?tid = Inr head" using ledger_okD(1) app unfolding appends_def by blast
  have prior: "linked_chain chain \<and> (\<exists>states. rmap (?step chain) [0..<length chain] = Inr states)" if "chain \<noteq> []"
    using head that verify_extended_chain [OF app chain_rows [of L ?tid]]
    by (auto simp: chain_head_def chain_def rbind_eq_Inr verify_loaded_chain_Inr)
  then obtain states where states: "rmap (?step chain) [0..<length chain] = Inr states"
    by (cases "chain = []") auto
  have "rmap (?step (chain @ [r])) [0..<length chain] = rmap (?step chain) [0..<length chain]"
    by (rule rmap_cong) (auto simp: nth_append chain_predecessor_def)
  then have "rmap (?step (chain @ [r])) [0..<length (chain @ [r])] = Inr (states @ [bare_state s])"
    using states appended_row_verifies [OF app chain_def] by (simp add: rmap_append own_allocations [OF app])
  moreover have "linked_chain (chain @ [r])" using own_chain_linked [OF app chain_def] prior by blast
  ultimately have "verify_loaded_chain ?L ?tid (chain @ [r]) = Inr (r, bare_state s)"
    unfolding verify_loaded_chain_Inr by (intro conjI exI [of _ "states @ [bare_state s]"]) simp_all
  then show ?thesis by (simp add: chain_head_def appended_chain [OF app] chain_def)
qed

lemma appends_ok:
  assumes app: "appends L s v previous r as"
  shows "ledger_ok (extended L ([r], as))"
proof -
  have r: "hd_receipt_id r = rs_receipt_id s" "hd_receipt_version r = v" "row_disposal_transaction_id r = rs_disposal_transaction_id s"
    using app by (auto simp: appends_def header_columns)
  have as: "ar_receipt_id a = rs_receipt_id s" "ar_receipt_version a = v" if "a \<in> set as" for a
    using allocation_values_keys(1) [of s v as] app that by (simp_all add: appends_def)
  have heads: "\<exists>head. chain_head (extended L ([r], as)) tid = Inr head" for tid
    using own_head [OF app] other_head [OF app] ledger_okD(1) [of L tid] app
    by (cases "tid = rs_disposal_transaction_id s") (simp_all add: appends_def)
  have same: "row_disposal_transaction_id q = row_disposal_transaction_id p"
    if "q \<in> set (receipt_rows L @ [r])" "p \<in> set (receipt_rows L @ [r])" "hd_receipt_id q = hd_receipt_id p" for p q
  proof -
    have "row_disposal_transaction_id t = rs_disposal_transaction_id s"
      if "t \<in> set (receipt_rows L)" "hd_receipt_id t = rs_receipt_id s" for t
      using app that by (simp add: appends_def receipt_id_owned_def)
    moreover have "ledger_ok L" using app by (simp add: appends_def)
    ultimately show ?thesis using that r ledger_okD(3) [of L q p] by auto
  qed
  have owner: "\<exists>q \<in> set (receipt_rows L @ [r]). hd_receipt_id q = ar_receipt_id a \<and> hd_receipt_version q = ar_receipt_version a"
    if "a \<in> set (allocation_rows L @ as)" for a
    using that ledger_okD(2) [of L a] app r as by (auto simp: appends_def)
  have rows: "receipt_rows (extended L ([r], as)) = receipt_rows L @ [r]"
    "allocation_rows (extended L ([r], as)) = allocation_rows L @ as" by (simp_all add: extended_def)
  show ?thesis unfolding ledger_ok_def rows
  proof (intro conjI allI ballI impI)
    show "\<exists>head. chain_head (extended L ([r], as)) tid = Inr head" for tid by (rule heads)
    show "row_disposal_transaction_id q = row_disposal_transaction_id p"
      if "q \<in> set (receipt_rows L @ [r])" "p \<in> set (receipt_rows L @ [r])" "hd_receipt_id q = hd_receipt_id p" for q p
      using that by (rule same)
    show "\<exists>q \<in> set (receipt_rows L @ [r]). hd_receipt_id q = ar_receipt_id a \<and> hd_receipt_version q = ar_receipt_version a"
      if "a \<in> set (allocation_rows L @ as)" for a
      using that by (rule owner)
  qed
qed

lemma replay_of_head:
  assumes "receipt_facts s"
  shows "append_rows (Some (r, bare_state s)) s = Inr ([], [])"
proof -
  obtain p where "semantic_payload s = Inr p" using assms by (auto simp: receipt_facts_def rbind_eq_Inr)
  moreover have "semantic_payload (bare_state s) = semantic_payload s" by (simp add: semantic_payload_def)
  ultimately show ?thesis by (simp add: append_rows_def next_version_def require_same_receipt_identity_def)
qed

lemma extended_nothing [simp]: "extended L ([], []) = L"
  by (simp add: extended_def)

lemma append_one:
  assumes "ledger_ok L" and "receipt_id_owned L s" and "receipt_state_wf s"
    and prior: "chain_head L (rs_disposal_transaction_id s) = Inr prior" and rows: "append_rows prior s = Inr rows"
  shows "ledger_ok (extended L rows)"
    "tid \<noteq> rs_disposal_transaction_id s \<Longrightarrow> chain_head (extended L rows) tid = chain_head L tid"
    "\<exists>head. chain_head (extended L rows) (rs_disposal_transaction_id s) = Inr head \<and> append_rows head s = Inr ([], [])"
    "length (fst rows) \<le> 1" "\<forall>r \<in> set (fst rows). hd_receipt_id r = rs_receipt_id s"
proof -
  have "ledger_ok (extended L rows) \<and>
    (tid \<noteq> rs_disposal_transaction_id s \<longrightarrow> chain_head (extended L rows) tid = chain_head L tid) \<and>
    (\<exists>head. chain_head (extended L rows) (rs_disposal_transaction_id s) = Inr head \<and> append_rows head s = Inr ([], [])) \<and>
    length (fst rows) \<le> 1 \<and> (\<forall>r \<in> set (fst rows). hd_receipt_id r = rs_receipt_id s)"
  proof (cases "fst rows")
    case Nil
    then have "rows = ([], [])" using rows by (auto simp: append_rows_def rbind_eq_Inr split: option.splits prod.splits)
    then show ?thesis using assms by simp
  next
    case (Cons r rs)
    then obtain as where r: "rows = (r # rs, as)" by (cases rows) simp
    obtain v previous h where "next_row L s v previous" "receipt_content_hash s v previous = Inr h"
      "allocation_values s v = Inr as" and row: "r = header_values s v previous h" "rs = []"
      using append_rows_next [OF assms(1) prior] rows r by metis
    then have app: "appends L s v previous r as" using assms(1-3) by (auto simp: appends_def)
    have "append_rows (Some (r, bare_state s)) s = Inr ([], [])" using replay_of_head assms(3) by (simp add: receipt_state_wf_def)
    then show ?thesis
      using appends_ok [OF app] other_head [OF app] own_head [OF app] r row by (simp add: header_columns)
  qed
  then show "ledger_ok (extended L rows)"
    "tid \<noteq> rs_disposal_transaction_id s \<Longrightarrow> chain_head (extended L rows) tid = chain_head L tid"
    "\<exists>head. chain_head (extended L rows) (rs_disposal_transaction_id s) = Inr head \<and> append_rows head s = Inr ([], [])"
    "length (fst rows) \<le> 1" "\<forall>r \<in> set (fst rows). hd_receipt_id r = rs_receipt_id s"
    by blast+
qed

section \<open>A batch\<close>

definition head_of :: "receipt_ledger \<Rightarrow> string \<Rightarrow> (receipt_row \<times> lot_disposal_receipt_state) option" where
  "head_of L tid = (case chain_head L tid of Inr head \<Rightarrow> head | Inl _ \<Rightarrow> None)"

lemma head_of_Inr: "chain_head L tid = Inr head \<Longrightarrow> head_of L tid = head"
  by (simp add: head_of_def)

definition joined :: "(receipt_row list \<times> allocation_row list) list \<Rightarrow> receipt_row list \<times> allocation_row list" where
  "joined rows = (concat (map fst rows), concat (map snd rows))"

lemma extended_joined: "extended L (joined (x # xs)) = extended (extended L x) (joined xs)"
  by (simp add: extended_def joined_def)

lemma append_batch:
  assumes "ledger_ok L" and "\<forall>s \<in> set ss. receipt_state_wf s \<and> receipt_id_owned L s"
    and "distinct (map rs_receipt_id ss)" and "distinct (map rs_disposal_transaction_id ss)"
    and "rmap (\<lambda>s. append_rows (head_of L (rs_disposal_transaction_id s)) s) ss = Inr rows"
  shows "ledger_ok (extended L (joined rows)) \<and>
    (\<forall>tid. tid \<notin> rs_disposal_transaction_id ` set ss \<longrightarrow> chain_head (extended L (joined rows)) tid = chain_head L tid) \<and>
    (\<forall>s \<in> set ss. append_rows (head_of (extended L (joined rows)) (rs_disposal_transaction_id s)) s = Inr ([], [])) \<and>
    length (fst (joined rows)) \<le> length ss"
  using assms
proof (induction ss arbitrary: L rows)
  case Nil
  then show ?case by (simp add: joined_def)
next
  case (Cons s ss)
  let ?tid = "rs_disposal_transaction_id"
  obtain head where head: "chain_head L (?tid s) = Inr head" using ledger_okD(1) [OF Cons.prems(1)] by blast
  obtain x xs where x: "append_rows head s = Inr x" and rows: "rows = x # xs"
    and xs: "rmap (\<lambda>s. append_rows (head_of L (?tid s)) s) ss = Inr xs"
    using Cons.prems(5) head_of_Inr [OF head] by (auto simp: rbind_eq_Inr)
  have s: "receipt_id_owned L s" "receipt_state_wf s" using Cons.prems(2) by simp_all
  note one = append_one [OF Cons.prems(1) s head x]
  define L1 where "L1 = extended L x"
  have "receipt_id_owned L1 t" if "t \<in> set ss" for t
    using Cons.prems(2,3) that one(5) by (auto simp: L1_def receipt_id_owned_def extended_def image_iff)
  moreover have same: "chain_head L1 (?tid t) = chain_head L (?tid t)" if "t \<in> set ss" for t
    using one(2) Cons.prems(4) that by (auto simp: L1_def image_iff)
  then have "rmap (\<lambda>s. append_rows (head_of L1 (?tid s)) s) ss = Inr xs"
    using xs by (simp add: head_of_def cong: rmap_cong)
  ultimately have IH: "ledger_ok (extended L1 (joined xs))"
    "\<And>tid. tid \<notin> ?tid ` set ss \<Longrightarrow> chain_head (extended L1 (joined xs)) tid = chain_head L1 tid"
    "\<And>s. s \<in> set ss \<Longrightarrow> append_rows (head_of (extended L1 (joined xs)) (?tid s)) s = Inr ([], [])"
    "length (fst (joined xs)) \<le> length ss"
    using Cons.IH [of L1 xs] one(1) Cons.prems(2,3,4) by (auto simp: L1_def)
  have own: "append_rows (head_of (extended L1 (joined xs)) (?tid s)) s = Inr ([], [])"
    using IH(2) [of "?tid s"] one(3) Cons.prems(4) by (auto simp: L1_def head_of_def)
  have "length (fst (joined (x # xs))) \<le> length (s # ss)" using one(4) IH(4) by (simp add: joined_def)
  then show ?case
    unfolding rows extended_joined L1_def [symmetric] using IH(1-3) own one(2) by (auto simp: L1_def)
qed

lemma chain_head_None: "chain_head L tid = Inr None \<longleftrightarrow> load_receipt_chain L tid = []"
  by (auto simp: chain_head_def rbind_eq_Inr)

lemma verified_latest_heads:
  assumes ok: "ledger_ok L"
  shows "\<exists>latest. verified_latest L tids = Inr latest \<and> (\<forall>tid \<in> set tids. map_of latest tid = head_of L tid)"
proof -
  let ?keys = "filter (\<lambda>tid. load_receipt_chain L tid \<noteq> []) (sort tids)"
  have head: "\<exists>h. chain_head L tid = Inr (Some h)" if "load_receipt_chain L tid \<noteq> []" for tid
    using ledger_okD(1) [OF ok, of tid] that by (auto simp: chain_head_def rbind_eq_Inr)
  have "verified_latest L tids = Inr (map (\<lambda>tid. (tid, the (head_of L tid))) ?keys)"
    unfolding verified_latest_def
  proof (rule rmap_total)
    fix tid
    assume "tid \<in> set ?keys"
    then have ne: "load_receipt_chain L tid \<noteq> []" by simp
    then obtain h where h: "chain_head L tid = Inr (Some h)" using head by blast
    then have "verify_loaded_chain L tid (load_receipt_chain L tid) = Inr h"
      using ne by (auto simp: chain_head_def rbind_eq_Inr)
    then show "rbind (verify_loaded_chain L tid (load_receipt_chain L tid)) (\<lambda>head. Inr (tid, head)) =
        Inr (tid, the (head_of L tid))"
      using head_of_Inr [OF h] by simp
  qed
  moreover have "map_of (map (\<lambda>tid. (tid, the (head_of L tid))) ?keys) tid = head_of L tid" if "tid \<in> set tids" for tid
  proof (cases "load_receipt_chain L tid = []")
    case True
    then have "head_of L tid = None" by (simp add: head_of_def chain_head_def)
    then show ?thesis using True by (simp add: map_of_map_restrict restrict_map_def)
  next
    case False
    then obtain h where "chain_head L tid = Inr (Some h)" using head by blast
    from head_of_Inr [OF this] show ?thesis using False that by (simp add: map_of_map_restrict restrict_map_def)
  qed
  ultimately show ?thesis by blast
qed

lemma reconcile_verified:
  assumes "ledger_ok L"
  shows "reconcile_disposal_receipts states L =
    (case rbind (validate_candidate_batch states) (\<lambda>_.
        rmap (\<lambda>s. append_rows (head_of L (rs_disposal_transaction_id s)) s) states) of
       Inl e \<Rightarrow> (Inl e, L) | Inr rows \<Rightarrow> insert_rows (joined rows) L)"
proof (cases states)
  case Nil
  then show ?thesis
    by (simp add: reconcile_disposal_receipts_def validate_candidate_batch_def joined_def insert_rows_def)
next
  case (Cons s ss)
  let ?tids = "map rs_disposal_transaction_id states"
  obtain latest where "verified_latest L ?tids = Inr latest"
    and "\<forall>tid \<in> set ?tids. map_of latest tid = head_of L tid"
    using verified_latest_heads [OF assms, of ?tids] by auto
  moreover from this(2) have "rmap (\<lambda>s. append_rows (map_of latest (rs_disposal_transaction_id s)) s) states =
      rmap (\<lambda>s. append_rows (head_of L (rs_disposal_transaction_id s)) s) states"
    by (intro rmap_cong) simp_all
  ultimately show ?thesis
    by (simp add: reconcile_disposal_receipts_def Cons joined_def cong: sum.case_cong)
qed

text \<open>A successful insert extends the ledger by all rows; with storable amounts it succeeds, and an
  amount that is not storable is refused.\<close>

lemma append_rows_together: "append_rows prior s = Inr ([], as) \<Longrightarrow> as = []"
  by (auto simp: append_rows_def rbind_eq_Inr split: option.splits prod.splits)

lemma joined_together:
  assumes "rmap (\<lambda>s. append_rows (head_of L (rs_disposal_transaction_id s)) s) states = Inr rows" and "fst (joined rows) = []"
  shows "snd (joined rows) = []"
proof -
  have "snd x = []" if mem: "x \<in> set rows" for x
  proof -
    obtain i where i: "i < length rows" "x = rows ! i" using mem by (auto simp: in_set_conv_nth)
    have "append_rows (head_of L (rs_disposal_transaction_id (states ! i))) (states ! i) = Inr x"
      using list_all2_nthD2 [OF rmap_Inr_list_all2 [OF assms(1)] i(1)] i(2) by simp
    moreover have "fst x = []" using assms(2) mem by (auto simp: joined_def)
    ultimately show ?thesis using append_rows_together by (metis prod.collapse)
  qed
  then show ?thesis by (simp add: joined_def)
qed

lemma insert_rows_Inr:
  assumes "insert_rows rows L = (Inr (), L')" and "fst rows = [] \<Longrightarrow> snd rows = []"
  shows "L' = extended L rows"
  using assms by (auto simp: insert_rows_def extended_def Let_def split: if_splits sum.splits)

definition storable_rows :: "receipt_row list \<times> allocation_row list \<Rightarrow> bool" where
  "storable_rows rows \<longleftrightarrow>
     (\<forall>v \<in> set (concat (map receipt_amount_columns (fst rows)) @ concat (map allocation_amount_columns (snd rows))).
        pred_option ledger_amount v)"

lemma rmap_refused:
  assumes "x \<in> set xs" and "f x = Inl e" and "\<And>x e. f x = Inl e \<Longrightarrow> P e"
  shows "\<exists>e. rmap f xs = Inl e \<and> P e"
  using assms(1)
proof (induction xs)
  case (Cons a xs)
  show ?case
  proof (cases "f a")
    case (Inl e')
    then show ?thesis using assms(3) by simp
  next
    case (Inr y)
    then have "x \<in> set xs" using Cons.prems assms(2) by auto
    from Cons.IH [OF this] Inr show ?thesis by auto
  qed
qed simp

lemma bind_error_refused: "process_bind_param (Some 18) (Some 10) v = Inl e \<Longrightarrow> bind_refused e"
  using bind_ledger_amount [of v] bind_not_ledger_amount [of v] by (cases "pred_option ledger_amount v") auto

lemma bind_columns:
  "rmap (process_bind_param (Some 18) (Some 10)) vs = Inr vs \<longleftrightarrow> (\<forall>v \<in> set vs. pred_option ledger_amount v)"
  "\<not> (\<forall>v \<in> set vs. pred_option ledger_amount v) \<Longrightarrow>
     \<exists>e. rmap (process_bind_param (Some 18) (Some 10)) vs = Inl e \<and> bind_refused e"
proof -
  show refused: "\<exists>e. rmap (process_bind_param (Some 18) (Some 10)) vs = Inl e \<and> bind_refused e"
    if bad: "\<not> (\<forall>v \<in> set vs. pred_option ledger_amount v)"
  proof -
    obtain v e where "v \<in> set vs" "process_bind_param (Some 18) (Some 10) v = Inl e"
      using bad bind_not_ledger_amount by blast
    then show ?thesis using bind_error_refused by (rule rmap_refused)
  qed
  have "rmap (process_bind_param (Some 18) (Some 10)) vs = Inr (map (\<lambda>v. v) vs)"
    if "\<forall>v \<in> set vs. pred_option ledger_amount v"
    using that bind_ledger_amount by (intro rmap_total) blast
  then show "rmap (process_bind_param (Some 18) (Some 10)) vs = Inr vs \<longleftrightarrow> (\<forall>v \<in> set vs. pred_option ledger_amount v)"
    using refused by fastforce
qed

lemma insert_rows_storable:
  assumes "storable_rows rows" and "fst rows \<noteq> []"
  shows "insert_rows rows L = (Inr (), extended L rows)"
proof -
  have "rmap (process_bind_param (Some 18) (Some 10)) (concat (map receipt_amount_columns (fst rows))) =
      Inr (concat (map receipt_amount_columns (fst rows)))"
    "rmap (process_bind_param (Some 18) (Some 10)) (concat (map allocation_amount_columns (snd rows))) =
      Inr (concat (map allocation_amount_columns (snd rows)))"
    using assms(1) unfolding bind_columns(1) storable_rows_def by simp_all
  then show ?thesis using assms(2) by (simp add: insert_rows_def extended_def Let_def)
qed

lemma insert_rows_refused:
  assumes "\<not> storable_rows rows" and "fst rows \<noteq> []"
  shows "\<exists>e L'. insert_rows rows L = (Inl e, L') \<and> bind_refused e"
proof (cases "\<forall>v \<in> set (concat (map receipt_amount_columns (fst rows))). pred_option ledger_amount v")
  case True
  then have "\<not> (\<forall>v \<in> set (concat (map allocation_amount_columns (snd rows))). pred_option ledger_amount v)"
    using assms(1) by (auto simp: storable_rows_def)
  from bind_columns(2) [OF this] True [folded bind_columns(1)] assms(2) show ?thesis
    by (auto simp: insert_rows_def Let_def)
next
  case False
  from bind_columns(2) [OF this] assms(2) show ?thesis by (auto simp: insert_rows_def)
qed

end
