(* ===== verification/Receipt_Ledger_Properties.thy ===== *)
theory Receipt_Ledger_Properties
  imports Receipt_Reconciliation
begin

text \<open>
  The properties of the receipt ledger: reconciliation keeps it verifiable and is idempotent, new
  information becomes the verified head, written rows read back, and a missing predecessor escapes
  the corruption handler. The first section shows when payloads can be hashed at all.
\<close>

section \<open>Digests of receipts\<close>

lemma digestible_text [simp]: "digestible (text_or_none t)"
  by (simp add: text_or_none_def split: option.splits)

lemma digestible_allocation:
  assumes "allocation_amounts a"
  shows "digestible_items (source_lot_disposal_allocation_payload a)"
proof -
  have "digestible_items (lot_disposal_allocation_payload a None)"
    using assms by (simp add: lot_disposal_allocation_payload_def allocation_amounts_def digestible_items_def)
  moreover have "digestible (LMap (evidence_payload e))" if "amortized_cost_evidence a = Some e" for e
    using assms that by (simp add: allocation_amounts_def)
  ultimately show ?thesis
    by (auto simp: source_lot_disposal_allocation_payload_def lot_disposal_allocation_payload_def digestible_items_def
        split: option.splits)
qed

lemma digestible_receipt:
  assumes "\<forall>a \<in> set (rs_allocations s). allocation_amounts a" and "utc_offset (rs_disposal_timestamp s) \<noteq> None"
    and "canonical_ok (rs_consumed_cost_base s)" "canonical_ok (rs_consumed_cost_local s)" "canonical_ok (rs_consumed_quantity s)"
  shows "digestible_items (receipt_payload s)"
proof -
  have "digestible (LSeq (map (\<lambda>a. LMap (source_lot_disposal_allocation_payload a)) (rs_allocations s)))"
    using assms(1) digestible_allocation by (intro digestible_seq) auto
  moreover have "digestible (case rs_disposal_calculation_lineage s of None \<Rightarrow> LNone | Some l \<Rightarrow> lineage_payload_of l)"
    by (simp split: option.splits)
  moreover have "digestible_items (destination_payload d)" for d
    by (simp add: destination_payload_def digestible_items_def)
  ultimately show ?thesis using assms(2-5)
    by (auto simp: receipt_payload_def digestible_items_def [of "_ # _"] digestible_items_def [of "_ @ _"] split: option.splits)
qed

lemma allocation_values_total:
  assumes "\<forall>a \<in> set (rs_allocations s). allocation_amounts a"
  shows "\<exists>as. allocation_values s v = Inr as"
proof -
  have "\<exists>h. allocation_content_hash (rs_receipt_id s) a = Inr h" if "a \<in> set (rs_allocations s)" for a
  proof -
    have "digestible_items (source_lot_disposal_allocation_payload a @ [(Some ''receipt_id'', LStr (rs_receipt_id s))])"
      using assms that digestible_allocation by (auto simp: digestible_items_def)
    from payload_digest [OF this] show ?thesis by (auto simp: allocation_content_hash_def)
  qed
  then have "\<forall>a \<in> set (rs_allocations s). \<exists>r. allocation_value s v a = Inr r \<and> True"
    by (force simp: allocation_value_def)
  from rmap_exists [OF this] show ?thesis by (auto simp: allocation_values_def)
qed

lemma receipt_content_hash_total: "\<exists>h. receipt_content_hash s v previous = Inr h"
  by (cases previous) (simp_all add: receipt_content_hash_def receipt_version_content_hash_def canonical_content_hash_def
      canonical_text_def require_mapping_key_def)

section \<open>Amounts the columns take\<close>

definition evidence_amounts :: "amortized_cost_allocation_evidence \<Rightarrow> rat list" where
  "evidence_amounts e =
     [ace_original_quantity e, ace_open_quantity_before e, ace_residual_quantity e, ace_scheduled_cost_local e,
      ace_current_cost_local e, ace_current_cost_base e, ace_residual_cost_local e, ace_book_cost_fx_rate_to_base e,
      ace_residual_cost_base e, ace_retained_rounding_residual_local e, ace_retained_rounding_residual_base e]"

definition allocation_stored_amounts :: "source_lot_disposal_allocation \<Rightarrow> rat list" where
  "allocation_stored_amounts a =
     [consumed_quantity a, consumed_cost_local a, consumed_cost_base a] @
     (case amortized_cost_evidence a of None \<Rightarrow> [] | Some e \<Rightarrow> evidence_amounts e)"

definition storable_receipt :: "lot_disposal_receipt_state \<Rightarrow> bool" where
  "storable_receipt s \<longleftrightarrow>
     list_all ledger_amount
       ([rs_consumed_quantity s, rs_consumed_cost_local s, rs_consumed_cost_base s] @
        concat (map allocation_stored_amounts (rs_allocations s)))"

lemma allocation_row_columns:
  "(\<forall>v \<in> set (allocation_amount_columns (allocation_row_of s n a h)). pred_option ledger_amount v) \<longleftrightarrow>
   list_all ledger_amount (allocation_stored_amounts a)"
  by (cases "amortized_cost_evidence a")
    (simp_all add: allocation_amount_columns_def allocation_row_of_def allocation_stored_amounts_def evidence_amounts_def)

lemma storable_receipt_rows:
  assumes "allocation_values s v = Inr as"
  shows "storable_rows ([header_values s v previous h], as) \<longleftrightarrow> storable_receipt s"
proof -
  have "list_all2 (\<lambda>a r. allocation_value s v a = Inr r) (rs_allocations s) as"
    using assms by (simp add: allocation_values_def rmap_Inr_list_all2)
  then have "(\<forall>r \<in> set as. \<forall>c \<in> set (allocation_amount_columns r). pred_option ledger_amount c) \<longleftrightarrow>
      (\<forall>a \<in> set (rs_allocations s). list_all ledger_amount (allocation_stored_amounts a))"
  proof (induction rule: list_all2_induct)
    case (Cons a as r rs)
    obtain h' where "r = allocation_row_of s v a h'"
      using Cons.hyps by (auto simp: allocation_value_def rbind_eq_Inr)
    then show ?case using Cons.IH allocation_row_columns [of s v a h'] by simp
  qed simp
  then show ?thesis
    by (auto simp: storable_rows_def storable_receipt_def receipt_amount_columns_def header_columns list_all_iff)
qed

section \<open>A sample receipt\<close>

lemma disposal_result_lineage_constructed:
  assumes "disposal_result_lineage r = Inr l"
  shows "constructed_lineage l"
proof -
  obtain i o' policy where policy: "lineage_identity state_policy = Inr policy"
    and build: "build_calculation_lineage LOT_DISPOSAL_LINEAGE_ALGORITHM_ID LOT_DISPOSAL_LINEAGE_ALGORITHM_VERSION
       (cp_working_precision state_policy) i o' (Some policy) = Inr l"
    using assms unfolding disposal_result_lineage_def by (elim rbind_InrE)
  have "NumericOutputPolicyLineage policy = Inr policy"
    using policy NumericOutputPolicyLineage_idem by (auto simp: lineage_identity_def)
  then show ?thesis using build by (elim build_InrE) (simp add: constructed_lineage_def)
qed

definition sample_receipt :: "calculation_lineage \<Rightarrow> lot_disposal_receipt_state" where
  "sample_receipt l =
     \<lparr>rs_disposal_transaction_id = ''SELL-1'', rs_portfolio_id = ''PB-1'', rs_instrument_id = ''INS-1'',
      rs_security_id = ''SEC-1'', rs_disposal_timestamp = Py_Datetime 0 (Some 0), rs_transaction_type = ''SELL'',
      rs_cost_basis_method = FIFO, rs_calculation_policy_id = None, rs_calculation_policy_version = None,
      rs_transaction_calculation_lineage = l, rs_status = ACTIVE, rs_consumed_quantity = 2,
      rs_consumed_cost_local = 20, rs_consumed_cost_base = 30, rs_allocations = [sample_allocation],
      rs_disposal_calculation_lineage = Some l, rs_destination = None, rs_void_reason = None,
      rs_receipt_id = [], rs_semantic_content_hash = []\<rparr>"

lemma sample_receipt_fields:
  "rs_disposal_transaction_id (sample_receipt l) = ''SELL-1''" "rs_portfolio_id (sample_receipt l) = ''PB-1''"
  "rs_instrument_id (sample_receipt l) = ''INS-1''" "rs_security_id (sample_receipt l) = ''SEC-1''"
  "rs_transaction_type (sample_receipt l) = ''SELL''" "rs_disposal_timestamp (sample_receipt l) = Py_Datetime 0 (Some 0)"
  "rs_calculation_policy_id (sample_receipt l) = None" "rs_calculation_policy_version (sample_receipt l) = None"
  "rs_consumed_quantity (sample_receipt l) = 2" "rs_consumed_cost_local (sample_receipt l) = 20"
  "rs_consumed_cost_base (sample_receipt l) = 30"
  by (simp_all add: sample_receipt_def)

lemma sample_receipt_constructed:
  "\<exists>l s. LotDisposalReceiptState (sample_receipt l) = Inr s \<and> receipt_state_wf s \<and> rs_allocations s = [sample_allocation] \<and>
     rs_status s = ACTIVE \<and> (\<forall>a \<in> set (rs_allocations s). allocation_amounts a) \<and> storable_receipt s"
proof -
  have success: "ldr_error_reason sample_result = None" "ldr_consumed_quantity sample_result \<noteq> 0"
    by (simp_all add: sample_result_def)
  from result_lineage_verifies [OF sample_result_constructed this]
  obtain l where l: "disposal_result_lineage sample_result = Inr l"
    and verified: "verify_active_lot_disposal_lineage (Some l) [source_lot_disposal_allocation_payload sample_allocation] 30 20 2 = Inr ()"
    by (auto simp: sample_result_def)
  have amounts: "allocation_amounts sample_allocation" "canonical_ok 30" "canonical_ok 20" "canonical_ok 2"
    using successful_result [OF sample_result_constructed success] by (simp_all add: sample_result_def)
  have strip: "py_strip ''SELL-1'' = ''SELL-1''" "py_strip ''PB-1'' = ''PB-1''" "py_strip ''INS-1'' = ''INS-1''"
    "py_strip ''SEC-1'' = ''SEC-1''" "py_strip ''SELL'' = ''SELL''" by code_simp+
  have allocation: "SourceLotDisposalAllocation sample_allocation = Inr sample_allocation" by code_simp
  have sums: "dec_add ambient 0 2 = 2" "dec_add ambient 0 20 = 20" "dec_add ambient 0 30 = 30" by code_simp+
  let ?s = "sample_receipt l"
  have active: "validate_lifecycle_shape ?s = Inr ?s"
    by (simp add: validate_lifecycle_shape_def validate_active_allocations_def sample_receipt_def sample_allocation_def
        ambient_sum_def sums)
  obtain i where i: "canonical_content_hash (identity_payload ?s) = Inr i"
    by (simp add: identity_payload_def canonical_content_hash_def canonical_text_def require_mapping_key_def)
  have "digestible_items (receipt_payload ?s)"
    using amounts by (intro digestible_receipt) (simp_all add: sample_receipt_def)
  then obtain g where g: "rbind (semantic_payload ?s) canonical_content_hash = Inr g"
    using payload_digest by (fastforce simp: semantic_payload_def)
  have "receipt_facts (?s\<lparr>rs_receipt_id := ''lot-disposal:'' @ i, rs_semantic_content_hash := g\<rparr>)"
    using active i g by (simp add: receipt_facts_def lifecycle_identity sample_receipt_fields strip normalize_optional_text_def)
  moreover from facts_construct [OF this] have "LotDisposalReceiptState ?s =
      Inr (?s\<lparr>rs_receipt_id := ''lot-disposal:'' @ i, rs_semantic_content_hash := g\<rparr>)"
    by (simp add: sample_receipt_def)
  moreover have "constructed_lineage l" using l by (rule disposal_result_lineage_constructed)
  ultimately show ?thesis using verified allocation amounts(1)
    by (intro exI [of _ l] exI [of _ "?s\<lparr>rs_receipt_id := ''lot-disposal:'' @ i, rs_semantic_content_hash := g\<rparr>"])
      (simp add: receipt_state_wf_def allocation_wf_def sample_receipt_def sample_allocation_def storable_receipt_def
        allocation_stored_amounts_def ledger_amount_iff)
qed


lemma empty_ledger:
  defines "L \<equiv> \<lparr>receipt_rows = [], allocation_rows = []\<rparr>"
  shows "ledger_ok L" "receipt_id_owned L s" "load_receipt_chain L tid = []" "head_of L tid = None"
  by (simp_all add: L_def ledger_ok_def chain_head_def load_receipt_chain_def receipt_id_owned_def head_of_def)

section \<open>Properties\<close>

text \<open>
  C29. The receipt ledger stays verifiable. Where every persisted chain verifies and the receipt
  identities of the batch belong to no other transaction, every successful reconciliation of
  well-formed receipts leaves a ledger in which every chain verifies; it keeps all earlier rows and
  appends at most one version per receipt; and reconciling the same batch again changes nothing.
\<close>

theorem reconcile_disposal_receipts_sound:
  assumes "ledger_ok L" and "\<forall>s \<in> set states. receipt_state_wf s \<and> receipt_id_owned L s"
    and "reconcile_disposal_receipts states L = (Inr (), L')"
  shows "ledger_ok L' \<and>
    (\<exists>rows allocations. receipt_rows L' = receipt_rows L @ rows \<and> allocation_rows L' = allocation_rows L @ allocations \<and>
       length rows \<le> length states) \<and>
    reconcile_disposal_receipts states L' = (Inr (), L')"
proof -
  obtain rows where valid: "validate_candidate_batch states = Inr ()"
    and rows: "rmap (\<lambda>s. append_rows (head_of L (rs_disposal_transaction_id s)) s) states = Inr rows"
    and inserted: "insert_rows (joined rows) L = (Inr (), L')"
    using assms(3) by (auto simp: reconcile_verified [OF assms(1)] rbind_def split: sum.splits)
  have L': "L' = extended L (joined rows)" using inserted joined_together [OF rows] by (rule insert_rows_Inr)
  have "distinct (map rs_receipt_id states)" "distinct (map rs_disposal_transaction_id states)"
    using valid by (simp_all add: validate_candidate_batch_def rbind_eq_Inr)
  then have batch: "ledger_ok L'" "length (fst (joined rows)) \<le> length states"
    "\<And>s. s \<in> set states \<Longrightarrow> append_rows (head_of L' (rs_disposal_transaction_id s)) s = Inr ([], [])"
    using append_batch [OF assms(1,2) _ _ rows] by (simp_all add: L')
  have "rmap (\<lambda>s. append_rows (head_of L' (rs_disposal_transaction_id s)) s) states = Inr (map (\<lambda>_. ([], [])) states)"
    using batch(3) by (rule rmap_total)
  moreover have "joined (map (\<lambda>_. ([], [])) xs) = ([], [])" for xs :: "lot_disposal_receipt_state list"
    by (induction xs) (simp_all add: joined_def)
  ultimately have "reconcile_disposal_receipts states L' = (Inr (), L')"
    by (simp add: reconcile_verified [OF batch(1)] valid insert_rows_def)
  then show ?thesis using batch by (auto simp: L' extended_def)
qed

theorem reconcile_disposal_receipts_sound_witness:
  "\<exists>s L'. reconcile_disposal_receipts [s] \<lparr>receipt_rows = [], allocation_rows = []\<rparr> = (Inr (), L') \<and>
     ledger_ok L' \<and> reconcile_disposal_receipts [s] L' = (Inr (), L')"
proof -
  obtain s where s: "receipt_state_wf s" "\<forall>a \<in> set (rs_allocations s). allocation_amounts a" "rs_status s = ACTIVE"
    "storable_receipt s"
    using sample_receipt_constructed by blast
  obtain h as where row: "receipt_content_hash s 1 None = Inr h" "allocation_values s 1 = Inr as"
    using receipt_content_hash_total allocation_values_total s(2) by blast
  then have "append_rows None s = Inr ([header_values s 1 None h], as)"
    using s(3) by (simp add: append_rows_def next_version_def)
  moreover have "storable_rows ([header_values s 1 None h], as)" using storable_receipt_rows [OF row(2)] s(4) by simp
  ultimately have "\<exists>L'. reconcile_disposal_receipts [s] \<lparr>receipt_rows = [], allocation_rows = []\<rparr> = (Inr (), L')"
    by (simp add: reconcile_verified [OF empty_ledger(1)] validate_candidate_batch_def empty_ledger joined_def
        insert_rows_storable)
  then show ?thesis
    using reconcile_disposal_receipts_sound [OF empty_ledger(1), of "[s]"] s(1) empty_ledger(2) by auto
qed




text \<open>
  C32. What is written is read back: the rows of a well-formed receipt, linked to their predecessor,
  pass the verification of persisted rows and reconstruct the receipt itself, without the source
  quantities of its allocations, for which there is no column.
\<close>

theorem receipt_rows_roundtrip:
  assumes "receipt_state_wf s" and "links_to v previous prior"
    and "receipt_content_hash s v previous = Inr h" and "allocation_values s v = Inr as"
  shows "verified_state (header_values s v previous h) as prior = Inr (bare_state s)"
  using assms by (rule rows_reconstruct)

theorem receipt_rows_roundtrip_witness:
  "\<exists>l s h as. LotDisposalReceiptState (sample_receipt l) = Inr s \<and>
     verified_state (header_values s 1 None h) as None = Inr (bare_state s)"
proof -
  obtain l s where s: "LotDisposalReceiptState (sample_receipt l) = Inr s" "receipt_state_wf s"
    "\<forall>a \<in> set (rs_allocations s). allocation_amounts a"
    using sample_receipt_constructed by blast
  obtain h as where "receipt_content_hash s 1 None = Inr h" "allocation_values s 1 = Inr as"
    using receipt_content_hash_total allocation_values_total s(3) by blast
  from receipt_rows_roundtrip [OF s(2) _ this, of None] s(1) show ?thesis
    by (auto simp: links_to_def)
qed

section \<open>Constructed receipts\<close>

text \<open>
  C39. The constructor of receipt states establishes its invariant and is idempotent: every state it
  returns has stripped nonblank identities, an aware timestamp, paired policy fields, non-negative
  totals, a lifecycle shape that validates, the identity and the semantic digest of its own content,
  and constructing it again gives the state itself.
\<close>

theorem receipt_state_constructed:
  assumes "LotDisposalReceiptState raw = Inr s"
  shows "receipt_facts s \<and> LotDisposalReceiptState s = Inr s"
proof -
  have facts: "receipt_facts s" using assms by (rule constructed_facts)
  from facts_construct [OF this, where x = "rs_receipt_id s" and y = "rs_semantic_content_hash s"]
  show ?thesis using facts by simp
qed

theorem receipt_state_constructed_witness:
  "\<exists>l s. LotDisposalReceiptState (sample_receipt l) = Inr s \<and> receipt_facts s \<and> LotDisposalReceiptState s = Inr s"
  using sample_receipt_constructed receipt_state_constructed by blast

section \<open>A missing predecessor\<close>

text \<open>
  C40. A version whose predecessor hash is missing is not reported as a corrupt receipt: the chain
  check takes the length of the absent hash, and the \<open>TypeError\<close> escapes the handler of the
  repository, which translates value errors only.
\<close>

theorem missing_predecessor_escapes:
  assumes "hd_receipt_id r = rid" and "hd_receipt_id q = rid" and "rid \<noteq> []" and "py_strip rid = rid"
    and "hd_receipt_version r = 1" and "hd_receipt_version q = 2"
    and "hd_previous_receipt_content_hash r = None" and "hd_previous_receipt_content_hash q = None"
    and "require_sha256_digest (hd_receipt_content_hash r) [] = Inr (hd_receipt_content_hash r)"
    and "require_sha256_digest (hd_receipt_content_hash q) [] = Inr (hd_receipt_content_hash q)"
  shows "\<exists>message. verify_loaded_chain L tid [r, q] = Inl (TypeError message)"
proof -
  have "require_sha256_digest (hd_receipt_content_hash x) f = Inr (hd_receipt_content_hash x)" if "x \<in> {r, q}" for x f
    using assms(9,10) that digest_field_independent by blast
  then have "\<exists>message. verify_cost_basis_receipt_version_chain [r, q] = Inl (TypeError message)"
    using assms(1-8) by (simp add: verify_cost_basis_receipt_version_chain_def require_present_digest_def)
  then show ?thesis by (auto simp: verify_loaded_chain_def)
qed

definition sample_row :: "int \<Rightarrow> receipt_row" where
  "sample_row v = header_values (sample_receipt sample_lineage\<lparr>rs_receipt_id := ''lot-disposal:1''\<rparr>) v None (replicate 64 (CHR ''0''))"

theorem missing_predecessor_escapes_witness:
  "\<exists>message. verify_loaded_chain \<lparr>receipt_rows = [], allocation_rows = []\<rparr> ''SELL-1'' [sample_row 1, sample_row 2] = Inl (TypeError message)"
proof -
  have "py_strip ''lot-disposal:1'' = ''lot-disposal:1''"
    "require_sha256_digest (replicate 64 (CHR ''0'')) [] = Inr (replicate 64 (CHR ''0''))" by code_simp+
  then show ?thesis
    by (intro missing_predecessor_escapes [of _ "''lot-disposal:1''"]) (simp_all add: sample_row_def header_columns)
qed

end
