(* ===== verification/Spec2Isabelle.thy ===== *)
theory Spec2Isabelle
  imports Average_Cost_Transition Transaction_Types Transaction_Ordering Receipt_Ledger_Properties
begin

text \<open>
  Verification of the accounting core of lotus-core: the cost-basis engine of the transaction
  processing service (\<open>src/src/services/portfolio_transaction_processing_service/app/domain\<close>)
  and the numeric and transaction vocabulary it takes from
  \<open>src/src/libs/portfolio-common/portfolio_common/domain\<close>.

  \<^bold>\<open>How the parts interact.\<close> Booked transactions are sorted into the ledger order, one cost-basis
  strategy per portfolio and security (first-in-first-out or average cost) keeps the open lots or the
  pool, every disposal and basis transfer leaves evidence that accounts for each source lot, and all
  stored amounts pass through a numeric policy with a fixed scale and precision. Incremental
  processing resumes from checkpoints instead of replaying the history. The evidence of a disposal is
  hashed into a lineage and kept as an append-only chain of receipt versions, which is verified
  against its hashes before a version is added.

  \<^bold>\<open>Vocabulary.\<close> \<open>Core_Prelude\<close> has exceptions as values (\<open>py_error\<close>, \<open>res\<close>), stateful routines as
  \<open>outcome\<close> (the result together with the state left behind, also on a raise), dictionaries in
  insertion order and the code normalisation of the sources. \<open>Py_Decimal\<close> has the part of Python's
  \<open>decimal\<close> the sources use, on rationals: the rounding modes, rounding to the context precision,
  quantising, division.
  \<open>Py_Json\<close> has the canonical JSON text the lineage hashes are taken of, and that it is uniquely
  readable; \<open>Py_Text\<close> the texts of dates, instants and decimals; \<open>Calendar_Text\<close> that a date is
  determined by its text; \<open>Sha256\<close> the hash itself, on 32-bit words, with a known answer.

  \<^bold>\<open>Numeric policies\<close> (\<open>Numeric_Policy\<close>): \<open>financial/precision.py\<close>,
  \<open>financial/calculation_precision.py\<close> and the policy instances. The digit loop agrees with the check
  on values; \<open>normalize\<close> refuses non-finite values and rounds a finite one once, in the rounding mode of
  the policy, or raises; the four operations of a half-to-even policy are exact or correctly rounded on
  storable amounts. The locale \<open>calculated_policy\<close> has the laws of every rounding mode,
  \<open>ledger_policy\<close> those of half-to-even and \<open>guarded_ledger_policy\<close> those of a working precision with
  guard digits; they are interpreted on every policy instance. Code that computes inside the context of
  the cost-basis state policy uses its precision, \<open>context_precision\<close>, with the half-to-even rounding
  the policy has (\<open>state_policy_context\<close>). \<open>Exact_Numeric\<close> is the bind check of the numeric columns
  (\<open>financial_numeric.py\<close>).

  \<^bold>\<open>Cost basis.\<close> \<open>Cost_Basis_Transaction\<close> is the mutable transaction of the engine
  (\<open>models/cost_basis_transaction.py\<close>); \<open>Lot_State\<close> has lots, exact quantity restatement and
  residual-safe apportionment (\<open>lot_state.py\<close>, \<open>lot_restatement.py\<close>, \<open>residual_allocation.py\<close>);
  \<open>Disposal_Allocation\<close> the evidence of disposals and basis transfers. \<open>Fifo_Strategy\<close> models
  \<open>FIFOBasisStrategy\<close> over an explicit store of lots, \<open>Fifo_Correctness\<close>, \<open>Fifo_Transfer\<close> and
  \<open>Fifo_Properties\<close> prove conservation, the invariant and the error behaviour of its operations.
  \<open>Average_Cost_Pool\<close>, \<open>Average_Cost_Allocation\<close> and \<open>Average_Cost_Strategy\<close> model the average-cost
  strategy, \<open>Average_Cost_Correctness\<close>, \<open>Average_Cost_Invariant\<close>, \<open>Average_Cost_Disposal\<close> and
  \<open>Average_Cost_Properties\<close> prove the same for it. \<open>Average_Cost_Checkpoint\<close> models the pool and
  allocation checkpoints; \<open>Average_Cost_Resume\<close> is a simulation showing that a restored book
  continues as the exported one, \<open>Average_Cost_Export\<close>, \<open>Average_Cost_Conflict\<close> and
  \<open>Average_Cost_Transition\<close> say when an export succeeds, when it raises, and what pool transitions do.

  \<^bold>\<open>Transactions.\<close> \<open>Transaction_Types\<close> is the type registry with its selections and the
  classifications built on it; \<open>Transaction_Ordering\<close> is the ledger order with the ordering
  checkpoint: the order is independent of arrival, respects linked legs, and an admitted append sorts
  after the whole history as long as the checkpoint was taken at a transaction whose lot-order quantity
  is not below its quantity; a counterexample shows that the condition is needed.

  \<^bold>\<open>Lineage and receipts.\<close> \<open>Calculation_Lineage\<close> models \<open>calculation_lineage.py\<close>: normalisation of
  payloads, the content hash, building, verifying and rehydrating a lineage. \<open>Lineage_Properties\<close> shows
  that equal digests mean equal calculations unless SHA-256 collides, and that a persisted lineage
  rehydrates; it rests on the unique readability of the hashed text. \<open>Canonical_Payload\<close>
  and \<open>Receipt_Integrity\<close> model \<open>cost_basis_receipt_integrity.py\<close>; \<open>Amount_Text\<close>, \<open>Payload_Digest\<close> and
  \<open>Receipt_Properties\<close> show that what a disposal result binds is what the reader verifies, that one
  lineage vouches for one disposal, and that the chain check accepts exactly the linked chains.
  \<open>Lot_Disposal_Receipt\<close> models \<open>lot_disposal_receipt.py\<close> and \<open>Receipt_Ledger\<close> the rows and the
  reconciliation of \<open>infrastructure/cost_basis/lot_disposal_repository.py\<close>, with the tables as lists
  of rows. \<open>Receipt_Roundtrip\<close> reconstructs a receipt from its rows, \<open>Receipt_Reconciliation\<close> carries the
  ledger invariant through the append of a version, and \<open>Receipt_Ledger_Properties\<close> has the properties:
  the ledger stays verifiable, new information becomes the verified head or is refused by a numeric
  column, and repeating a batch changes nothing.

  \<^bold>\<open>Bounds.\<close> Nothing runs on fuel: the loops are structural or have a termination proof (the FIFO
  consumption loop by the number of open lots, payload traversals by the size of the payload). Ledger amounts are below \<open>10 ^ 8\<close> with ten decimal
  places, which is what the 18-digit policies store.

  \<^bold>\<open>Not modelled.\<close> The per-type cost calculators, the position reducer, the basis-transfer receipts and
  the overlay that attaches amortized-cost evidence to disposals. The integrity errors of the database
  (a missing source lot, a concurrent append); a column returns what was bound to it. Conversion of wire texts to typed fields, SQL persistence, Kafka transport, HTTP
  routers and contracts, the query, ingestion, valuation, reconciliation and replay services, database
  models, operational scripts and tools: they move data to and from the policies above. Exponent limits
  of the decimal context and non-ASCII case mapping are left out.
\<close>

end
